(* ===== verification/Prelude.thy ===== *)
theory Prelude
  imports Main "HOL-Library.Sublist"
begin

text \<open>
  The shared layer: exceptions as values, programs as state transformers that return either an
  exception or a result, the weakest-precondition calculus used to reason about them, and the
  generic list lemmas that stand for SQLAlchemy's query methods.

  A Python function that touches the database or an external service is a value of type
  \<open>('s, 'a) prog\<close>: it takes the state, and returns an exception (\<open>Inl\<close>) or a result (\<open>Inr\<close>)
  together with the state at that point. \<open>seq\<close> is statement sequencing, \<open>catch\<close> is
  \<open>try .. except Exception\<close>, \<open>for_each\<close> is a \<open>for\<close> loop whose body may raise.
\<close>

section \<open>Collections of facts\<close>

named_theorems wp_simps "the weakest precondition of each program constructor and operation"
named_theorems keeps_intros "programs that leave an observation of the state unchanged"
named_theorems logs_intros "programs whose external calls all lie in a given set"
named_theorems undoes_intros "programs that leave the database unchanged when they raise"
named_theorems text_simps "evaluation of the string operations"
named_theorems inv_intros "programs that keep a predicate of the database"

section \<open>Exceptions\<close>

text \<open>
  \<open>Http status tag\<close> is \<open>fastapi.HTTPException(status_code, detail)\<close>. The detail texts of the source
  are Korean sentences that no code inspects; each is represented by an ASCII tag.
  \<open>ResourceException status content\<close> is proxmoxer's error for an HTTP status of 400 or more.
\<close>

datatype exn =
    Http int string
  | ValueError string
  | RuntimeError string
  | TypeError
  | AttributeError
  | KeyError
  | ResourceException int string
  | TimeoutError
  | ConnectionError
  | IntegrityError
  | DatabaseError
  | OtherException

fun is_http :: "exn \<Rightarrow> bool" where
  "is_http (Http _ _) = True"
| "is_http _ = False"

section \<open>Programs\<close>

type_synonym ('s, 'a) prog = "'s \<Rightarrow> (exn + 'a) \<times> 's"

definition ret :: "'a \<Rightarrow> ('s, 'a) prog" where
  "ret x = (\<lambda>s. (Inr x, s))"

definition raise :: "exn \<Rightarrow> ('s, 'a) prog" where
  "raise e = (\<lambda>s. (Inl e, s))"

definition seq :: "('s, 'a) prog \<Rightarrow> ('a \<Rightarrow> ('s, 'b) prog) \<Rightarrow> ('s, 'b) prog" where
  "seq m k = (\<lambda>s. case m s of (Inl e, s') \<Rightarrow> (Inl e, s') | (Inr x, s') \<Rightarrow> k x s')"

definition catch :: "('s, 'a) prog \<Rightarrow> (exn \<Rightarrow> ('s, 'a) prog) \<Rightarrow> ('s, 'a) prog" where
  "catch m h = (\<lambda>s. case m s of (Inl e, s') \<Rightarrow> h e s' | (Inr x, s') \<Rightarrow> (Inr x, s'))"

definition gets :: "('s \<Rightarrow> 'a) \<Rightarrow> ('s, 'a) prog" where
  "gets f = (\<lambda>s. (Inr (f s), s))"

definition modify :: "('s \<Rightarrow> 's) \<Rightarrow> ('s, unit) prog" where
  "modify f = (\<lambda>s. (Inr (), f s))"

definition lift :: "exn + 'a \<Rightarrow> ('s, 'a) prog" where
  "lift r = (\<lambda>s. (r, s))"

definition raise_if :: "bool \<Rightarrow> exn \<Rightarrow> ('s, unit) prog" where
  "raise_if b e = (if b then raise e else ret ())"

text \<open>Pure code that may raise is a value of \<open>exn + 'a\<close>; \<open>andthen\<close> sequences it.\<close>

definition andthen :: "exn + 'a \<Rightarrow> ('a \<Rightarrow> exn + 'b) \<Rightarrow> exn + 'b" where
  "andthen m k = (case m of Inl e \<Rightarrow> Inl e | Inr x \<Rightarrow> k x)"

primrec for_each :: "'x list \<Rightarrow> ('x \<Rightarrow> ('s, unit) prog) \<Rightarrow> ('s, unit) prog" where
  "for_each [] f = ret ()"
| "for_each (x # xs) f = seq (f x) (\<lambda>_. for_each xs f)"

text \<open>A list comprehension whose element expression may raise.\<close>

primrec map_each :: "'x list \<Rightarrow> ('x \<Rightarrow> ('s, 'a) prog) \<Rightarrow> ('s, 'a list) prog" where
  "map_each [] f = ret []"
| "map_each (x # xs) f = seq (f x) (\<lambda>y. seq (map_each xs f) (\<lambda>ys. ret (y # ys)))"

lemmas prog_defs = ret_def raise_def seq_def catch_def gets_def modify_def lift_def raise_if_def

lemma each_code [code]:
  "for_each [] f s = (Inr (), s)"
  "for_each (x # xs) f s = seq (f x) (\<lambda>_. for_each xs f) s"
  "map_each [] g s = (Inr [], s)"
  "map_each (x # xs) g s = seq (g x) (\<lambda>y. seq (map_each xs g) (\<lambda>ys. ret (y # ys))) s"
  by (simp_all add: ret_def)

text \<open>For evaluation: a program is unfolded only when its state is given.\<close>

lemma prog_code [code]:
  "ret x s = (Inr x, s)"
  "raise e s = (Inl e, s)"
  "seq m k s = (case m s of (Inl e, s') \<Rightarrow> (Inl e, s') | (Inr x, s') \<Rightarrow> k x s')"
  "catch m h s = (case m s of (Inl e, s') \<Rightarrow> h e s' | (Inr x, s') \<Rightarrow> (Inr x, s'))"
  "gets f s = (Inr (f s), s)"
  "modify f s = (Inr (), f s)"
  "lift r s = (r, s)"
  "raise_if b e s = (if b then (Inl e, s) else (Inr (), s))"
  by (simp_all add: prog_defs)

lemma andthen_simps [simp]:
  "andthen (Inl e) k = Inl e" "andthen (Inr x) k = k x"
  by (simp_all add: andthen_def)

lemma andthen_Inr_iff: "andthen m k = Inr y \<longleftrightarrow> (\<exists>x. m = Inr x \<and> k x = Inr y)"
  by (cases m) simp_all

section \<open>Weakest preconditions\<close>

text \<open>
  \<open>wp m Q E s\<close>: running \<open>m\<close> in \<open>s\<close> either returns \<open>x\<close> in a state where \<open>Q x\<close> holds, or raises
  \<open>e\<close> in a state where \<open>E e\<close> holds. Programs are deterministic and total, so the rules below are
  equations and \<open>simp\<close> turns a correctness statement into its verification condition.
\<close>

definition wp :: "('s, 'a) prog \<Rightarrow> ('a \<Rightarrow> 's \<Rightarrow> bool) \<Rightarrow> (exn \<Rightarrow> 's \<Rightarrow> bool) \<Rightarrow> 's \<Rightarrow> bool" where
  "wp m Q E s = (case m s of (Inl e, s') \<Rightarrow> E e s' | (Inr x, s') \<Rightarrow> Q x s')"

lemma wp_ret [wp_simps]: "wp (ret x) Q E = (\<lambda>s. Q x s)"
  by (rule HOL.ext, simp add: wp_def ret_def)

lemma wp_raise [wp_simps]: "wp (raise e) Q E = (\<lambda>s. E e s)"
  by (rule HOL.ext, simp add: wp_def raise_def)

lemma wp_seq [wp_simps]: "wp (seq m k) Q E = (\<lambda>s. wp m (\<lambda>x. wp (k x) Q E) E s)"
  by (rule HOL.ext, simp add: wp_def seq_def split: prod.splits sum.splits)

lemma wp_catch [wp_simps]: "wp (catch m h) Q E = (\<lambda>s. wp m Q (\<lambda>e. wp (h e) Q E) s)"
  by (rule HOL.ext, simp add: wp_def catch_def split: prod.splits sum.splits)

lemma wp_gets [wp_simps]: "wp (gets f) Q E = (\<lambda>s. Q (f s) s)"
  by (rule HOL.ext, simp add: wp_def gets_def)

lemma wp_modify [wp_simps]: "wp (modify f) Q E = (\<lambda>s. Q () (f s))"
  by (rule HOL.ext, simp add: wp_def modify_def)

lemma wp_lift [wp_simps]:
  "wp (lift r) Q E = (\<lambda>s. ((\<forall>e. r = Inl e \<longrightarrow> E e s) \<and> (\<forall>x. r = Inr x \<longrightarrow> Q x s)))"
  by (rule HOL.ext, simp add: wp_def lift_def split: sum.splits)

lemma wp_raise_if [wp_simps]:
  "wp (raise_if b e) Q E = (\<lambda>s. ((b \<longrightarrow> E e s) \<and> (\<not> b \<longrightarrow> Q () s)))"
  by (rule HOL.ext, simp add: raise_if_def wp_simps)

lemma wp_if [wp_simps]:
  "wp (if b then m else n) Q E = (\<lambda>s. ((b \<longrightarrow> wp m Q E s) \<and> (\<not> b \<longrightarrow> wp n Q E s)))"
  by (rule HOL.ext, simp)

lemma wp_option [wp_simps]:
  "wp (case v of None \<Rightarrow> m | Some x \<Rightarrow> k x) Q E = (\<lambda>s. ((v = None \<longrightarrow> wp m Q E s) \<and> (\<forall>x. v = Some x \<longrightarrow> wp (k x) Q E s)))"
  by (rule HOL.ext, cases v) simp_all

lemma wp_sum [wp_simps]:
  "wp (case v of Inl x \<Rightarrow> m x | Inr y \<Rightarrow> k y) Q E = (\<lambda>s. ((\<forall>x. v = Inl x \<longrightarrow> wp (m x) Q E s) \<and> (\<forall>y. v = Inr y \<longrightarrow> wp (k y) Q E s)))"
  by (rule HOL.ext, cases v) simp_all

lemma wp_prod [wp_simps]:
  "wp (case v of (x, y) \<Rightarrow> m x y) Q E = (\<lambda>s. wp (m (fst v) (snd v)) Q E s)"
  by (rule HOL.ext, cases v) simp

lemma wp_list [wp_simps]:
  "wp (case v of [] \<Rightarrow> m | x # xs \<Rightarrow> k x xs) Q E = (\<lambda>s. ((v = [] \<longrightarrow> wp m Q E s) \<and> (\<forall>x xs. v = x # xs \<longrightarrow> wp (k x xs) Q E s)))"
  by (rule HOL.ext, cases v) simp_all

lemma wp_Let [wp_simps]: "wp (let x = v in m x) Q E = (\<lambda>s. wp (m v) Q E s)"
  by (rule HOL.ext, simp)

lemma wp_mono:
  assumes "wp m Q E s"
    and "\<And>x s'. Q x s' \<Longrightarrow> Q' x s'" and "\<And>e s'. E e s' \<Longrightarrow> E' e s'"
  shows "wp m Q' E' s"
  using assms by (auto simp: wp_def split: prod.splits sum.splits)

lemma wp_conj: "wp m Q E s \<Longrightarrow> wp m Q' E' s \<Longrightarrow> wp m (\<lambda>x s. Q x s \<and> Q' x s) (\<lambda>e s. E e s \<and> E' e s) s"
  by (auto simp: wp_def split: prod.splits sum.splits)

lemma wp_triv: "wp m (\<lambda>_ _. True) (\<lambda>_ _. True) s"
  by (auto simp: wp_def split: prod.splits sum.splits)

lemma wp_for_each:
  assumes "I s"
    and "\<And>x s. x \<in> set xs \<Longrightarrow> I s \<Longrightarrow> wp (f x) (\<lambda>_. I) E s"
  shows "wp (for_each xs f) (\<lambda>_. I) E s"
  using assms
proof (induction xs arbitrary: s)
  case Nil
  then show ?case by (simp add: wp_simps)
next
  case (Cons x xs)
  have "wp (f x) (\<lambda>_. I) E s" using Cons.prems by simp
  then have "wp (f x) (\<lambda>_. wp (for_each xs f) (\<lambda>_. I) E) E s"
    by (rule wp_mono) (use Cons.IH Cons.prems(2) in auto)
  then show ?case by (simp add: wp_simps)
qed

text \<open>From the calculus to runs, the form in which the properties are stated.\<close>

lemma wp_result: "wp m Q E s \<Longrightarrow> m s = (Inr x, s') \<Longrightarrow> Q x s'"
  by (simp add: wp_def)

lemma wp_error: "wp m Q E s \<Longrightarrow> m s = (Inl e, s') \<Longrightarrow> E e s'"
  by (simp add: wp_def)

lemma wp_final: "wp m (\<lambda>_. I) (\<lambda>_. I) s \<Longrightarrow> I (snd (m s))"
  by (auto simp: wp_def split: prod.splits sum.splits)

lemma wp_runI:
  assumes "\<And>x s'. m s = (Inr x, s') \<Longrightarrow> Q x s'" and "\<And>e s'. m s = (Inl e, s') \<Longrightarrow> E e s'"
  shows "wp m Q E s"
  using assms by (auto simp: wp_def split: prod.splits sum.splits)

lemma seq_Inr_iff: "seq m k s = (Inr y, s') \<longleftrightarrow> (\<exists>x t. m s = (Inr x, t) \<and> k x t = (Inr y, s'))"
  by (auto simp: seq_def split: prod.splits sum.splits)

lemma raise_if_Inr_iff [simp]: "raise_if b e s = (Inr u, s') \<longleftrightarrow> \<not> b \<and> s' = s"
  by (auto simp: raise_if_def raise_def ret_def)

lemma prog_Inr_iffs [simp]:
  "ret x s = (Inr y, s') \<longleftrightarrow> y = x \<and> s' = s"
  "raise e s = (Inr y, s') \<longleftrightarrow> False"
  "gets f s = (Inr y, s') \<longleftrightarrow> y = f s \<and> s' = s"
  "modify g s = (Inr u, s') \<longleftrightarrow> s' = g s"
  "lift r s = (Inr y, s') \<longleftrightarrow> r = Inr y \<and> s' = s"
  by (auto simp: prog_defs)

section \<open>Frames\<close>

text \<open>\<open>keeps f m\<close>: the observation \<open>f\<close> of the state is the same after \<open>m\<close>, also when it raises.\<close>

definition keeps :: "('s \<Rightarrow> 'o) \<Rightarrow> ('s, 'a) prog \<Rightarrow> bool" where
  "keeps f m \<longleftrightarrow> (\<forall>s. f (snd (m s)) = f s)"

lemma keepsD: "keeps f m \<Longrightarrow> m s = (r, s') \<Longrightarrow> f s' = f s"
  by (metis keeps_def snd_conv)

lemma keeps_ret [keeps_intros]: "keeps f (ret x)"
  by (simp add: keeps_def ret_def)

lemma keeps_raise [keeps_intros]: "keeps f (raise e)"
  by (simp add: keeps_def raise_def)

lemma keeps_gets [keeps_intros]: "keeps f (gets g)"
  by (simp add: keeps_def gets_def)

lemma keeps_lift [keeps_intros]: "keeps f (lift r)"
  by (simp add: keeps_def lift_def)

lemma keeps_raise_if [keeps_intros]: "keeps f (raise_if b e)"
  by (simp add: raise_if_def keeps_intros)

lemma keeps_seq [keeps_intros]: "keeps f m \<Longrightarrow> (\<And>x. keeps f (k x)) \<Longrightarrow> keeps f (seq m k)"
  unfolding keeps_def seq_def
  by (auto split: prod.splits sum.splits) (metis snd_conv)+

lemma keeps_catch [keeps_intros]: "keeps f m \<Longrightarrow> (\<And>e. keeps f (h e)) \<Longrightarrow> keeps f (catch m h)"
  unfolding keeps_def catch_def
  by (auto split: prod.splits sum.splits) (metis snd_conv)+

lemma keeps_if [keeps_intros]: "(b \<Longrightarrow> keeps f m) \<Longrightarrow> (\<not> b \<Longrightarrow> keeps f n) \<Longrightarrow> keeps f (if b then m else n)"
  by simp

lemma keeps_option [keeps_intros]:
  "keeps f m \<Longrightarrow> (\<And>x. keeps f (k x)) \<Longrightarrow> keeps f (case v of None \<Rightarrow> m | Some x \<Rightarrow> k x)"
  by (cases v) simp_all

lemma keeps_sum [keeps_intros]:
  "(\<And>x. keeps f (m x)) \<Longrightarrow> (\<And>x. keeps f (k x)) \<Longrightarrow> keeps f (case v of Inl x \<Rightarrow> m x | Inr x \<Rightarrow> k x)"
  by (cases v) simp_all

lemma keeps_prod [keeps_intros]:
  "(\<And>x y. keeps f (m x y)) \<Longrightarrow> keeps f (case v of (x, y) \<Rightarrow> m x y)"
  by (cases v) simp

lemma keeps_list [keeps_intros]:
  "keeps f m \<Longrightarrow> (\<And>x xs. keeps f (k x xs)) \<Longrightarrow> keeps f (case v of [] \<Rightarrow> m | x # xs \<Rightarrow> k x xs)"
  by (cases v) simp_all

lemma keeps_Let [keeps_intros]: "(\<And>x. keeps f (m x)) \<Longrightarrow> keeps f (let x = v in m x)"
  by simp

lemma keeps_for_each [keeps_intros]: "(\<And>x. keeps f (g x)) \<Longrightarrow> keeps f (for_each xs g)"
  by (induction xs) (auto intro: keeps_intros)

lemma keeps_map_each [keeps_intros]: "(\<And>x. keeps f (g x)) \<Longrightarrow> keeps f (map_each xs g)"
  by (induction xs) (auto intro!: keeps_intros)

lemma keeps_modify: "(\<And>s. f (g s) = f s) \<Longrightarrow> keeps f (modify g)"
  by (simp add: keeps_def modify_def)

lemma keeps_wp: "keeps f m \<Longrightarrow> f s = v \<Longrightarrow> wp m (\<lambda>_ s. f s = v) (\<lambda>_ s. f s = v) s"
  by (auto simp: wp_def keeps_def split: prod.splits sum.splits) (metis snd_conv)+

lemma wp_always: "(\<And>x t. Q x t) \<Longrightarrow> (\<And>x t. E x t) \<Longrightarrow> wp m Q E s"
  by (auto simp: wp_def split: prod.splits sum.splits)

lemma wp_keeps_step:
  assumes "keeps f m" and "\<And>x t. f t = f s \<Longrightarrow> wp (k x) Q E t" and "\<And>x t. f t = f s \<Longrightarrow> E x t"
  shows "wp (seq m k) Q E s"
  unfolding wp_seq by (rule wp_mono[OF keeps_wp[OF assms(1) refl]]) (use assms(2,3) in auto)

section \<open>Rows\<close>

text \<open>
  A table is the list of its rows in the order the database returns them. \<open>query.filter(p).all()\<close> is
  \<open>filter p\<close>, \<open>.count()\<close> is \<open>count_rows p\<close>, \<open>.first()\<close> is \<open>find p\<close>, \<open>.update(..)\<close> is \<open>update_rows\<close>,
  \<open>.delete()\<close> is \<open>delete_rows\<close>, and \<open>.order_by(key.desc()).first()\<close> is \<open>first_desc key\<close>.
\<close>

definition count_rows :: "('r \<Rightarrow> bool) \<Rightarrow> 'r list \<Rightarrow> int" where
  "count_rows p rows = int (length (filter p rows))"

definition update_rows :: "('r \<Rightarrow> bool) \<Rightarrow> ('r \<Rightarrow> 'r) \<Rightarrow> 'r list \<Rightarrow> 'r list" where
  "update_rows p f rows = map (\<lambda>r. if p r then f r else r) rows"

definition delete_rows :: "('r \<Rightarrow> bool) \<Rightarrow> 'r list \<Rightarrow> 'r list" where
  "delete_rows p rows = filter (\<lambda>r. \<not> p r) rows"

definition first_desc :: "('r \<Rightarrow> int) \<Rightarrow> 'r list \<Rightarrow> 'r option" where
  "first_desc key rows = (case sort_key (\<lambda>r. - key r) rows of [] \<Rightarrow> None | r # _ \<Rightarrow> Some r)"

lemma find_Some_iff_mem: "find p xs = Some x \<Longrightarrow> x \<in> set xs \<and> p x"
  by (induction xs) (auto split: if_splits)

lemma find_None_all: "find p xs = None \<longleftrightarrow> (\<forall>x \<in> set xs. \<not> p x)"
  by (induction xs) auto

lemma find_distinct:
  "distinct (map k xs) \<Longrightarrow> x \<in> set xs \<Longrightarrow> find (\<lambda>y. k y = k x) xs = Some x"
  by (induction xs) (auto simp: rev_image_eqI)

lemma count_rows_nonneg [simp]: "0 \<le> count_rows p rows"
  by (simp add: count_rows_def)

lemma count_rows_append [simp]: "count_rows p (xs @ ys) = count_rows p xs + count_rows p ys"
  by (simp add: count_rows_def)

lemma count_rows_Cons [simp]:
  "count_rows p (x # xs) = (if p x then 1 else 0) + count_rows p xs"
  by (simp add: count_rows_def)

lemma count_rows_Nil [simp]: "count_rows p [] = 0"
  by (simp add: count_rows_def)

lemma count_rows_0_iff: "count_rows p rows = 0 \<longleftrightarrow> (\<forall>r \<in> set rows. \<not> p r)"
  by (simp add: count_rows_def filter_empty_conv)

lemma count_rows_delete_le: "count_rows p (delete_rows q rows) \<le> count_rows p rows"
  by (induction rows) (auto simp: delete_rows_def)

lemma count_rows_update [simp]:
  "(\<And>r. p (f r) = p r) \<Longrightarrow> count_rows p (update_rows q f rows) = count_rows p rows"
  by (induction rows) (auto simp: update_rows_def)

lemma set_delete_rows [simp]: "set (delete_rows p rows) = {r \<in> set rows. \<not> p r}"
  by (auto simp: delete_rows_def)

lemma delete_rows_append [simp]: "delete_rows p (xs @ ys) = delete_rows p xs @ delete_rows p ys"
  by (simp add: delete_rows_def)

lemma delete_rows_id: "(\<And>r. r \<in> set rows \<Longrightarrow> \<not> p r) \<Longrightarrow> delete_rows p rows = rows"
  by (simp add: delete_rows_def)

lemma delete_rows_all: "(\<And>r. r \<in> set rows \<Longrightarrow> p r) \<Longrightarrow> delete_rows p rows = []"
  by (simp add: delete_rows_def filter_empty_conv)

lemma update_rows_append [simp]:
  "update_rows p f (xs @ ys) = update_rows p f xs @ update_rows p f ys"
  by (simp add: update_rows_def)

lemma update_rows_id: "(\<And>r. r \<in> set rows \<Longrightarrow> \<not> p r) \<Longrightarrow> update_rows p f rows = rows"
  by (simp add: update_rows_def map_idI)

lemma length_update_rows [simp]: "length (update_rows p f rows) = length rows"
  by (simp add: update_rows_def)

lemma map_update_rows: "(\<And>r. k (f r) = k r) \<Longrightarrow> map k (update_rows p f rows) = map k rows"
  by (auto simp: update_rows_def)

lemma set_update_rows: "r \<in> set (update_rows p f rows) \<longleftrightarrow> (\<exists>q \<in> set rows. r = (if p q then f q else q))"
  by (auto simp: update_rows_def)

lemma distinct_map_delete_rows: "distinct (map k rows) \<Longrightarrow> distinct (map k (delete_rows p rows))"
  by (simp add: delete_rows_def distinct_map_filter)

lemma first_desc_mem: "first_desc key rows = Some r \<Longrightarrow> r \<in> set rows"
  by (auto simp: first_desc_def split: list.splits dest: arg_cong[where f = set])

lemma first_desc_None [simp]: "first_desc key rows = None \<longleftrightarrow> rows = []"
  by (auto simp: first_desc_def split: list.splits dest: arg_cong[where f = length])

lemma first_desc_max: 
  assumes "first_desc key rows = Some r" and "q \<in> set rows"
  shows "key q \<le> key r"
proof -
  obtain rs where s: "sort_key (\<lambda>r. - key r) rows = r # rs"
    using assms(1) by (auto simp: first_desc_def split: list.splits)
  have "sorted (map (\<lambda>r. - key r) (r # rs))"
    unfolding s[symmetric] by (rule sorted_sort_key)
  moreover have "q \<in> set (r # rs)" unfolding s[symmetric] using assms(2) by simp
  ultimately show ?thesis by auto
qed

section \<open>Steps and reachable states\<close>

text \<open>
  Components whose correctness is about every interleaving of their operations are step relations.
  The contract such a component has to meet is the locale \<open>invariant_system\<close>: a start condition, a step
  relation and an invariant that the start establishes and every step keeps. What it gives is the
  invariant in every reachable state.
\<close>

locale invariant_system =
  fixes start :: "'s \<Rightarrow> bool"
    and step :: "'s \<Rightarrow> 's \<Rightarrow> bool"
    and inv :: "'s \<Rightarrow> bool"
  assumes inv_start: "start s \<Longrightarrow> inv s"
    and inv_step: "inv s \<Longrightarrow> step s t \<Longrightarrow> inv t"
begin

lemma inv_steps: "step\<^sup>*\<^sup>* s t \<Longrightarrow> inv s \<Longrightarrow> inv t"
  by (induction rule: rtranclp_induct) (auto intro: inv_step)

lemma inv_reachable: "start s \<Longrightarrow> step\<^sup>*\<^sup>* s t \<Longrightarrow> inv t"
  using inv_steps inv_start by blast

end

end
