(* ===== verification/PyText.thy ===== *)
theory PyText
  imports Prelude
begin

text \<open>
  The string operations of Python that the source uses. A Python \<open>str\<close> is the list of the bytes of
  its UTF-8 encoding: on ASCII text (node names, IP addresses, ports, commands, subdomains) a
  \<open>char\<close> is a character; \<open>cp_len\<close> is Python's \<open>len\<close> and counts code points. Character classes are the
  ASCII ones: \<open>\d\<close>, \<open>isdigit\<close> and \<open>strip\<close> of the source also know non-ASCII digits and spaces, which
  the functions below treat as ordinary characters.
\<close>

section \<open>Character classes\<close>

definition ascii_lowercase :: string where
  "ascii_lowercase = ''abcdefghijklmnopqrstuvwxyz''"

definition ascii_uppercase :: string where
  "ascii_uppercase = ''ABCDEFGHIJKLMNOPQRSTUVWXYZ''"

definition digits :: string where
  "digits = ''0123456789''"

definition ascii_letters :: string where
  "ascii_letters = ascii_lowercase @ ascii_uppercase"

definition is_digit :: "char \<Rightarrow> bool" where
  "is_digit c \<longleftrightarrow> c \<in> set digits"

definition is_space :: "char \<Rightarrow> bool" where
  "is_space c \<longleftrightarrow> (of_char c :: nat) \<in> {9, 10, 11, 12, 13, 28, 29, 30, 31, 32}"

definition is_continuation :: "char \<Rightarrow> bool" where
  "is_continuation c \<longleftrightarrow> 128 \<le> (of_char c :: nat) \<and> (of_char c :: nat) < 192"

definition cp_len :: "string \<Rightarrow> int" where
  "cp_len s = int (length (filter (\<lambda>c. \<not> is_continuation c) s))"

section \<open>Stripping, splitting, joining, replacing\<close>

definition py_strip :: "string \<Rightarrow> string" where
  "py_strip s = rev (dropWhile is_space (rev (dropWhile is_space s)))"

definition strip_char :: "char \<Rightarrow> string \<Rightarrow> string" where
  "strip_char x s = rev (dropWhile (\<lambda>c. c = x) (rev (dropWhile (\<lambda>c. c = x) s)))"

fun split_char :: "char \<Rightarrow> string \<Rightarrow> string list" where
  "split_char x [] = [[]]"
| "split_char x (c # cs) =
     (if c = x then [] # split_char x cs
      else (case split_char x cs of [] \<Rightarrow> [[c]] | w # ws \<Rightarrow> (c # w) # ws))"

text \<open>\<open>s.split(sep, 1)\<close> with a separator that occurs, and \<open>s.replace(old, new, 1)\<close>.\<close>

fun split_once :: "string \<Rightarrow> string \<Rightarrow> (string \<times> string) option" where
  "split_once sep [] = None"
| "split_once sep (c # cs) =
     (if prefix sep (c # cs) then Some ([], drop (length sep) (c # cs))
      else (case split_once sep cs of None \<Rightarrow> None | Some (a, b) \<Rightarrow> Some (c # a, b)))"

fun replace_once :: "string \<Rightarrow> string \<Rightarrow> string \<Rightarrow> string" where
  "replace_once old new [] = []"
| "replace_once old new (c # cs) =
     (if prefix old (c # cs) then new @ drop (length old) (c # cs)
      else c # replace_once old new cs)"

fun join :: "string \<Rightarrow> string list \<Rightarrow> string" where
  "join sep [] = []"
| "join sep [w] = w"
| "join sep (w # v # ws) = w @ sep @ join sep (v # ws)"

fun py_contains :: "string \<Rightarrow> string \<Rightarrow> bool" where
  "py_contains [] sub = (sub = [])"
| "py_contains (c # cs) sub = (prefix sub (c # cs) \<or> py_contains cs sub)"

definition startswith :: "string \<Rightarrow> string \<Rightarrow> bool" where
  "startswith s p = prefix p s"

section \<open>Lower case\<close>

text \<open>
  \<open>str.lower\<close> on ASCII letters, and on the two other code points whose lower case contains an ASCII
  letter: U+212A (Kelvin sign) and U+0130 (dotted capital I). Every other non-ASCII character lowers
  to non-ASCII characters, which the callers treat all alike.
\<close>

definition lower_char :: "char \<Rightarrow> char" where
  "lower_char c = (case map_of (zip ascii_uppercase ascii_lowercase) c of None \<Rightarrow> c | Some d \<Rightarrow> d)"

function py_lower :: "string \<Rightarrow> string" where
  "py_lower [] = []"
| "py_lower (c # cs) =
     (if prefix [CHR 0xE2, CHR 0x84, CHR 0xAA] (c # cs) then CHR ''k'' # py_lower (drop 2 cs)
      else if prefix [CHR 0xC4, CHR 0xB0] (c # cs)
      then CHR ''i'' # CHR 0xCC # CHR 0x87 # py_lower (drop 1 cs)
      else lower_char c # py_lower cs)"
  by pat_completeness auto
termination by (relation "measure length") auto

section \<open>Numbers\<close>

definition digit_char :: "nat \<Rightarrow> char" where
  "digit_char d = digits ! (d mod 10)"

definition digit_value :: "char \<Rightarrow> nat" where
  "digit_value c = (of_char c :: nat) - 48"

fun show_nat :: "nat \<Rightarrow> string" where
  "show_nat n = (if n < 10 then [digit_char n] else show_nat (n div 10) @ [digit_char (n mod 10)])"

declare show_nat.simps [simp del]

definition show_int :: "int \<Rightarrow> string" where
  "show_int i = (if i < 0 then ''-'' @ show_nat (nat (- i)) else show_nat (nat i))"

definition parse_nat :: "string \<Rightarrow> nat" where
  "parse_nat s = foldl (\<lambda>n c. 10 * n + digit_value c) 0 s"

text \<open>
  \<open>int(s)\<close>: surrounding white space is ignored and the rest has to be digits. (Signs and underscores,
  which \<open>int\<close> also accepts, cannot occur where the source calls it.)
\<close>

definition py_int :: "string \<Rightarrow> exn + int" where
  "py_int s = (let t = py_strip s
     in if t \<noteq> [] \<and> list_all is_digit t then Inr (int (parse_nat t)) else Inl (ValueError ''int''))"

section \<open>Facts\<close>

lemma is_digit_simps [simp]:
  "is_digit (CHR ''0'')" "is_digit (CHR ''9'')"
  by (simp_all add: is_digit_def digits_def)

lemma is_digit_iff: "is_digit c \<longleftrightarrow> (\<exists>d < 10. c = digit_char d)"
proof
  assume "is_digit c"
  then obtain i where i: "i < length digits" "c = digits ! i"
    unfolding is_digit_def in_set_conv_nth by auto
  then have "i < 10" by (simp add: digits_def)
  with i show "\<exists>d < 10. c = digit_char d" by (auto simp: digit_char_def intro!: exI[of _ i])
next
  assume "\<exists>d < 10. c = digit_char d"
  then obtain d :: nat where d: "d < 10" "c = digit_char d" by auto
  then have "d < length digits" by (simp add: digits_def)
  then show "is_digit c" using d by (simp add: is_digit_def digit_char_def)
qed

lemma less_10_cases: "(d::nat) < 10 \<Longrightarrow> d \<in> {0, 1, 2, 3, 4, 5, 6, 7, 8, 9}"
  by auto

lemma digit_value_char [simp]: "d < 10 \<Longrightarrow> digit_value (digit_char d) = d"
  by (drule less_10_cases) (auto simp: digit_value_def digit_char_def digits_def)

lemma is_digit_digit_char [simp]: "is_digit (digit_char d)"
  unfolding is_digit_iff by (rule exI[of _ "d mod 10"]) (simp add: digit_char_def)

lemma not_space_digit_char [simp]: "\<not> is_space (digit_char d)"
proof -
  have "d mod 10 < 10" by simp
  then show ?thesis
    by (drule_tac less_10_cases) (auto simp: digit_char_def digits_def is_space_def)
qed

lemma show_nat_digits: "list_all is_digit (show_nat n)"
  by (induction n rule: show_nat.induct) (subst show_nat.simps, auto)

lemma show_nat_nonempty [simp]: "show_nat n \<noteq> []"
  by (subst show_nat.simps) simp

lemma parse_nat_snoc: "parse_nat (s @ [c]) = 10 * parse_nat s + digit_value c"
  by (simp add: parse_nat_def)

lemma parse_nat_show [simp]: "parse_nat (show_nat n) = n"
proof (induction n rule: show_nat.induct)
  case (1 n)
  show ?case
  proof (cases "n < 10")
    case True
    then show ?thesis by (subst show_nat.simps) (simp add: parse_nat_def)
  next
    case False
    then show ?thesis using 1 by (subst show_nat.simps) (simp add: parse_nat_snoc)
  qed
qed

lemma show_nat_inj [simp]: "show_nat m = show_nat n \<longleftrightarrow> m = n"
  by (metis parse_nat_show)

lemma show_int_inj: "0 \<le> i \<Longrightarrow> 0 \<le> j \<Longrightarrow> show_int i = show_int j \<longleftrightarrow> i = j"
  by (simp add: show_int_def) (metis int_nat_eq)

text \<open>The same digits without unary numbers, for evaluation.\<close>

lemma show_int_code [code]:
  "show_int i = (if i < 0 then ''-'' @ show_int (- i)
     else if i < 10 then [digit_char (nat i)]
     else show_int (i div 10) @ [digit_char (nat (i mod 10))])"
proof -
  have step: "show_nat (nat i) = show_nat (nat i div 10) @ [digit_char (nat i mod 10)]" if "10 \<le> i"
    using that by (subst show_nat.simps) simp
  have small: "show_nat (nat i) = [digit_char (nat i)]" if "i < 10"
    using that by (subst show_nat.simps) simp
  show ?thesis using step small
    by (auto simp: show_int_def nat_div_distrib nat_mod_distrib pos_imp_zdiv_neg_iff)
qed

lemma digit_not_space: "is_digit c \<Longrightarrow> \<not> is_space c"
  by (auto simp: is_digit_iff)

lemma dropWhile_id_hd: "(s \<noteq> [] \<Longrightarrow> \<not> P (hd s)) \<Longrightarrow> dropWhile P s = s"
  by (cases s) auto

lemma py_strip_no_space: "\<forall>c \<in> set s. \<not> is_space c \<Longrightarrow> py_strip s = s"
proof -
  assume *: "\<forall>c \<in> set s. \<not> is_space c"
  then have "dropWhile is_space s = s" "dropWhile is_space (rev s) = rev s"
    by (auto intro!: dropWhile_id_hd simp: hd_rev)
  then show ?thesis by (simp add: py_strip_def)
qed

lemma py_int_show: "0 \<le> i \<Longrightarrow> py_int (show_int i) = Inr i"
  using show_nat_digits[of "nat i"]
  by (auto simp: py_int_def show_int_def py_strip_no_space list_all_iff digit_not_space Let_def)

lemma split_char_nonempty [simp]: "split_char x s \<noteq> []"
  by (induction s) (auto split: list.splits)

lemma split_char_none: "x \<notin> set s \<Longrightarrow> split_char x s = [s]"
  by (induction s) auto

lemma split_char_append: "x \<notin> set a \<Longrightarrow> split_char x (a @ x # b) = a # split_char x b"
  by (induction a) auto

lemma join_split_char: "join [x] (split_char x s) = s"
proof (induction s)
  case (Cons c s)
  obtain w ws where "split_char x s = w # ws" by (cases "split_char x s") auto
  then show ?case using Cons by (cases ws) auto
qed simp

lemma split_char_set: "w \<in> set (split_char x s) \<Longrightarrow> set w \<subseteq> set s - {x}"
  by (induction s arbitrary: w) (fastforce split: if_splits list.splits)+

lemma split_once_append:
  assumes "hd sep \<notin> set a" and "sep \<noteq> []"
  shows "split_once sep (a @ sep @ b) = Some (a, b)"
  using assms
proof (induction a)
  case Nil
  then obtain c cs where c: "sep @ b = c # cs" by (cases sep) auto
  have "prefix sep (c # cs)" "drop (length sep) (c # cs) = b"
    unfolding c[symmetric] by auto
  then have "split_once sep (c # cs) = Some ([], b)" by simp
  with c show ?case by simp
next
  case (Cons c a)
  then have "\<not> prefix sep (c # a @ sep @ b)" by (cases sep) auto
  with Cons show ?case by simp
qed

lemma strip_char_ends:
  assumes "strip_char x s \<noteq> []"
  shows "hd (strip_char x s) \<noteq> x" and "last (strip_char x s) \<noteq> x"
proof -
  let ?t = "dropWhile (\<lambda>c. c = x) s"
  have ne: "dropWhile (\<lambda>c. c = x) (rev ?t) \<noteq> []" using assms unfolding strip_char_def by (metis rev.simps(1))
  show "last (strip_char x s) \<noteq> x"
    using hd_dropWhile[OF ne] ne by (simp add: strip_char_def last_rev)
  have t: "?t \<noteq> []" using ne by (metis dropWhile.simps(1) rev.simps(1))
  have nx: "hd ?t \<noteq> x" using hd_dropWhile[OF t] by simp
  then obtain u us where u: "?t = u # us" "u \<noteq> x" using t by (cases ?t) auto
  have "dropWhile (\<lambda>c. c = x) (rev us @ [u]) = dropWhile (\<lambda>c. c = x) (rev us) @ [u]
      \<or> dropWhile (\<lambda>c. c = x) (rev us @ [u]) = [u]"
    using u(2) by (auto simp: dropWhile_append)
  then show "hd (strip_char x s) \<noteq> x" using u by (auto simp: strip_char_def)
qed

lemma set_strip_char: "set (strip_char x s) \<subseteq> set s"
  unfolding strip_char_def by (metis set_dropWhileD set_rev subsetI)

end
