(* ===== verification/Data.thy ===== *)
theory Data
  imports Complex_Main PyText "HOL-Library.Char_ord" "HOL-Library.List_Lexorder"
begin

text \<open>
  The data of the program: the SQLAlchemy models of \<open>backend/models\<close> as records, its enumerations as
  datatypes, the tables as one \<open>database\<close> record, the constraints the models declare, and the settings
  and constants of \<open>backend/core\<close>. Times are microseconds of the KST wall clock, counted from a KST
  midnight. Columns that are encrypted at rest hold the plain value their property returns.
\<close>

section \<open>Enumerations\<close>

datatype user_role = ADMIN | PROJECT_OWNER | USER

datatype vm_tier = BASIC | STANDARD | PROJECT_CUSTOM

datatype vm_os = UBUNTU2204 | WINDOWS_SERVER

datatype vm_action = START | STOP | SHUTDOWN | REBOOT

datatype job_status = QUEUED | RUNNING | COMPLETED | FAILED

section \<open>JSON values\<close>

text \<open>
  What \<open>json.loads\<close> returns and a JSON response body holds. A text column that holds the text of such a value
  is modelled by the value.
\<close>

datatype json =
    JNull
  | JBool bool
  | JInt int
  | JFloat rat
  | JStr string
  | JList "json list"
  | JObj "(string \<times> json) list"

section \<open>Rows\<close>

record user =
  u_id :: int
  u_email :: string
  u_hashed_password :: "string option"
  u_role :: user_role
  u_is_active :: bool
  u_oauth_provider :: "string option"
  u_oauth_sub :: "string option"
  u_name :: "string option"
  u_grade :: "int option"
  u_class_num :: "int option"
  u_number :: "int option"
  u_major :: "string option"
  u_avatar_url :: "string option"
  u_project_name :: "string option"
  u_project_reason :: "string option"

record server =
  srv_id :: int
  srv_name :: string
  srv_ip_address :: string
  srv_port :: int
  srv_api_user :: string
  srv_api_password :: "string option"
  srv_ssh_user :: "string option"
  srv_ssh_password :: "string option"
  srv_ssh_port :: "int option"
  srv_is_active :: bool
  srv_gateway_ip :: "string option"
  srv_gateway_user :: "string option"
  srv_gateway_password :: "string option"
  srv_base_port :: int
  srv_last_free_ram_mb :: int

record vm =
  vm_id :: int
  vm_vmid :: int
  vm_name :: string
  vm_display_name :: "string option"
  vm_server_id :: int
  vm_owner_id :: "int option"
  vm_ram_mb :: int
  vm_cores :: int
  vm_internal_ip :: "string option"
  vm_password :: "string option"
  vm_created_at :: "int option"
  vm_expires_at :: "int option"
  vm_auto_snapshot :: bool
  vm_purpose :: "string option"
  vm_ready :: bool

record vm_port =
  p_id :: int
  p_vm_id :: int
  p_internal_port :: int
  p_external_port :: int
  p_protocol :: string
  p_action :: string
  p_source :: "string option"
  p_description :: "string option"
  p_is_default :: bool

record https_route =
  r_id :: int
  r_vm_id :: int
  r_subdomain :: string
  r_internal_port :: int
  r_caddy_synced :: bool

record notification =
  n_id :: int
  n_user_id :: int
  n_type :: string
  n_message :: string
  n_is_read :: bool
  n_created_at :: int

record email_verification =
  e_id :: int
  e_email :: string
  e_hashed_password :: string
  e_code :: string
  e_student_info :: "json option"
  e_signup_role :: string
  e_project_name :: "string option"
  e_project_reason :: "string option"
  e_created_at :: int
  e_expires_at :: int
  e_verified :: bool
  e_attempts :: int

record faq_question =
  f_id :: int
  f_user_id :: int
  f_question :: string
  f_answer :: "string option"
  f_answered_at :: "int option"
  f_created_at :: int

record vm_request =
  q_tier :: vm_tier
  q_os :: vm_os
  q_node_name :: "string option"
  q_name :: "string option"
  q_purpose :: string
  q_cores :: "int option"
  q_memory :: "int option"
  q_disk :: "int option"

record vm_result =
  v_message :: string
  v_assigned_node :: string
  v_vmid :: int
  v_name :: string
  v_tier :: vm_tier
  v_internal_ip :: string
  v_ssh_user :: string
  v_ssh_password :: string

record vm_job =
  j_id :: string
  j_user_id :: int
  j_status :: job_status
  j_node_name :: "string option"
  j_requested_name :: "string option"
  j_payload :: vm_request
  j_queued_at :: int
  j_started_at :: "int option"
  j_finished_at :: "int option"
  j_vmid :: "int option"
  j_attempts :: int
  j_result :: "vm_result option"
  j_message :: "string option"
  j_error_message :: "string option"

text \<open>The order in which jobs are served: by \<open>queued_at\<close>, then by \<open>id\<close>.\<close>

datatype job_key = Job_Key (key_time: int) (key_id: string)

instantiation job_key :: linorder
begin

definition less_eq_job_key :: "job_key \<Rightarrow> job_key \<Rightarrow> bool" where
  "less_eq_job_key a b \<longleftrightarrow>
     key_time a < key_time b \<or> (key_time a = key_time b \<and> key_id a \<le> key_id b)"

definition less_job_key :: "job_key \<Rightarrow> job_key \<Rightarrow> bool" where
  "less_job_key a b \<longleftrightarrow>
     key_time a < key_time b \<or> (key_time a = key_time b \<and> key_id a < key_id b)"

instance
  by standard (auto simp: less_eq_job_key_def less_job_key_def intro: job_key.expand)

end

section \<open>The database\<close>

text \<open>\<open>next_id\<close> is the identity the database gives to the next inserted row.\<close>

record database =
  users :: "user list"
  servers :: "server list"
  vms :: "vm list"
  vm_ports :: "vm_port list"
  https_routes :: "https_route list"
  notifications :: "notification list"
  jobs :: "vm_job list"
  verifications :: "email_verification list"
  faqs :: "faq_question list"
  next_id :: int

text \<open>The constraints of the models (unique columns, and the column that is not nullable though its property
  can be set to null): a commit that breaks one raises \<open>IntegrityError\<close>.\<close>

definition constraints_ok :: "database \<Rightarrow> bool" where
  "constraints_ok d \<longleftrightarrow>
     distinct (map (\<lambda>u. (u_email u, u_role u)) (users d)) \<and>
     distinct (map srv_name (servers d)) \<and>
     list_all (\<lambda>r. srv_api_password r \<noteq> None) (servers d) \<and>
     distinct (map p_external_port (vm_ports d)) \<and>
     distinct (map r_subdomain (https_routes d)) \<and>
     distinct (map j_id (jobs d))"

text \<open>Primary keys: rows of a table have different ids, all below \<open>next_id\<close>.\<close>

definition ids_ok :: "database \<Rightarrow> bool" where
  "ids_ok d \<longleftrightarrow>
     distinct (map u_id (users d)) \<and> (\<forall>u \<in> set (users d). u_id u < next_id d) \<and>
     distinct (map srv_id (servers d)) \<and> (\<forall>r \<in> set (servers d). srv_id r < next_id d) \<and>
     distinct (map vm_id (vms d)) \<and> (\<forall>v \<in> set (vms d). vm_id v < next_id d) \<and>
     distinct (map p_id (vm_ports d)) \<and> (\<forall>p \<in> set (vm_ports d). p_id p < next_id d) \<and>
     distinct (map r_id (https_routes d)) \<and> (\<forall>r \<in> set (https_routes d). r_id r < next_id d)"

text \<open>\<open>db.add(row)\<close> followed by a flush: the row gets its id.\<close>

definition add_user :: "user \<Rightarrow> database \<Rightarrow> database" where
  "add_user u d = d\<lparr>users := users d @ [u\<lparr>u_id := next_id d\<rparr>], next_id := next_id d + 1\<rparr>"

definition add_vm :: "vm \<Rightarrow> database \<Rightarrow> database" where
  "add_vm v d = d\<lparr>vms := vms d @ [v\<lparr>vm_id := next_id d\<rparr>], next_id := next_id d + 1\<rparr>"

definition add_port :: "vm_port \<Rightarrow> database \<Rightarrow> database" where
  "add_port p d = d\<lparr>vm_ports := vm_ports d @ [p\<lparr>p_id := next_id d\<rparr>], next_id := next_id d + 1\<rparr>"

definition add_route_row :: "https_route \<Rightarrow> database \<Rightarrow> database" where
  "add_route_row r d =
     d\<lparr>https_routes := https_routes d @ [r\<lparr>r_id := next_id d\<rparr>], next_id := next_id d + 1\<rparr>"

definition add_verification :: "email_verification \<Rightarrow> database \<Rightarrow> database" where
  "add_verification v d =
     d\<lparr>verifications := verifications d @ [v\<lparr>e_id := next_id d\<rparr>], next_id := next_id d + 1\<rparr>"

definition add_faq :: "faq_question \<Rightarrow> database \<Rightarrow> database" where
  "add_faq q d = d\<lparr>faqs := faqs d @ [q\<lparr>f_id := next_id d\<rparr>], next_id := next_id d + 1\<rparr>"

text \<open>\<open>Notification(user_id, type, message)\<close> with its column defaults.\<close>

definition add_notification :: "int \<Rightarrow> string \<Rightarrow> string \<Rightarrow> int \<Rightarrow> database \<Rightarrow> database" where
  "add_notification uid ty msg now d =
     d\<lparr>notifications := notifications d @
         [\<lparr>n_id = next_id d, n_user_id = uid, n_type = ty, n_message = msg,
           n_is_read = False, n_created_at = now\<rparr>],
       next_id := next_id d + 1\<rparr>"

section \<open>Settings and constants\<close>

record node_settings =
  NODE_NAME :: string
  NODE_IP :: string
  NODE_PORT :: int
  NODE_USER :: string
  NODE_PASSWORD :: string
  NODE_SSH_PORT :: int
  NODE_BASE_PORT :: int
  NODE_CLONE_STORAGES :: string

record settings =
  ACCESS_TOKEN_EXPIRE_MINUTES :: int
  REFRESH_TOKEN_EXPIRE_MINUTES :: int
  MAX_VMS_PER_USER :: int
  TEMPLATE_VMID :: int
  TEMPLATE_VMID_WINDOWS :: int
  VM_DEFAULT_USER :: string
  VM_DEFAULT_USER_WINDOWS :: string
  VM_ROOT_PASSWORD :: string
  VERIFICATION_CODE_EXPIRE_MINUTES :: int
  DATAGSM_API_KEY :: string
  OAUTH_STORE_MODE :: string
  WEB_CONCURRENCY :: int
  PROJECT_NODE_NAME :: string
  DISCORD_DAILY_HOUR :: int
  INTERNAL_SUBNET :: string
  INTERNAL_IP_START :: int
  INTERNAL_IP_END :: int
  INTERNAL_GATEWAY :: string
  INTERNAL_NETMASK :: int
  INTERNAL_DNS :: string
  GATEWAY_PUBLIC_IP :: string
  GATEWAY_IP :: string
  GATEWAY_USER :: string
  GATEWAY_PASSWORD :: string
  CADDY_HTTPS_DOMAIN_SUFFIX :: string
  MAX_HTTPS_ROUTES_PER_VM :: int
  NODE_SSH_USER :: string
  NODE_SSH_PASSWORD :: string
  FRONTEND_URL :: string
  DATAGSM_CLIENT_ID :: string
  DATAGSM_CLIENT_SECRET :: string
  DATAGSM_OAUTH_URL :: string
  DATAGSM_USERINFO_URL :: string
  OAUTH_REDIRECT_URI :: string
  DISCORD_WEBHOOK_URL :: string
  SERVERLESS_SERVICE_URL :: string
  NODES :: "node_settings list"

definition default_settings :: settings where
  "default_settings = \<lparr>
     ACCESS_TOKEN_EXPIRE_MINUTES = 30, REFRESH_TOKEN_EXPIRE_MINUTES = 60 * 24 * 7,
     MAX_VMS_PER_USER = 2, TEMPLATE_VMID = 1000, TEMPLATE_VMID_WINDOWS = 1001,
     VM_DEFAULT_USER = ''ubuntu'', VM_DEFAULT_USER_WINDOWS = ''Administrator'',
     VM_ROOT_PASSWORD = '''', VERIFICATION_CODE_EXPIRE_MINUTES = 10,
     DATAGSM_API_KEY = '''', OAUTH_STORE_MODE = ''memory'', WEB_CONCURRENCY = 1,
     PROJECT_NODE_NAME = ''gsmgpu3'', DISCORD_DAILY_HOUR = 9,
     INTERNAL_SUBNET = ''10.0.0'', INTERNAL_IP_START = 100, INTERNAL_IP_END = 254,
     INTERNAL_GATEWAY = ''10.0.0.1'', INTERNAL_NETMASK = 24, INTERNAL_DNS = ''8.8.8.8'',
     GATEWAY_PUBLIC_IP = '''', GATEWAY_IP = '''', GATEWAY_USER = '''', GATEWAY_PASSWORD = '''',
     CADDY_HTTPS_DOMAIN_SUFFIX = ''https.gsmsv.site'', MAX_HTTPS_ROUTES_PER_VM = 2,
     NODE_SSH_USER = '''', NODE_SSH_PASSWORD = '''',
     FRONTEND_URL = ''http://localhost:3000'', DATAGSM_CLIENT_ID = '''', DATAGSM_CLIENT_SECRET = '''',
     DATAGSM_OAUTH_URL = ''https://oauth.data.hellogsm.kr'',
     DATAGSM_USERINFO_URL = ''https://oauth-userinfo.data.hellogsm.kr'',
     OAUTH_REDIRECT_URI = ''http://localhost:3000/api/v1/oauth/callback'', DISCORD_WEBHOOK_URL = '''',
     SERVERLESS_SERVICE_URL = ''http://serverless:3001'',
     NODES = [
       \<lparr>NODE_NAME = '''', NODE_IP = '''', NODE_PORT = 8006, NODE_USER = ''root@pam'',
         NODE_PASSWORD = '''', NODE_SSH_PORT = 22, NODE_BASE_PORT = 21000, NODE_CLONE_STORAGES = ''''\<rparr>,
       \<lparr>NODE_NAME = '''', NODE_IP = '''', NODE_PORT = 8007, NODE_USER = ''root@pam'',
         NODE_PASSWORD = '''', NODE_SSH_PORT = 22, NODE_BASE_PORT = 22000, NODE_CLONE_STORAGES = ''''\<rparr>,
       \<lparr>NODE_NAME = '''', NODE_IP = '''', NODE_PORT = 8008, NODE_USER = ''root@pam'',
         NODE_PASSWORD = '''', NODE_SSH_PORT = 22, NODE_BASE_PORT = 23000, NODE_CLONE_STORAGES = ''''\<rparr>]\<rparr>"

record specs =
  sp_memory :: int
  sp_cores :: int
  sp_disk :: int

definition TIER_SPECS :: "(vm_tier \<times> specs) list" where
  "TIER_SPECS =
     [(BASIC, \<lparr>sp_memory = 2048, sp_cores = 1, sp_disk = 20\<rparr>),
      (STANDARD, \<lparr>sp_memory = 4096, sp_cores = 2, sp_disk = 20\<rparr>),
      (PROJECT_CUSTOM, \<lparr>sp_memory = 16384, sp_cores = 4, sp_disk = 40\<rparr>)]"

fun tier_value :: "vm_tier \<Rightarrow> string" where
  "tier_value BASIC = ''basic''"
| "tier_value STANDARD = ''standard''"
| "tier_value PROJECT_CUSTOM = ''project_custom''"

definition AUTO_SNAP_PREFIX :: string where
  "AUTO_SNAP_PREFIX = ''auto-daily''"

text \<open>Time units, in microseconds.\<close>

definition second :: int where "second = 1000000"
definition minute :: int where "minute = 60 * second"
definition hour :: int where "hour = 60 * minute"
definition day :: int where "day = 24 * hour"

lemmas time_defs = second_def minute_def hour_def day_def

lemma time_pos [simp]: "0 < second" "0 < minute" "0 < hour" "0 < day"
  by (simp_all add: time_defs)

section \<open>Facts about tables\<close>

lemma TIER_SPECS_total: "\<exists>sp. map_of TIER_SPECS t = Some sp"
  by (cases t) (simp_all add: TIER_SPECS_def)

lemmas add_defs = add_user_def add_vm_def add_port_def add_route_row_def add_verification_def
  add_faq_def add_notification_def

text \<open>
  What looking a row up, changing it and deleting it by primary key mean, for any table. The contract
  is stated over the key selector; each table of the database interprets it with its own.
\<close>

locale keyed_table =
  fixes key :: "'r \<Rightarrow> int"
    and rekey :: "int \<Rightarrow> 'r \<Rightarrow> 'r"
  assumes key_rekey: "key (rekey i r) = i"
begin

lemma lookup_unique:
  "distinct (map key rows) \<Longrightarrow> r \<in> set rows \<Longrightarrow> find (\<lambda>x. key x = key r) rows = Some r"
  by (rule find_distinct)

lemma insert_fresh:
  assumes "distinct (map key rows)" and "\<forall>r \<in> set rows. key r < n"
  shows "distinct (map key (rows @ [rekey n r]))"
  using assms by (auto simp: key_rekey)

lemma insert_bound:
  assumes "\<forall>r \<in> set rows. key r < n"
  shows "\<forall>x \<in> set (rows @ [rekey n r]). key x < n + 1"
  using assms by (auto simp: key_rekey intro: less_trans)

lemma insert_lookup:
  assumes "\<forall>r \<in> set rows. key r < n"
  shows "find (\<lambda>x. key x = n) (rows @ [rekey n r]) = Some (rekey n r)"
  using assms by (induction rows) (auto simp: key_rekey)

lemma insert_delete:
  assumes "\<forall>r \<in> set rows. key r < n"
  shows "delete_rows (\<lambda>x. key x = n) (rows @ [rekey n r]) = rows"
  using assms by (auto simp: delete_rows_def key_rekey intro!: filter_id_conv[THEN iffD2])

lemma update_lookup:
  assumes "distinct (map key rows)" and "r \<in> set rows" and "\<And>x. key (f x) = key x"
  shows "find (\<lambda>x. key x = key r) (update_rows (\<lambda>x. key x = key r) f rows) = Some (f r)"
proof -
  let ?rows = "update_rows (\<lambda>x. key x = key r) f rows"
  have "map key ?rows = map key rows" by (rule map_update_rows) (rule assms(3))
  then have "distinct (map key ?rows)" using assms(1) by simp
  moreover have "f r \<in> set ?rows" using assms(2) by (auto simp: set_update_rows)
  ultimately show ?thesis using find_distinct[of key ?rows "f r"] by (simp add: assms(3))
qed

lemma update_others:
  assumes "\<And>x. key (f x) = key x" and "q \<in> set (update_rows (\<lambda>x. key x = k) f rows)" and "key q \<noteq> k"
  shows "q \<in> set rows"
  using assms by (auto simp: set_update_rows split: if_splits)

end

interpretation user_table: keyed_table u_id "\<lambda>i u. u\<lparr>u_id := i\<rparr>"
  by unfold_locales simp

interpretation vm_table: keyed_table vm_id "\<lambda>i v. v\<lparr>vm_id := i\<rparr>"
  by unfold_locales simp

interpretation port_table: keyed_table p_id "\<lambda>i p. p\<lparr>p_id := i\<rparr>"
  by unfold_locales simp

interpretation route_table: keyed_table r_id "\<lambda>i r. r\<lparr>r_id := i\<rparr>"
  by unfold_locales simp

interpretation verification_table: keyed_table e_id "\<lambda>i v. v\<lparr>e_id := i\<rparr>"
  by unfold_locales simp

interpretation faq_table: keyed_table f_id "\<lambda>i q. q\<lparr>f_id := i\<rparr>"
  by unfold_locales simp

end
