(* ===== verification/World.thy ===== *)
theory World
  imports Data
begin

text \<open>
  The state of a running backend process and what it can observe of the outside. Every service that is
  not part of the repository (Proxmox, the SSH gateway, Caddy, SMTP, DataGSM, the commit of a database
  transaction) is reached through \<open>ext\<close>, which asks the parameter \<open>answer\<close> of the environment for the
  reply. The reply may depend on all the calls made before, so nothing is assumed about a service but
  what a theorem states. The calls made are recorded in \<open>calls\<close>, in order.
\<close>

section \<open>Reading JSON values\<close>

text \<open>\<open>d.get(k, default)\<close>: only a dict has \<open>get\<close>; any other value raises \<open>AttributeError\<close>.\<close>

fun obj_get :: "json \<Rightarrow> string \<Rightarrow> json \<Rightarrow> exn + json" where
  "obj_get (JObj kvs) k dflt = Inr (case map_of kvs k of None \<Rightarrow> dflt | Some v \<Rightarrow> v)"
| "obj_get _ k dflt = Inl AttributeError"

text \<open>Python's truth value.\<close>

fun truthy :: "json \<Rightarrow> bool" where
  "truthy JNull = False"
| "truthy (JBool b) = b"
| "truthy (JInt i) = (i \<noteq> 0)"
| "truthy (JFloat r) = (r \<noteq> 0)"
| "truthy (JStr s) = (s \<noteq> [])"
| "truthy (JList xs) = (xs \<noteq> [])"
| "truthy (JObj kvs) = (kvs \<noteq> [])"

text \<open>\<open>x or y\<close>.\<close>

definition json_or :: "json \<Rightarrow> json \<Rightarrow> json" where
  "json_or x y = (if truthy x then x else y)"

text \<open>
  The number an arithmetic expression reads. Floats are modelled by the rational they denote: the
  rounding of floating-point arithmetic itself is not modelled.
\<close>

fun as_num :: "json \<Rightarrow> exn + rat" where
  "as_num (JInt i) = Inr (of_int i)"
| "as_num (JFloat r) = Inr r"
| "as_num (JBool b) = Inr (if b then 1 else 0)"
| "as_num _ = Inl TypeError"

text \<open>\<open>int(x)\<close> on a JSON value.\<close>

fun as_int :: "json \<Rightarrow> exn + int" where
  "as_int (JInt i) = Inr i"
| "as_int (JFloat r) = Inr (if 0 \<le> r then \<lfloor>r\<rfloor> else \<lceil>r\<rceil>)"
| "as_int (JBool b) = Inr (if b then 1 else 0)"
| "as_int (JStr s) = py_int s"
| "as_int _ = Inl TypeError"

text \<open>The elements a \<open>for\<close> loop visits.\<close>

fun as_list :: "json \<Rightarrow> exn + json list" where
  "as_list (JList xs) = Inr xs"
| "as_list (JObj kvs) = Inr (map (\<lambda>kv. JStr (fst kv)) kvs)"
| "as_list (JStr s) = Inr (map (\<lambda>c. JStr [c]) s)"
| "as_list _ = Inl TypeError"

text \<open>Equality with a string literal.\<close>

definition json_is :: "json \<Rightarrow> string \<Rightarrow> bool" where
  "json_is j s \<longleftrightarrow> j = JStr s"

definition opt_json :: "string option \<Rightarrow> json" where
  "opt_json v = (case v of None \<Rightarrow> JNull | Some s \<Rightarrow> JStr s)"

section \<open>Calls to the outside\<close>

datatype call =
    DbCommit
  | PveConnect int
  | PveNextId "int option"
  | PveQemuList string
  | PveNodeStatus string
  | PveStorageList string
  | PveVmStatus string int
  | PveVmConfig string int
  | PveConfigPut string int "(string \<times> json) list"
  | PveResizePut string int string string
  | PveClone string int "(string \<times> json) list"
  | PveTaskStatus string json
  | PveVmDelete string int bool
  | PvePower string int vm_action
  | PveSnapshotList string int
  | PveSnapshotPost string int string string
  | PveSnapshotRollback string int string
  | PveSnapshotDelete string int string
  | PveAgentExec string int
  | PveAgentExecStatus string int json
  | PveFirewallPost string int "(string \<times> json) list"
  | PveFirewallDelete string int int
  | PveFirewallEnable string int
  | SshConnect string string
  | SshExec string string
  | SshRead string string
  | SftpWrite string string string
  | FileWrite string string
  | CaddyGetRoutes
  | CaddyPatchRoutes "json list"
  | CaddyDeleteId string
  | MailSend string string
  | GsmStudents string
  | GsmProjects int
  | PveRrd string int string
  | PveFirewallList string int
  | FileDelete string
  | DiscordPost string
  | OauthToken string string
  | OauthUserinfo json
  | Upstream string string "(string \<times> string) list" string "(string \<times> string) list"

section \<open>Environment and state\<close>

text \<open>
  \<open>answer\<close> is the reply of the outside to a call, given the calls made before; \<open>latency\<close> is the time the
  call takes; \<open>entropy\<close> is the random source behind \<open>secrets\<close> and \<open>random\<close>.
\<close>

record env =
  conf :: settings
  answer :: "call list \<Rightarrow> call \<Rightarrow> exn + json"
  latency :: "call list \<Rightarrow> nat"
  entropy :: "nat \<Rightarrow> nat"

record sys =
  db :: database
  calls :: "call list"
  clk :: int
  rng :: nat
  conn_cache :: "(int \<times> int) list"

definition ext :: "env \<Rightarrow> call \<Rightarrow> (sys, json) prog" where
  "ext e c = (\<lambda>s. (answer e (calls s) c,
                    s\<lparr>calls := calls s @ [c], clk := clk s + int (latency e (calls s))\<rparr>))"

text \<open>
  \<open>db.commit()\<close> of a transaction that leads to the tables \<open>d\<close>: a broken uniqueness constraint raises
  \<open>IntegrityError\<close>, and the database may refuse for a reason of its own. Without a commit the tables
  stay as they were, which is what \<open>db.rollback()\<close> and closing the session do.
\<close>

definition commit :: "env \<Rightarrow> database \<Rightarrow> (sys, unit) prog" where
  "commit e d =
     (if constraints_ok d then seq (ext e DbCommit) (\<lambda>_. modify (\<lambda>s. s\<lparr>db := d\<rparr>))
      else raise IntegrityError)"

definition now :: "(sys, int) prog" where
  "now = gets clk"

definition sleep :: "int \<Rightarrow> (sys, unit) prog" where
  "sleep d = modify (\<lambda>s. s\<lparr>clk := clk s + d\<rparr>)"

text \<open>One draw of the random source, reduced to the range \<open>0..<n\<close>; a choice among the elements of a list.\<close>

definition draw :: "env \<Rightarrow> nat \<Rightarrow> (sys, nat) prog" where
  "draw e n = (\<lambda>s. (Inr (entropy e (rng s) mod n), s\<lparr>rng := rng s + 1\<rparr>))"

definition choice :: "env \<Rightarrow> 'a list \<Rightarrow> (sys, 'a) prog" where
  "choice e xs = seq (draw e (length xs)) (\<lambda>i. ret (xs ! i))"

lemma effects_code [code]:
  "ext e c s = (answer e (calls s) c, s\<lparr>calls := calls s @ [c], clk := clk s + int (latency e (calls s))\<rparr>)"
  "commit e d s = (if constraints_ok d then seq (ext e DbCommit) (\<lambda>_. modify (\<lambda>s. s\<lparr>db := d\<rparr>)) s
     else (Inl IntegrityError, s))"
  "draw e n s = (Inr (entropy e (rng s) mod n), s\<lparr>rng := rng s + 1\<rparr>)"
  "sleep t s = (Inr (), s\<lparr>clk := clk s + t\<rparr>)"
  "now s = (Inr (clk s), s)"
  by (simp_all add: ext_def commit_def draw_def sleep_def now_def prog_defs)

section \<open>Rounding\<close>

definition round_half_even :: "rat \<Rightarrow> int" where
  "round_half_even r =
     (let f = \<lfloor>r\<rfloor>; d = r - of_int f
      in if d < 1/2 then f else if 1/2 < d then f + 1 else if even f then f else f + 1)"

text \<open>\<open>round(x, 1)\<close>.\<close>

definition round1 :: "rat \<Rightarrow> rat" where
  "round1 r = of_int (round_half_even (r * 10)) / 10"

section \<open>Rules\<close>

text \<open>The state after a call: the call is recorded and its time has passed.\<close>

definition called :: "env \<Rightarrow> call \<Rightarrow> sys \<Rightarrow> sys" where
  "called e c s = s\<lparr>calls := calls s @ [c], clk := clk s + int (latency e (calls s))\<rparr>"

lemma called_simps [simp]:
  "db (called e c s) = db s" "calls (called e c s) = calls s @ [c]"
  "conn_cache (called e c s) = conn_cache s" "rng (called e c s) = rng s"
  "clk s \<le> clk (called e c s)"
  by (simp_all add: called_def)

lemma ext_eq: "ext e c s = (answer e (calls s) c, called e c s)"
  by (simp add: ext_def called_def)

lemma wp_ext [wp_simps]:
  "wp (ext e c) Q E = (\<lambda>s. ((\<forall>x. answer e (calls s) c = Inl x \<longrightarrow> E x (called e c s)) \<and>
      (\<forall>j. answer e (calls s) c = Inr j \<longrightarrow> Q j (called e c s))))"
  by (rule HOL.ext, auto simp: wp_def ext_eq split: sum.splits)

lemma wp_commit [wp_simps]:
  "wp (commit e d) Q E = (\<lambda>s. ((\<not> constraints_ok d \<longrightarrow> E IntegrityError s) \<and>
      (\<forall>x. constraints_ok d \<longrightarrow> answer e (calls s) DbCommit = Inl x \<longrightarrow> E x (called e DbCommit s)) \<and>
      (\<forall>j. constraints_ok d \<longrightarrow> answer e (calls s) DbCommit = Inr j \<longrightarrow>
         Q () ((called e DbCommit s)\<lparr>db := d\<rparr>))))"
  by (rule HOL.ext, auto simp: commit_def wp_simps)

lemma wp_now [wp_simps]: "wp now Q E = (\<lambda>s. Q (clk s) s)"
  by (rule HOL.ext, simp add: now_def wp_simps)

lemma wp_sleep [wp_simps]: "wp (sleep d) Q E = (\<lambda>s. Q () (s\<lparr>clk := clk s + d\<rparr>))"
  by (rule HOL.ext, simp add: sleep_def wp_simps)

lemma wp_draw [wp_simps]:
  "wp (draw e n) Q E = (\<lambda>s. Q (entropy e (rng s) mod n) (s\<lparr>rng := rng s + 1\<rparr>))"
  by (rule HOL.ext, simp add: draw_def wp_def)

lemma wp_choice [wp_simps]:
  "wp (choice e xs) Q E = (\<lambda>s. Q (xs ! (entropy e (rng s) mod length xs)) (s\<lparr>rng := rng s + 1\<rparr>))"
  by (rule HOL.ext, simp add: choice_def wp_simps)

lemma keeps_db_basic [keeps_intros]:
  "keeps db (ext e c)" "keeps db now" "keeps db (sleep d)" "keeps db (draw e n)" "keeps db (choice e xs)"
  by (auto simp: keeps_def ext_def now_def gets_def sleep_def modify_def draw_def choice_def seq_def ret_def)

lemma keeps_calls_basic [keeps_intros]:
  "keeps calls now" "keeps calls (sleep d)" "keeps calls (draw e n)" "keeps calls (choice e xs)"
  by (auto simp: keeps_def now_def gets_def sleep_def modify_def draw_def choice_def seq_def ret_def)

lemma keeps_cache_basic [keeps_intros]:
  "keeps conn_cache (ext e c)" "keeps conn_cache now" "keeps conn_cache (sleep d)"
  "keeps conn_cache (draw e n)" "keeps conn_cache (choice e xs)" "keeps conn_cache (commit e d')"
  by (auto simp: keeps_def ext_def now_def gets_def sleep_def modify_def draw_def choice_def commit_def
      seq_def ret_def raise_def split: sum.splits)

lemma draw_less: "draw e n s = (Inr i, s') \<Longrightarrow> 0 < n \<Longrightarrow> i < n"
  by (auto simp: draw_def)

lemma choice_mem: "choice e xs s = (Inr x, s') \<Longrightarrow> xs \<noteq> [] \<Longrightarrow> x \<in> set xs"
  by (auto simp: choice_def seq_def draw_def ret_def)

text \<open>
  \<open>logs A m\<close>: the calls that \<open>m\<close> makes all lie in \<open>A\<close>, whatever happens. It is how theorems say that a
  program does not touch a service, or touches it only in stated ways.
\<close>

definition logs :: "call set \<Rightarrow> (sys, 'a) prog \<Rightarrow> bool" where
  "logs A m \<longleftrightarrow> (\<forall>s. \<exists>xs. calls (snd (m s)) = calls s @ xs \<and> set xs \<subseteq> A)"

lemma logs_mono: "logs A m \<Longrightarrow> A \<subseteq> B \<Longrightarrow> logs B m"
  by (fastforce simp: logs_def)

lemma logsD: "logs A m \<Longrightarrow> m s = (r, s') \<Longrightarrow> \<exists>xs. calls s' = calls s @ xs \<and> set xs \<subseteq> A"
  by (metis logs_def snd_conv)

lemma logs_ext [logs_intros]: "c \<in> A \<Longrightarrow> logs A (ext e c)"
  by (auto simp: logs_def ext_def)

lemma logs_keeps: "keeps calls m \<Longrightarrow> logs A m"
  by (auto simp: logs_def keeps_def)

lemma logs_basic [logs_intros]:
  "logs A (ret x)" "logs A (raise ex)" "logs A (gets g)" "logs A (lift r)" "logs A (raise_if b ex)"
  "logs A now" "logs A (sleep d)" "logs A (draw e n)" "logs A (choice e xs)"
  by (rule logs_keeps, auto intro: keeps_intros)+

lemma logs_modify: "(\<And>s. calls (g s) = calls s) \<Longrightarrow> logs A (modify g)"
  by (rule logs_keeps) (rule keeps_modify)

lemma logs_seq [logs_intros]:
  assumes "logs A m" and "\<And>x. logs A (k x)"
  shows "logs A (seq m k)"
  unfolding logs_def
proof
  fix s
  obtain r t where m: "m s = (r, t)" by fastforce
  from logsD[OF assms(1) m] obtain xs where xs: "calls t = calls s @ xs" "set xs \<subseteq> A" by auto
  show "\<exists>xs. calls (snd (seq m k s)) = calls s @ xs \<and> set xs \<subseteq> A"
  proof (cases r)
    case (Inl e)
    then show ?thesis using m xs by (auto simp: seq_def)
  next
    case (Inr x)
    obtain r' u where k: "k x t = (r', u)" by fastforce
    from logsD[OF assms(2) k] obtain ys where "calls u = calls t @ ys" "set ys \<subseteq> A" by auto
    then show ?thesis using m xs k Inr by (auto simp: seq_def intro!: exI[of _ "xs @ ys"])
  qed
qed

lemma logs_catch [logs_intros]:
  assumes "logs A m" and "\<And>x. logs A (h x)"
  shows "logs A (catch m h)"
  unfolding logs_def
proof
  fix s
  obtain r t where m: "m s = (r, t)" by fastforce
  from logsD[OF assms(1) m] obtain xs where xs: "calls t = calls s @ xs" "set xs \<subseteq> A" by auto
  show "\<exists>xs. calls (snd (catch m h s)) = calls s @ xs \<and> set xs \<subseteq> A"
  proof (cases r)
    case (Inr e)
    then show ?thesis using m xs by (auto simp: catch_def)
  next
    case (Inl x)
    obtain r' u where k: "h x t = (r', u)" by fastforce
    from logsD[OF assms(2) k] obtain ys where "calls u = calls t @ ys" "set ys \<subseteq> A" by auto
    then show ?thesis using m xs k Inl by (auto simp: catch_def intro!: exI[of _ "xs @ ys"])
  qed
qed

lemma logs_commit [logs_intros]: "DbCommit \<in> A \<Longrightarrow> logs A (commit e d)"
  by (auto simp: commit_def intro!: logs_intros logs_modify)

lemma logs_cases [logs_intros]:
  "(b \<Longrightarrow> logs A m) \<Longrightarrow> (\<not> b \<Longrightarrow> logs A n) \<Longrightarrow> logs A (if b then m else n)"
  "logs A m \<Longrightarrow> (\<And>x. logs A (k x)) \<Longrightarrow> logs A (case ov of None \<Rightarrow> m | Some x \<Rightarrow> k x)"
  "(\<And>x. logs A (l x)) \<Longrightarrow> (\<And>x. logs A (k' x)) \<Longrightarrow> logs A (case sv of Inl x \<Rightarrow> l x | Inr x \<Rightarrow> k' x)"
  "(\<And>x y. logs A (p x y)) \<Longrightarrow> logs A (case pv of (x, y) \<Rightarrow> p x y)"
  "logs A m \<Longrightarrow> (\<And>x xs. logs A (q x xs)) \<Longrightarrow> logs A (case lv of [] \<Rightarrow> m | x # xs \<Rightarrow> q x xs)"
  "(\<And>x. logs A (w x)) \<Longrightarrow> logs A (let x = v in w x)"
  by (auto split: option.splits sum.splits prod.splits list.splits)

lemma logs_for_each [logs_intros]: "(\<And>x. logs A (f x)) \<Longrightarrow> logs A (for_each xs f)"
  by (induction xs) (auto intro: logs_intros)

lemma logs_map_each [logs_intros]: "(\<And>x. logs A (f x)) \<Longrightarrow> logs A (map_each xs f)"
  by (induction xs) (auto intro!: logs_intros)

text \<open>A program that only ever commits tables satisfying \<open>P\<close> keeps \<open>P\<close>; see \<open>db_inv\<close>.\<close>

definition db_inv :: "(database \<Rightarrow> bool) \<Rightarrow> (sys, 'a) prog \<Rightarrow> bool" where
  "db_inv P m \<longleftrightarrow> (\<forall>s. P (db s) \<longrightarrow> P (db (snd (m s))))"

lemma db_inv_keeps: "keeps db m \<Longrightarrow> db_inv P m"
  by (simp add: db_inv_def keeps_def)

lemma db_inv_wp: "db_inv P m \<longleftrightarrow> (\<forall>s. P (db s) \<longrightarrow> wp m (\<lambda>_ s. P (db s)) (\<lambda>_ s. P (db s)) s)"
proof
  assume "db_inv P m"
  then show "\<forall>s. P (db s) \<longrightarrow> wp m (\<lambda>_ s. P (db s)) (\<lambda>_ s. P (db s)) s"
    by (auto simp: db_inv_def intro!: wp_runI)
next
  assume "\<forall>s. P (db s) \<longrightarrow> wp m (\<lambda>_ s. P (db s)) (\<lambda>_ s. P (db s)) s"
  then show "db_inv P m"
    unfolding db_inv_def by (auto intro: wp_final[where I = "\<lambda>s. P (db s)"])
qed

lemma db_inv_basic [inv_intros]:
  "db_inv P (ret x)" "db_inv P (raise ex)" "db_inv P (gets g)" "db_inv P (lift r)" "db_inv P (raise_if b ex)"
  "db_inv P now" "db_inv P (sleep t)" "db_inv P (draw e n)" "db_inv P (choice e xs)" "db_inv P (ext e c)"
  by (rule db_inv_keeps, auto intro: keeps_intros)+

lemma db_inv_commit [inv_intros]: "(constraints_ok d \<Longrightarrow> P d) \<Longrightarrow> db_inv P (commit e d)"
  by (auto simp: db_inv_wp wp_simps)

lemma db_inv_seq [inv_intros]: "db_inv P m \<Longrightarrow> (\<And>x. db_inv P (k x)) \<Longrightarrow> db_inv P (seq m k)"
  by (auto simp: db_inv_def seq_def split: prod.splits sum.splits)

lemma db_inv_read: "(\<And>d. P d \<Longrightarrow> db_inv P (k d)) \<Longrightarrow> db_inv P (seq (gets db) k)"
  by (auto simp: db_inv_def seq_def gets_def)

lemma db_inv_catch [inv_intros]: "db_inv P m \<Longrightarrow> (\<And>x. db_inv P (h x)) \<Longrightarrow> db_inv P (catch m h)"
  by (auto simp: db_inv_def catch_def split: prod.splits sum.splits)

lemma db_inv_cases [inv_intros]:
  "(b \<Longrightarrow> db_inv P m) \<Longrightarrow> (\<not> b \<Longrightarrow> db_inv P n) \<Longrightarrow> db_inv P (if b then m else n)"
  "(ov = None \<Longrightarrow> db_inv P m) \<Longrightarrow> (\<And>x. ov = Some x \<Longrightarrow> db_inv P (k x)) \<Longrightarrow> db_inv P (case ov of None \<Rightarrow> m | Some x \<Rightarrow> k x)"
  "(\<And>x. db_inv P (l x)) \<Longrightarrow> (\<And>x. db_inv P (k' x)) \<Longrightarrow> db_inv P (case sv of Inl x \<Rightarrow> l x | Inr x \<Rightarrow> k' x)"
  "(\<And>x y. db_inv P (p x y)) \<Longrightarrow> db_inv P (case pv of (x, y) \<Rightarrow> p x y)"
  "db_inv P m \<Longrightarrow> (\<And>x xs. db_inv P (q x xs)) \<Longrightarrow> db_inv P (case lv of [] \<Rightarrow> m | x # xs \<Rightarrow> q x xs)"
  "(\<And>x. db_inv P (w x)) \<Longrightarrow> db_inv P (let x = v in w x)"
  by (auto split: option.splits sum.splits prod.splits list.splits)

lemma db_inv_for_each [inv_intros]: "(\<And>x. db_inv P (f x)) \<Longrightarrow> db_inv P (for_each xs f)"
  by (induction xs) (auto intro: inv_intros)

lemma commit_constraints: "commit e d s = (Inr u, s') \<Longrightarrow> constraints_ok (db s') \<and> db s' = d"
  by (auto simp: commit_def ext_def seq_def modify_def raise_def split: if_splits sum.splits)

lemma commit_failed: "commit e d s = (Inl x, s') \<Longrightarrow> db s' = db s"
  by (auto simp: commit_def ext_def seq_def modify_def raise_def split: if_splits sum.splits)

text \<open>Case distinctions on the shape of a reply.\<close>

lemma wp_json_list [wp_simps]:
  "wp (case j of JList xs \<Rightarrow> k xs | _ \<Rightarrow> m) Q E =
     (\<lambda>s. ((\<forall>xs. j = JList xs \<longrightarrow> wp (k xs) Q E s) \<and> ((\<forall>xs. j \<noteq> JList xs) \<longrightarrow> wp m Q E s)))"
  by (rule HOL.ext, cases j) auto

lemma wp_json_str [wp_simps]:
  "wp (case j of JStr xs \<Rightarrow> k xs | _ \<Rightarrow> m) Q E =
     (\<lambda>s. ((\<forall>xs. j = JStr xs \<longrightarrow> wp (k xs) Q E s) \<and> ((\<forall>xs. j \<noteq> JStr xs) \<longrightarrow> wp m Q E s)))"
  by (rule HOL.ext, cases j) auto

lemma keeps_json_shape [keeps_intros]:
  "(\<And>xs. keeps f (k xs)) \<Longrightarrow> keeps f m \<Longrightarrow> keeps f (case j of JList xs \<Rightarrow> k xs | _ \<Rightarrow> m)"
  "(\<And>x. keeps f (l x)) \<Longrightarrow> keeps f m \<Longrightarrow> keeps f (case j of JStr x \<Rightarrow> l x | _ \<Rightarrow> m)"
  by (cases j; simp)+

lemma logs_json_shape [logs_intros]:
  "(\<And>xs. logs A (k xs)) \<Longrightarrow> logs A m \<Longrightarrow> logs A (case j of JList xs \<Rightarrow> k xs | _ \<Rightarrow> m)"
  "(\<And>x. logs A (l x)) \<Longrightarrow> logs A m \<Longrightarrow> logs A (case j of JStr x \<Rightarrow> l x | _ \<Rightarrow> m)"
  by (cases j; simp)+

section \<open>Handlers that raise leave the database alone\<close>

text \<open>
  \<open>undoes m\<close>: when \<open>m\<close> raises, the tables are what they were before it. It holds of every handler that
  commits once, at the end: an exception before the commit abandons the session.
\<close>

definition undoes :: "(sys, 'a) prog \<Rightarrow> bool" where
  "undoes m \<longleftrightarrow> (\<forall>s x s'. m s = (Inl x, s') \<longrightarrow> db s' = db s)"



lemma undoesD: "undoes m \<Longrightarrow> m s = (Inl x, s') \<Longrightarrow> db s' = db s"
  by (simp add: undoes_def)

lemma undoes_keeps: "keeps db m \<Longrightarrow> undoes m"
  by (auto simp: undoes_def dest: keepsD)

lemma undoes_basic [undoes_intros]:
  "undoes (ret x)" "undoes (raise ex)" "undoes (gets g)" "undoes (lift r)" "undoes (raise_if b ex)"
  "undoes now" "undoes (sleep d)" "undoes (draw e n)" "undoes (ext e c)"
  by (rule undoes_keeps, auto intro: keeps_intros)+

lemma undoes_commit [undoes_intros]: "undoes (commit e d)"
  by (auto simp: undoes_def dest: commit_failed)

lemma undoes_seq [undoes_intros]:
  assumes "keeps db m" and "\<And>x. undoes (k x)"
  shows "undoes (seq m k)"
  unfolding undoes_def
proof (intro allI impI)
  fix s x s' assume run: "seq m k s = (Inl x, s')"
  obtain r t where m: "m s = (r, t)" by fastforce
  then have t: "db t = db s" by (rule keepsD[OF assms(1)])
  show "db s' = db s"
  proof (cases r)
    case (Inl y)
    then show ?thesis using run m t by (auto simp: seq_def)
  next
    case (Inr y)
    then have "k y t = (Inl x, s')" using run m by (simp add: seq_def)
    then show ?thesis using undoesD[OF assms(2)] t by auto
  qed
qed

lemma undoes_then_ret [undoes_intros]: "undoes m \<Longrightarrow> undoes (seq m (\<lambda>x. ret (f x)))"
  by (auto simp: undoes_def seq_def ret_def split: prod.splits sum.splits)

lemma undoes_catch_raise [undoes_intros]: "undoes m \<Longrightarrow> undoes (catch m (\<lambda>x. raise (f x)))"
  by (auto simp: undoes_def catch_def raise_def split: prod.splits sum.splits)

lemma undoes_cases [undoes_intros]:
  "(b \<Longrightarrow> undoes m) \<Longrightarrow> (\<not> b \<Longrightarrow> undoes n) \<Longrightarrow> undoes (if b then m else n)"
  "undoes m \<Longrightarrow> (\<And>x. undoes (k x)) \<Longrightarrow> undoes (case ov of None \<Rightarrow> m | Some x \<Rightarrow> k x)"
  "(\<And>x. undoes (l x)) \<Longrightarrow> (\<And>x. undoes (k' x)) \<Longrightarrow> undoes (case sv of Inl x \<Rightarrow> l x | Inr x \<Rightarrow> k' x)"
  "(\<And>x y. undoes (p x y)) \<Longrightarrow> undoes (case pv of (x, y) \<Rightarrow> p x y)"
  "undoes m \<Longrightarrow> (\<And>x xs. undoes (q x xs)) \<Longrightarrow> undoes (case lv of [] \<Rightarrow> m | x # xs \<Rightarrow> q x xs)"
  "(\<And>x. undoes (w x)) \<Longrightarrow> undoes (let x = v in w x)"
  by (auto split: option.splits sum.splits prod.splits list.splits)

end
