(* ===== verification/Sample.thy ===== *)
theory Sample
  imports World
begin

text \<open>
  Concrete rows, settings and environments, on which the witnesses of the other theories evaluate the
  program: an empty database, a server with a gateway, two users, a VM, and outsides that agree to
  everything or to nothing.
\<close>

definition empty_database :: database where
  "empty_database =
     \<lparr>users = [], servers = [], vms = [], vm_ports = [], https_routes = [], notifications = [],
      jobs = [], verifications = [], faqs = [], next_id = 1\<rparr>"

definition sample_server :: server where
  "sample_server =
     \<lparr>srv_id = 1, srv_name = ''node1'', srv_ip_address = ''10.0.0.2'', srv_port = 8006,
      srv_api_user = ''root@pam'', srv_api_password = Some ''pve'', srv_ssh_user = None,
      srv_ssh_password = None, srv_ssh_port = Some 22, srv_is_active = True,
      srv_gateway_ip = Some ''10.0.0.1'', srv_gateway_user = Some ''gw'',
      srv_gateway_password = None, srv_base_port = 21000, srv_last_free_ram_mb = 0\<rparr>"

definition sample_user :: "int \<Rightarrow> user_role \<Rightarrow> user" where
  "sample_user i role =
     \<lparr>u_id = i, u_email = ''s@gsm.hs.kr'', u_hashed_password = Some ''h'', u_role = role,
      u_is_active = True, u_oauth_provider = None, u_oauth_sub = None, u_name = None,
      u_grade = None, u_class_num = None, u_number = None, u_major = None, u_avatar_url = None,
      u_project_name = None, u_project_reason = None\<rparr>"

definition sample_vm :: "int \<Rightarrow> int option \<Rightarrow> vm" where
  "sample_vm i owner =
     \<lparr>vm_id = i, vm_vmid = 100 + i, vm_name = ''vm'', vm_display_name = None, vm_server_id = 1,
      vm_owner_id = owner, vm_ram_mb = 2048, vm_cores = 1, vm_internal_ip = Some ''10.0.0.100'',
      vm_password = None, vm_created_at = Some 0, vm_expires_at = Some (7 * day),
      vm_auto_snapshot = False, vm_purpose = None, vm_ready = True\<rparr>"

definition sample_settings :: settings where
  "sample_settings = default_settings
     \<lparr>GATEWAY_PUBLIC_IP := ''1.2.3.4'', GATEWAY_IP := ''10.0.0.1'', GATEWAY_USER := ''gw'',
      GATEWAY_PASSWORD := ''pw''\<rparr>"

definition sample_env :: "(call list \<Rightarrow> call \<Rightarrow> exn + json) \<Rightarrow> env" where
  "sample_env ans = \<lparr>conf = sample_settings, answer = ans, latency = (\<lambda>_. 0), entropy = (\<lambda>n. n)\<rparr>"

definition sample_state :: "database \<Rightarrow> sys" where
  "sample_state d = \<lparr>db = d, calls = [], clk = 0, rng = 0, conn_cache = []\<rparr>"

text \<open>Outsides: every call answers null; every call fails.\<close>

definition agreeing :: "call list \<Rightarrow> call \<Rightarrow> exn + json" where
  "agreeing hist c = Inr JNull"

definition refusing :: "call list \<Rightarrow> call \<Rightarrow> exn + json" where
  "refusing hist c = Inl OtherException"

lemmas sample_defs = empty_database_def sample_server_def sample_user_def sample_vm_def
  sample_settings_def default_settings_def sample_env_def sample_state_def agreeing_def refusing_def

end
