(* ===== verification/Monitor.thy ===== *)
theory Monitor
  imports World
begin

text \<open>
  \<open>services/proxmox_client.py\<close>: the translation of Proxmox errors to HTTP errors and the cached
  connection per server. \<open>services/mon_service.py\<close>: the resource usage of a node and the choice of the
  storage a new VM is cloned to.
\<close>

section \<open>Errors and connections (proxmox_client.py)\<close>

definition has_marker :: "string \<Rightarrow> string list \<Rightarrow> bool" where
  "has_marker content ms = list_ex (py_contains (py_lower content)) ms"

fun proxmox_http_exception :: "exn \<Rightarrow> string \<Rightarrow> exn" where
  "proxmox_http_exception (Http c d) dflt = Http c d"
| "proxmox_http_exception TimeoutError dflt = Http 503 ''proxmox-timeout''"
| "proxmox_http_exception ConnectionError dflt = Http 503 ''proxmox-unreachable''"
| "proxmox_http_exception (ResourceException c content) dflt =
     (if c = 401 then Http 401 ''proxmox-auth''
      else if c = 403 then Http 403 ''proxmox-forbidden''
      else if c = 400 then Http 400 ''proxmox-bad-request''
      else if c = 404 then Http 404 ''proxmox-not-found''
      else if c = 409 then Http 409 ''proxmox-busy''
      else if c = 429 then Http 429 ''proxmox-too-many''
      else if c = 507 \<or> has_marker content [''insufficient'', ''not enough'', ''no space'']
      then Http 507 ''proxmox-no-resources''
      else if 500 \<le> c then Http 502 ''proxmox-server-error''
      else Http 500 dflt)"
| "proxmox_http_exception _ dflt = Http 500 dflt"

lemma proxmox_http_exception_is_http [simp]: "is_http (proxmox_http_exception x dflt)"
  by (cases x) simp_all

definition CACHE_TTL :: int where
  "CACHE_TTL = 300 * second"

definition cache_hit :: "(int \<times> int) list \<Rightarrow> int \<Rightarrow> int \<Rightarrow> bool" where
  "cache_hit cache sid t = (case map_of cache sid of None \<Rightarrow> False | Some ex \<Rightarrow> t < ex)"

definition cache_put :: "int \<Rightarrow> int \<Rightarrow> (int \<times> int) list \<Rightarrow> (int \<times> int) list" where
  "cache_put sid ex cache = (sid, ex) # filter (\<lambda>kv. fst kv \<noteq> sid) cache"

definition get_proxmox_for_server :: "env \<Rightarrow> server \<Rightarrow> (sys, unit) prog" where
  "get_proxmox_for_server e srv =
     seq now (\<lambda>t.
     seq (gets conn_cache) (\<lambda>cache.
     if cache_hit cache (srv_id srv) t then ret ()
     else catch
       (seq (ext e (PveConnect (srv_id srv))) (\<lambda>_.
        modify (\<lambda>s. s\<lparr>conn_cache := cache_put (srv_id srv) (t + CACHE_TTL) (conn_cache s)\<rparr>)))
       (\<lambda>x. raise (proxmox_http_exception x ''connect-failed''))))"

lemma keeps_get_proxmox [keeps_intros]: "keeps db (get_proxmox_for_server e srv)"
  unfolding get_proxmox_for_server_def by (intro keeps_intros keeps_modify) simp

lemma logs_get_proxmox [logs_intros]:
  "PveConnect (srv_id srv) \<in> A \<Longrightarrow> logs A (get_proxmox_for_server e srv)"
  unfolding get_proxmox_for_server_def by (intro logs_intros logs_modify) auto

text \<open>A connection made now is reused, without a call, for the next five minutes.\<close>

lemma cache_put_hit: "cache_hit (cache_put sid (t + CACHE_TTL) cache) sid t' \<longleftrightarrow> t' < t + CACHE_TTL"
  by (simp add: cache_hit_def cache_put_def)

section \<open>Resource usage of a node (mon_service.py)\<close>

record usage =
  ram_pct :: rat
  cpu_pct :: rat
  disk_pct :: "rat option"
  free_ram_mb :: int

definition RESOURCE_USAGE_THRESHOLD_PCT :: rat where
  "RESOURCE_USAGE_THRESHOLD_PCT = 80"

text \<open>\<open>d.get(k) or 0\<close>, read as a number.\<close>

definition num_or_0 :: "json \<Rightarrow> string \<Rightarrow> exn + rat" where
  "num_or_0 d k = andthen (obj_get d k JNull) (\<lambda>v. as_num (json_or v (JInt 0)))"

definition pct :: "rat \<Rightarrow> rat \<Rightarrow> rat" where
  "pct used tot = round1 (used / tot * 100)"

definition memory_usage :: "json \<Rightarrow> exn + (rat \<times> rat \<times> int)" where
  "memory_usage node_status =
     andthen (obj_get node_status ''memory'' JNull) (\<lambda>m0.
     let memory = json_or m0 (JObj []) in
     andthen (num_or_0 memory ''total'') (\<lambda>total_mem.
     andthen (num_or_0 memory ''used'') (\<lambda>used_mem.
     andthen (num_or_0 node_status ''cpu'') (\<lambda>cpu.
     Inr (if total_mem \<noteq> 0 then pct used_mem total_mem else 0,
          round1 (cpu * 100),
          \<lfloor>(total_mem - used_mem) / (1024 * 1024)\<rfloor>)))))"

text \<open>
  The loop over the node's storages runs inside \<open>try\<close>: an exception ends it, and what has been added
  up so far counts.
\<close>

fun sum_lvmthin :: "rat \<times> rat \<Rightarrow> json list \<Rightarrow> rat \<times> rat" where
  "sum_lvmthin (used, tot) [] = (used, tot)"
| "sum_lvmthin (used, tot) (st # sts) =
     (case obj_get st ''type'' JNull of
        Inl _ \<Rightarrow> (used, tot)
      | Inr ty \<Rightarrow>
          if json_is ty ''lvmthin'' then
            (case num_or_0 st ''used'' of
               Inl _ \<Rightarrow> (used, tot)
             | Inr u \<Rightarrow> (case num_or_0 st ''total'' of
                 Inl _ \<Rightarrow> (used + u, tot)
               | Inr t \<Rightarrow> sum_lvmthin (used + u, tot + t) sts))
          else sum_lvmthin (used, tot) sts)"

definition get_server_resource_usage :: "env \<Rightarrow> server \<Rightarrow> (sys, usage) prog" where
  "get_server_resource_usage e srv =
     seq (get_proxmox_for_server e srv) (\<lambda>_.
     seq (ext e (PveNodeStatus (srv_name srv))) (\<lambda>node_status.
     seq (lift (memory_usage node_status)) (\<lambda>(ram, cpu, free).
     seq (catch
           (seq (ext e (PveStorageList (srv_name srv))) (\<lambda>j.
            seq (lift (as_list j)) (\<lambda>storages. ret (sum_lvmthin (0, 0) storages))))
           (\<lambda>_. ret (0, 0))) (\<lambda>(disk_used, disk_total).
     ret \<lparr>ram_pct = ram, cpu_pct = cpu,
          disk_pct = (if disk_total \<noteq> 0 then Some (pct disk_used disk_total) else None),
          free_ram_mb = free\<rparr>))))"

lemma keeps_usage [keeps_intros]: "keeps db (get_server_resource_usage e srv)"
  unfolding get_server_resource_usage_def by (auto intro!: keeps_intros)

lemma logs_usage [logs_intros]:
  assumes "PveConnect (srv_id srv) \<in> A" "PveNodeStatus (srv_name srv) \<in> A"
    "PveStorageList (srv_name srv) \<in> A"
  shows "logs A (get_server_resource_usage e srv)"
  unfolding get_server_resource_usage_def using assms by (auto intro!: logs_intros)

section \<open>The clone storage (mon_service.select_clone_storage)\<close>

text \<open>
  One candidate: \<open>Inr (Some avail)\<close> when it passes every check, \<open>Inr None\<close> when a check rejects it, an
  exception when a value is not of the type the check needs. The checks are in the code's order.
\<close>

definition content_list :: "json \<Rightarrow> exn + string list" where
  "content_list j = (case json_or j (JStr []) of JStr s \<Rightarrow> Inr (split_char (CHR '','') s) | _ \<Rightarrow> Inl AttributeError)"

definition check_storage :: "json \<Rightarrow> int \<Rightarrow> exn + rat option" where
  "check_storage st required_bytes =
     andthen (obj_get st ''total'' JNull) (\<lambda>total0.
     andthen (obj_get st ''used'' JNull) (\<lambda>used0.
     andthen (obj_get st ''avail'' JNull) (\<lambda>avail0.
     let total = json_or total0 (JInt 0); used = json_or used0 (JInt 0) in
     andthen (if avail0 = JNull
              then andthen (as_num total) (\<lambda>t. andthen (as_num used) (\<lambda>u. Inr (JFloat (t - u))))
              else Inr avail0) (\<lambda>avail.
     andthen (obj_get st ''active'' JNull) (\<lambda>active.
     if \<not> truthy active then Inr None else
     andthen (obj_get st ''enabled'' (JInt 1)) (\<lambda>enabled.
     if \<not> truthy enabled then Inr None else
     andthen (obj_get st ''content'' JNull) (\<lambda>content.
     andthen (content_list content) (\<lambda>kinds.
     if ''images'' \<notin> set kinds then Inr None else
     andthen (as_num total) (\<lambda>t.
     if t \<le> 0 then Inr None else
     andthen (as_num used) (\<lambda>u.
     if RESOURCE_USAGE_THRESHOLD_PCT \<le> u / t * 100 then Inr None else
     andthen (as_num avail) (\<lambda>a.
     if a < of_int required_bytes then Inr None else Inr (Some a))))))))))))"

text \<open>\<open>by_name = {st.get("storage"): st for st in storages if isinstance(st, dict)}\<close>: the last entry of a name counts.\<close>

fun is_obj :: "json \<Rightarrow> bool" where
  "is_obj (JObj _) = True"
| "is_obj _ = False"

definition storage_name :: "json \<Rightarrow> json" where
  "storage_name st = (case obj_get st ''storage'' JNull of Inl _ \<Rightarrow> JNull | Inr v \<Rightarrow> v)"

fun hashable :: "json \<Rightarrow> bool" where
  "hashable (JList _) = False"
| "hashable (JObj _) = False"
| "hashable _ = True"

definition by_name :: "json list \<Rightarrow> string \<Rightarrow> json option" where
  "by_name storages name = find (\<lambda>st. is_obj st \<and> json_is (storage_name st) name) (rev storages)"

fun pick_storage ::
  "(string \<Rightarrow> json option) \<Rightarrow> int \<Rightarrow> string list \<Rightarrow> (string \<times> rat) option \<Rightarrow> exn + (string \<times> rat) option" where
  "pick_storage lookup required [] best = Inr best"
| "pick_storage lookup required (name # names) best =
     (case lookup name of
        None \<Rightarrow> pick_storage lookup required names best
      | Some st \<Rightarrow>
          andthen (check_storage st required) (\<lambda>r.
          pick_storage lookup required names
            (case r of
               None \<Rightarrow> best
             | Some avail \<Rightarrow>
                 if (case best of None \<Rightarrow> - 1 | Some (_, b) \<Rightarrow> b) < avail then Some (name, avail) else best)))"

definition select_clone_storage :: "env \<Rightarrow> server \<Rightarrow> string list \<Rightarrow> int \<Rightarrow> (sys, string) prog" where
  "select_clone_storage e srv candidates required_disk_gb =
     seq (catch
           (seq (get_proxmox_for_server e srv) (\<lambda>_.
            seq (ext e (PveStorageList (srv_name srv))) (\<lambda>j.
            case j of JList storages \<Rightarrow> ret storages | _ \<Rightarrow> raise TypeError)))
           (\<lambda>_. raise (Http 503 ''storage-lookup-failed''))) (\<lambda>storages.
     seq (raise_if (list_ex (\<lambda>st. is_obj st \<and> \<not> hashable (storage_name st)) storages) TypeError) (\<lambda>_.
     seq (lift (pick_storage (by_name storages) (required_disk_gb * 1024 ^ 3) candidates None)) (\<lambda>best.
     case best of
       None \<Rightarrow> raise (Http 507 ''no-ssd-space'')
     | Some (name, _) \<Rightarrow> ret name)))"

lemma keeps_select_clone_storage [keeps_intros]: "keeps db (select_clone_storage e srv cs gb)"
  unfolding select_clone_storage_def by (auto intro!: keeps_intros)

lemma logs_select_clone_storage [logs_intros]:
  assumes "PveConnect (srv_id srv) \<in> A" "PveStorageList (srv_name srv) \<in> A"
  shows "logs A (select_clone_storage e srv cs gb)"
  unfolding select_clone_storage_def using assms by (auto intro!: logs_intros)

subsection \<open>What the choice guarantees\<close>

text \<open>The candidates that pass the checks, with the space they have, in the order of the list.\<close>

definition eligible :: "(string \<Rightarrow> json option) \<Rightarrow> int \<Rightarrow> string \<Rightarrow> rat \<Rightarrow> bool" where
  "eligible lookup required name avail \<longleftrightarrow>
     (\<exists>st. lookup name = Some st \<and> check_storage st required = Inr (Some avail))"

lemma check_storage_avail: "check_storage st required = Inr (Some a) \<Longrightarrow> of_int required \<le> a"
  by (auto simp: check_storage_def andthen_Inr_iff Let_def split: if_splits)

lemma eligible_unique: "eligible l r n a \<Longrightarrow> eligible l r n b \<Longrightarrow> a = b"
  by (auto simp: eligible_def)

text \<open>
  The loop invariant in closed form: the result is the running best, or an eligible candidate of the
  list with more space than the running best, than every candidate before it, and at least as much as
  every candidate after it.
\<close>

lemma pick_storage_sound:
  assumes "pick_storage lookup required names best = Inr (Some (n, a))" and req: "0 \<le> required"
  shows "(best = Some (n, a) \<or> (n \<in> set names \<and> eligible lookup required n a)) \<and>
         (\<forall>m b. m \<in> set names \<longrightarrow> eligible lookup required m b \<longrightarrow> b \<le> a) \<and>
         (\<forall>m b. best = Some (m, b) \<longrightarrow> b \<le> a)"
  using assms(1)
proof (induction names arbitrary: best)
  case Nil
  then show ?case by auto
next
  case (Cons name names)
  show ?case
  proof (cases "lookup name")
    case None
    then have "pick_storage lookup required names best = Inr (Some (n, a))" using Cons.prems by simp
    from Cons.IH[OF this] show ?thesis using None by (auto simp: eligible_def)
  next
    case (Some st)
    then obtain r where r: "check_storage st required = Inr r" using Cons.prems
      by (cases "check_storage st required") auto
    show ?thesis
    proof (cases r)
      case None
      then have "pick_storage lookup required names best = Inr (Some (n, a))"
        using Cons.prems Some r by simp
      from Cons.IH[OF this] show ?thesis using None Some r by (auto simp: eligible_def)
    next
      case (Some avail)
      let ?b = "(case best of None \<Rightarrow> - 1 | Some (_, b) \<Rightarrow> b)"
      have el: "eligible lookup required name c \<longleftrightarrow> c = avail" for c
        using Some r \<open>lookup name = Some st\<close> by (auto simp: eligible_def)
      show ?thesis
      proof (cases "?b < avail")
        case True
        then have "pick_storage lookup required names (Some (name, avail)) = Inr (Some (n, a))"
          using Cons.prems Some r \<open>lookup name = Some st\<close> by simp
        from Cons.IH[OF this] show ?thesis using True el by (fastforce split: option.splits)
      next
        case False
        then have p: "pick_storage lookup required names best = Inr (Some (n, a))"
          using Cons.prems Some r \<open>lookup name = Some st\<close> by simp
        have "0 \<le> avail"
          using check_storage_avail[of st required avail] r Some req
          by (simp add: order_trans[OF of_int_0_le_iff[THEN iffD2]])
        with False obtain m b where "best = Some (m, b)" "avail \<le> b" by (auto split: option.splits)
        then show ?thesis using Cons.IH[OF p] el False by (auto split: option.splits)
      qed
    qed
  qed
qed

end
