(* ===== verification/IpAddress.thy ===== *)
theory IpAddress
  imports World
begin

text \<open>
  The address checks the source relies on: the regular expression of
  \<open>network_service._validate_ip\<close>, and the part of Python's \<open>ipaddress\<close> module that decides whether
  \<open>ip_network(s, strict=False)\<close> accepts a string (\<open>_normalize_source_ip\<close>, \<open>fw_schema\<close>). The IPv6 half is
  included because it accepts a scope id, an arbitrary text after a percent sign.
\<close>

section \<open>\<open>_validate_ip\<close>\<close>

definition short_digits :: "string \<Rightarrow> bool" where
  "short_digits p \<longleftrightarrow> p \<noteq> [] \<and> length p \<le> 3 \<and> list_all is_digit p"

text \<open>
  \<open>_IP_PATTERN.match(ip)\<close>. In Python's \<open>re\<close>, the closing \<open>$\<close> also matches before a line feed that ends
  the string.
\<close>

definition dotted_quad :: "string \<Rightarrow> bool" where
  "dotted_quad s \<longleftrightarrow> (let ps = split_char (CHR ''.'') s in length ps = 4 \<and> list_all short_digits ps)"

definition newline :: char where "newline = CHR 0x0A"

definition matches_ip_pattern :: "string \<Rightarrow> bool" where
  "matches_ip_pattern s \<longleftrightarrow>
     dotted_quad s \<or> (s \<noteq> [] \<and> last s = newline \<and> dotted_quad (butlast s))"

definition in_octet_range :: "string \<Rightarrow> bool" where
  "in_octet_range p = (case py_int p of Inl _ \<Rightarrow> False | Inr i \<Rightarrow> 0 \<le> i \<and> i \<le> 255)"

definition validate_ip :: "string \<Rightarrow> exn + string" where
  "validate_ip ip =
     (if \<not> matches_ip_pattern ip then Inl (ValueError ''bad-ip-format'')
      else if \<not> list_all in_octet_range (split_char (CHR ''.'') ip) then Inl (ValueError ''bad-ip-range'')
      else Inr ip)"

section \<open>\<open>ipaddress.ip_network\<close>\<close>

definition v4_octet :: "string \<Rightarrow> bool" where
  "v4_octet p \<longleftrightarrow> p \<noteq> [] \<and> list_all is_digit p \<and> length p \<le> 3 \<and>
     \<not> (1 < length p \<and> hd p = CHR ''0'') \<and> parse_nat p \<le> 255"

definition v4_address :: "string \<Rightarrow> nat option" where
  "v4_address s = (let ps = split_char (CHR ''.'') s in
     if length ps = 4 \<and> list_all v4_octet ps
     then Some (foldl (\<lambda>n p. 256 * n + parse_nat p) 0 ps) else None)"

text \<open>A mask of 32 bits that is ones followed by zeroes, or zeroes followed by ones.\<close>

definition v4_mask_value :: "nat \<Rightarrow> bool" where
  "v4_mask_value n \<longleftrightarrow> list_ex (\<lambda>k. n = 2 ^ 32 - 2 ^ k \<or> n = 2 ^ k - 1) [0..<33]"

definition v4_mask :: "string \<Rightarrow> bool" where
  "v4_mask m \<longleftrightarrow>
     (m \<noteq> [] \<and> list_all is_digit m \<and> parse_nat m \<le> 32) \<or>
     (case v4_address m of None \<Rightarrow> False | Some n \<Rightarrow> v4_mask_value n)"

definition v4_network :: "string \<Rightarrow> bool" where
  "v4_network s \<longleftrightarrow> (case split_char (CHR ''/'') s of
       [a] \<Rightarrow> v4_address a \<noteq> None
     | [a, m] \<Rightarrow> v4_address a \<noteq> None \<and> v4_mask m
     | _ \<Rightarrow> False)"

definition hex_digits :: string where
  "hex_digits = ''0123456789abcdefABCDEF''"

definition hextet :: "string \<Rightarrow> bool" where
  "hextet p \<longleftrightarrow> p \<noteq> [] \<and> length p \<le> 4 \<and> list_all (\<lambda>c. c \<in> set hex_digits) p"

text \<open>\<open>_ip_int_from_string\<close> of IPv6, after an embedded IPv4 suffix has been replaced by two hextets.\<close>

definition inner_empty :: "string list \<Rightarrow> nat list" where
  "inner_empty ps = filter (\<lambda>i. ps ! i = []) [1..<length ps - 1]"

definition v6_parts :: "string list \<Rightarrow> bool" where
  "v6_parts ps \<longleftrightarrow> length ps \<le> 9 \<and> (case inner_empty ps of
       [] \<Rightarrow> length ps = 8 \<and> list_all hextet ps
     | [k] \<Rightarrow>
         (let his = take k ps; los = drop (k + 1) ps;
              hi = (if hd ps = [] then tl his else his);
              lo = (if last ps = [] then butlast los else los)
          in (hd ps = [] \<longrightarrow> hi = []) \<and> (last ps = [] \<longrightarrow> lo = []) \<and>
             length hi + length lo < 8 \<and> list_all hextet hi \<and> list_all hextet lo)
     | _ \<Rightarrow> False)"

definition v6_numeric :: "string \<Rightarrow> bool" where
  "v6_numeric s \<longleftrightarrow> (let ps = split_char (CHR '':'') s in
     3 \<le> length ps \<and>
     (if CHR ''.'' \<in> set (last ps)
      then v4_address (last ps) \<noteq> None \<and> v6_parts (butlast ps @ [''0'', ''0''])
      else v6_parts ps))"

text \<open>\<open>IPv6Address\<close>: the text after the first percent sign is the scope id; it may not be empty or hold another one.\<close>

definition v6_address :: "string \<Rightarrow> bool" where
  "v6_address s \<longleftrightarrow> (case split_once ''%'' s of
       None \<Rightarrow> v6_numeric s
     | Some (a, scope) \<Rightarrow> v6_numeric a \<and> scope \<noteq> [] \<and> CHR ''%'' \<notin> set scope)"

definition v6_network :: "string \<Rightarrow> bool" where
  "v6_network s \<longleftrightarrow> (case split_char (CHR ''/'') s of
       [a] \<Rightarrow> v6_address a
     | [a, m] \<Rightarrow> v6_address a \<and> m \<noteq> [] \<and> list_all is_digit m \<and> parse_nat m \<le> 128
     | _ \<Rightarrow> False)"

definition is_ip_network :: "string \<Rightarrow> bool" where
  "is_ip_network s \<longleftrightarrow> v4_network s \<or> v6_network s"

section \<open>Facts\<close>

lemma dotted_quad_chars: "dotted_quad s \<Longrightarrow> c \<in> set s \<Longrightarrow> is_digit c \<or> c = CHR ''.''"
proof -
  assume q: "dotted_quad s" and c: "c \<in> set s"
  have "c \<in> set (join ''.'' (split_char (CHR ''.'') s))" using c by (simp add: join_split_char)
  moreover have "set (join sep ws) \<subseteq> set sep \<union> (\<Union>w \<in> set ws. set w)" for sep ws
    by (induction sep ws rule: join.induct) auto
  ultimately have "c = CHR ''.'' \<or> (\<exists>w \<in> set (split_char (CHR ''.'') s). c \<in> set w)" by fastforce
  then show ?thesis using q by (auto simp: dotted_quad_def short_digits_def list_all_iff Let_def)
qed

lemma validate_ip_chars:
  "validate_ip ip = Inr r \<Longrightarrow> r = ip \<and> (\<forall>c \<in> set ip. is_digit c \<or> c = CHR ''.'' \<or> c = newline)"
proof -
  assume v: "validate_ip ip = Inr r"
  then have m: "matches_ip_pattern ip" and r: "r = ip"
    by (auto simp: validate_ip_def split: if_splits)
  from m consider "dotted_quad ip" | "ip \<noteq> []" "last ip = newline" "dotted_quad (butlast ip)"
    by (auto simp: matches_ip_pattern_def)
  then show ?thesis
  proof cases
    case 1
    then show ?thesis using r by (auto dest: dotted_quad_chars)
  next
    case 2
    then have "ip = butlast ip @ [newline]" by (metis append_butlast_last_id)
    then have "set ip = set (butlast ip) \<union> {newline}" by (metis Un_insert_right list.set(1) list.simps(15) set_append)
    then show ?thesis using r 2(3) by (auto dest: dotted_quad_chars)
  qed
qed

text \<open>The address of an octet in range is accepted: what the allocator of internal addresses produces.\<close>

lemma length_show_nat_1: "n < 10 \<Longrightarrow> length (show_nat n) = 1"
  by (subst show_nat.simps) simp

lemma length_show_nat_step: "length (show_nat n) \<le> Suc (length (show_nat (n div 10)))"
proof (cases "n < 10")
  case True
  then show ?thesis by (simp add: length_show_nat_1)
next
  case False
  then show ?thesis by (subst show_nat.simps) simp
qed

lemma show_octet_small: "i \<le> 255 \<Longrightarrow> length (show_nat i) \<le> 3"
proof -
  assume "i \<le> 255"
  then have "i div 10 div 10 < 10" by simp
  then have "length (show_nat (i div 10 div 10)) = 1" by (rule length_show_nat_1)
  then show ?thesis
    using length_show_nat_step[of i] length_show_nat_step[of "i div 10"] by linarith
qed

lemma short_digits_show: "i \<le> 255 \<Longrightarrow> short_digits (show_nat i)"
  by (simp add: short_digits_def show_nat_digits show_octet_small)

lemma in_octet_range_show: "i \<le> 255 \<Longrightarrow> in_octet_range (show_nat i)"
  using py_int_show[of "int i"] unfolding in_octet_range_def show_int_def by simp

lemma split_dotted:
  assumes "split_char (CHR ''.'') p = ps" and "CHR ''.'' \<notin> set q"
  shows "split_char (CHR ''.'') (p @ CHR ''.'' # q) = ps @ [q]"
  using assms
proof (induction p arbitrary: ps)
  case Nil
  then show ?case by (simp add: split_char_none)
next
  case (Cons c p)
  obtain w ws where "split_char (CHR ''.'') p = w # ws" by (cases "split_char (CHR ''.'') p") auto
  then show ?case using Cons by (auto split: if_splits)
qed

lemma dot_not_digit: "list_all is_digit s \<Longrightarrow> CHR ''.'' \<notin> set s"
proof -
  have "\<not> is_digit (CHR ''.'')" by (simp add: is_digit_def digits_def)
  then show "list_all is_digit s \<Longrightarrow> CHR ''.'' \<notin> set s" by (auto simp: list_all_iff)
qed

end
