(* ===== verification/Network.thy ===== *)
theory Network
  imports IpAddress "HOL-Library.Multiset"
begin

text \<open>
  \<open>services/network_service.py\<close>: the public ports of a VM, the shell commands that add and remove its
  iptables rules on the gateway, their execution over SSH with rollback, and the allocation of a random
  external port.
\<close>

section \<open>Ports\<close>

record ports =
  ssh_port :: int
  svc1_port :: int
  svc2_port :: int

definition port_values :: "ports \<Rightarrow> int list" where
  "port_values p = [ssh_port p, svc1_port p, svc2_port p]"

definition validate_port :: "int \<Rightarrow> exn + int" where
  "validate_port port =
     (if \<not> (1 \<le> port \<and> port \<le> 65535) then Inl (ValueError ''port-range'') else Inr port)"

definition calculate_ports :: "int \<Rightarrow> int \<Rightarrow> exn + ports" where
  "calculate_ports base_port vmid =
     (let p = \<lparr>ssh_port = base_port + 0 + vmid, svc1_port = base_port + 1000 + vmid,
               svc2_port = base_port + 2000 + vmid\<rparr> in
      andthen (validate_port (ssh_port p)) (\<lambda>_.
      andthen (validate_port (svc1_port p)) (\<lambda>_.
      andthen (validate_port (svc2_port p)) (\<lambda>_. Inr p))))"

lemma calculate_ports_Inr:
  "calculate_ports b v = Inr p \<longleftrightarrow>
     p = \<lparr>ssh_port = b + v, svc1_port = b + 1000 + v, svc2_port = b + 2000 + v\<rparr> \<and>
     1 \<le> b + v \<and> b + 2000 + v \<le> 65535"
  by (auto simp: calculate_ports_def validate_port_def andthen_Inr_iff Let_def split: if_splits)

section \<open>Source addresses\<close>

definition normalize_source_ip :: "string option \<Rightarrow> exn + string option" where
  "normalize_source_ip source_ip = (case source_ip of
       None \<Rightarrow> Inr None
     | Some s \<Rightarrow>
         if s \<in> {'''', ''0.0.0.0/0'', ''0.0.0.0''} then Inr None
         else if \<not> is_ip_network s then Inl (ValueError ''bad-source'')
         else Inr (Some s))"

section \<open>Commands\<close>

definition iptables_base :: "string option \<Rightarrow> string" where
  "iptables_base table =
     ''sudo iptables '' @ (case table of None \<Rightarrow> '''' | Some t \<Rightarrow> ''-t '' @ t @ '' '')"

definition check_cmd :: "string \<Rightarrow> string \<Rightarrow> string" where
  "check_cmd base rule = base @ ''-C '' @ rule"

definition add_cmd :: "string \<Rightarrow> string \<Rightarrow> string" where
  "add_cmd base rule = base @ ''-A '' @ rule"

definition delete_cmd :: "string \<Rightarrow> string \<Rightarrow> string" where
  "delete_cmd base rule = base @ ''-D '' @ rule"

definition iptables_command :: "string option \<Rightarrow> string \<Rightarrow> string \<Rightarrow> string \<Rightarrow> exn + string" where
  "iptables_command table chain rule_args action =
     (let base = iptables_base table; rule = chain @ '' '' @ rule_args in
      if action \<notin> {''ADD'', ''DELETE''} then Inl (ValueError ''bad-action'')
      else if action = ''ADD'' then Inr (check_cmd base rule @ '' || '' @ add_cmd base rule)
      else Inr (base @ ''-L '' @ chain @ '' -n >/dev/null && while '' @ delete_cmd base rule @
                '' 2>/dev/null; do :; done''))"

definition dnat_args :: "string \<Rightarrow> string \<Rightarrow> string \<Rightarrow> int \<Rightarrow> string \<Rightarrow> int \<Rightarrow> string" where
  "dnat_args src proto gateway public_port vm_ip internal_port =
     src @ ''-p '' @ proto @ '' -d '' @ gateway @ '' --dport '' @ show_int public_port @
     '' -j DNAT --to-destination '' @ vm_ip @ '':'' @ show_int internal_port"

definition forward_args :: "string \<Rightarrow> string \<Rightarrow> string \<Rightarrow> int \<Rightarrow> string" where
  "forward_args src proto vm_ip internal_port =
     src @ ''-p '' @ proto @ '' -d '' @ vm_ip @ '' --dport '' @ show_int internal_port @
     '' -m state --state NEW,ESTABLISHED,RELATED -j ACCEPT''"

section \<open>Execution over SSH\<close>

text \<open>\<open>ssh.exec_command(cmd)\<close> and the exit status it reports.\<close>

definition exec_status :: "env \<Rightarrow> string \<Rightarrow> string \<Rightarrow> (sys, int) prog" where
  "exec_status e host cmd = seq (ext e (SshExec host cmd)) (\<lambda>j. lift (as_int j))"

text \<open>
  The first loop of \<open>_run_iptables_commands\<close>: every rule is inspected before any is added. \<open>None\<close> is the
  early \<open>return False\<close>; otherwise the rules that are absent, as (check, add, delete) commands.
\<close>

fun inspect_rules :: "env \<Rightarrow> string \<Rightarrow> string list \<Rightarrow>
    (sys, (string \<times> string \<times> string) list option) prog" where
  "inspect_rules e host [] = ret (Some [])"
| "inspect_rules e host (command # cs) =
     (case split_once '' || '' command of
        None \<Rightarrow> raise (ValueError ''unpack'')
      | Some (check, add) \<Rightarrow>
          seq (catch (seq (exec_status e host check) (\<lambda>st. ret (Some st))) (\<lambda>_. ret None)) (\<lambda>r.
          case r of
            None \<Rightarrow> ret None
          | Some st \<Rightarrow>
              if st = 0 then inspect_rules e host cs
              else if st \<noteq> 1 then ret None
              else seq (inspect_rules e host cs) (\<lambda>rest.
                   ret (map_option (Cons (check, add, replace_once ''-C '' ''-D '' check)) rest))))"

text \<open>The second loop: each absent rule is enlisted for rollback, then added, until one fails.\<close>

fun add_rules :: "env \<Rightarrow> string \<Rightarrow> (string \<times> string \<times> string) list \<Rightarrow> (string \<times> string) list \<Rightarrow>
    (sys, bool \<times> (string \<times> string) list) prog" where
  "add_rules e host [] attempted = ret (True, attempted)"
| "add_rules e host ((check, add, delete) # pending) attempted =
     seq (catch (seq (exec_status e host add) (\<lambda>st. ret (st = 0))) (\<lambda>_. ret False)) (\<lambda>ok.
     if ok then add_rules e host pending (attempted @ [(check, delete)])
     else ret (False, attempted @ [(check, delete)]))"

text \<open>Without rollback commands (\<open>DELETE\<close>): a failed command is noted, an exception ends the loop.\<close>

fun plain_commands :: "env \<Rightarrow> string \<Rightarrow> string list \<Rightarrow> bool \<Rightarrow> (sys, bool) prog" where
  "plain_commands e host [] success = ret success"
| "plain_commands e host (cmd # cmds) success =
     seq (catch (seq (exec_status e host cmd) (\<lambda>st. ret (Some st))) (\<lambda>_. ret None)) (\<lambda>r.
     case r of
       None \<Rightarrow> ret False
     | Some st \<Rightarrow> plain_commands e host cmds (success \<and> st = 0))"

text \<open>The third loop: undo the attempted additions, last first; failures are only logged.\<close>

definition roll_back :: "env \<Rightarrow> string \<Rightarrow> (string \<times> string) list \<Rightarrow> (sys, unit) prog" where
  "roll_back e host attempted =
     for_each (rev attempted) (\<lambda>(check, delete).
       catch (seq (exec_status e host (check @ '' && '' @ delete)) (\<lambda>_. ret ())) (\<lambda>_. ret ()))"

definition run_iptables_commands ::
  "env \<Rightarrow> string \<Rightarrow> string list \<Rightarrow> string list option \<Rightarrow> (sys, bool) prog" where
  "run_iptables_commands e host commands rollback_commands =
     (case rollback_commands of
        None \<Rightarrow> plain_commands e host commands True
      | Some rollbacks \<Rightarrow>
          if rollbacks = [] then plain_commands e host commands True
          else if length rollbacks \<noteq> length commands then raise (ValueError ''zip'')
          else seq (inspect_rules e host commands) (\<lambda>p.
            case p of
              None \<Rightarrow> ret False
            | Some pending \<Rightarrow>
                seq (add_rules e host pending []) (\<lambda>(success, attempted).
                seq (roll_back e host (if success then [] else attempted)) (\<lambda>_.
                ret success))))"

text \<open>
  \<open>_backup_iptables\<close>: the rules are read and written to a local file; every failure is only logged. (The
  date in the file name and the pruning of files older than 30 days are left out.)
\<close>

definition backup_iptables :: "env \<Rightarrow> string \<Rightarrow> (sys, unit) prog" where
  "backup_iptables e gateway_ip =
     catch
       (seq (ext e (SshRead gateway_ip ''sudo iptables-save'')) (\<lambda>out.
        case out of
          JStr s \<Rightarrow> if s \<noteq> [] then seq (ext e (FileWrite (''backups/iptables/iptables-'' @ gateway_ip) s)) (\<lambda>_. ret ())
                    else ret ()
        | _ \<Rightarrow> raise AttributeError))
       (\<lambda>_. ret ())"

text \<open>The \<open>try\<close> block shared by both managers: connect, run, back up when it worked; any exception is \<open>False\<close>.\<close>

definition with_gateway ::
  "env \<Rightarrow> string \<Rightarrow> string \<Rightarrow> string list \<Rightarrow> string list option \<Rightarrow> (sys, bool) prog" where
  "with_gateway e ip user commands rollback_commands =
     catch
       (seq (ext e (SshConnect ip user)) (\<lambda>_.
        seq (run_iptables_commands e ip commands rollback_commands) (\<lambda>success.
        seq (if success then backup_iptables e ip else ret ()) (\<lambda>_.
        ret success))))
       (\<lambda>_. ret False)"

text \<open>\<open>if not server.gateway_ip or not server.gateway_user\<close>: the gateway, when both are set.\<close>

definition gateway_of :: "server \<Rightarrow> (string \<times> string) option" where
  "gateway_of srv = (case (srv_gateway_ip srv, srv_gateway_user srv) of
       (Some ip, Some u) \<Rightarrow> if ip = [] \<or> u = [] then None else Some (ip, u)
     | _ \<Rightarrow> None)"

text \<open>The rules of one forwarded port: DNAT on the public address, and FORWARD to the VM.\<close>

definition port_commands :: "string \<Rightarrow> string \<Rightarrow> string \<Rightarrow> string \<Rightarrow> int \<Rightarrow> string \<Rightarrow> int \<Rightarrow>
    exn + string list" where
  "port_commands action src proto gateway public_port vm_ip internal_port =
     andthen (iptables_command (Some ''nat'') ''PREROUTING''
       (dnat_args src proto gateway public_port vm_ip internal_port) action) (\<lambda>c1.
     andthen (iptables_command None ''FORWARD'' (forward_args src proto vm_ip internal_port) action) (\<lambda>c2.
     Inr [c1, c2]))"

fun mapping_commands :: "string \<Rightarrow> string \<Rightarrow> string \<Rightarrow> (int \<times> int \<times> string list) list \<Rightarrow> exn + string list" where
  "mapping_commands action gateway vm_ip [] = Inr []"
| "mapping_commands action gateway vm_ip ((public_port, internal_port, []) # ms) =
     mapping_commands action gateway vm_ip ms"
| "mapping_commands action gateway vm_ip ((public_port, internal_port, proto # protos) # ms) =
     andthen (validate_port public_port) (\<lambda>_.
     andthen (validate_port internal_port) (\<lambda>_.
     andthen (port_commands action '''' proto gateway public_port vm_ip internal_port) (\<lambda>cs.
     andthen (mapping_commands action gateway vm_ip ((public_port, internal_port, protos) # ms)) (\<lambda>rest.
     Inr (cs @ rest)))))"

definition port_mapping :: "ports \<Rightarrow> (int \<times> int \<times> string list) list" where
  "port_mapping p =
     [(ssh_port p, 22, [''tcp'']), (svc1_port p, 80, [''tcp'']), (svc2_port p, 10000, [''tcp'', ''udp''])]"

definition manage_iptables :: "env \<Rightarrow> server \<Rightarrow> int \<Rightarrow> string \<Rightarrow> string \<Rightarrow> (sys, bool) prog" where
  "manage_iptables e srv vmid vm_ip action =
     seq (lift (validate_ip vm_ip)) (\<lambda>_.
     seq (lift (validate_ip (GATEWAY_PUBLIC_IP (conf e)))) (\<lambda>_.
     seq (raise_if (action \<notin> {''ADD'', ''DELETE''}) (ValueError ''bad-action'')) (\<lambda>_.
     case gateway_of srv of
       None \<Rightarrow> ret False
     | Some (ip, user) \<Rightarrow>
         seq (lift (calculate_ports (srv_base_port srv) vmid)) (\<lambda>ps.
         seq (lift (mapping_commands action (GATEWAY_PUBLIC_IP (conf e)) vm_ip (port_mapping ps))) (\<lambda>commands.
         seq (lift (mapping_commands ''DELETE'' (GATEWAY_PUBLIC_IP (conf e)) vm_ip (port_mapping ps))) (\<lambda>rollbacks.
         with_gateway e ip user commands (if action = ''ADD'' then Some rollbacks else None)))))))"

definition VALID_PROTOCOLS :: "string set" where
  "VALID_PROTOCOLS = {''tcp'', ''udp''}"

definition manage_custom_iptables ::
  "env \<Rightarrow> server \<Rightarrow> string \<Rightarrow> int \<Rightarrow> int \<Rightarrow> string \<Rightarrow> string \<Rightarrow> string option \<Rightarrow> (sys, bool) prog" where
  "manage_custom_iptables e srv vm_ip internal_port external_port protocol action source_ip =
     seq (raise_if (protocol \<notin> VALID_PROTOCOLS) (ValueError ''bad-protocol'')) (\<lambda>_.
     seq (lift (validate_ip vm_ip)) (\<lambda>_.
     seq (lift (validate_ip (GATEWAY_PUBLIC_IP (conf e)))) (\<lambda>_.
     seq (lift (validate_port internal_port)) (\<lambda>_.
     seq (lift (validate_port external_port)) (\<lambda>_.
     seq (raise_if (action \<notin> {''ADD'', ''DELETE''}) (ValueError ''bad-action'')) (\<lambda>_.
     case gateway_of srv of
       None \<Rightarrow> ret False
     | Some (ip, user) \<Rightarrow>
         seq (lift (normalize_source_ip source_ip)) (\<lambda>source.
         let src = (case source of None \<Rightarrow> '''' | Some s \<Rightarrow> ''-s '' @ s @ '' '') in
         seq (lift (port_commands action src protocol (GATEWAY_PUBLIC_IP (conf e)) external_port vm_ip internal_port)) (\<lambda>commands.
         seq (lift (port_commands ''DELETE'' src protocol (GATEWAY_PUBLIC_IP (conf e)) external_port vm_ip internal_port)) (\<lambda>rollbacks.
         with_gateway e ip user commands (if action = ''ADD'' then Some rollbacks else None))))))))))"

section \<open>Random external ports\<close>

text \<open>\<open>for _ in range(100)\<close>, with the number of tries left as the first argument.\<close>

fun try_random_port :: "env \<Rightarrow> nat \<Rightarrow> int \<Rightarrow> int \<Rightarrow> (sys, int) prog" where
  "try_random_port e 0 lo hi = raise (RuntimeError ''no-port'')"
| "try_random_port e (Suc n) lo hi =
     seq (draw e (nat (hi - lo + 1))) (\<lambda>i.
     let port = lo + int i in
     seq (gets db) (\<lambda>d.
     if \<exists>p \<in> set (vm_ports d). p_external_port p = port
     then try_random_port e n lo hi else ret port))"

definition allocate_random_port :: "env \<Rightarrow> (sys, int) prog" where
  "allocate_random_port e = try_random_port e 100 30000 39999"

section \<open>Evaluation\<close>

lemma inspect_rules_code [code]:
  "inspect_rules e host [] s = (Inr (Some []), s)"
  "inspect_rules e host (command # cs) s =
     (case split_once '' || '' command of
        None \<Rightarrow> (Inl (ValueError ''unpack''), s)
      | Some (check, add) \<Rightarrow>
          seq (catch (seq (exec_status e host check) (\<lambda>st. ret (Some st))) (\<lambda>_. ret None)) (\<lambda>r.
          case r of
            None \<Rightarrow> ret None
          | Some st \<Rightarrow>
              if st = 0 then inspect_rules e host cs
              else if st \<noteq> 1 then ret None
              else seq (inspect_rules e host cs) (\<lambda>rest.
                   ret (map_option (Cons (check, add, replace_once ''-C '' ''-D '' check)) rest))) s)"
  by (simp_all add: ret_def raise_def split: option.split)

lemma add_rules_code [code]:
  "add_rules e host [] attempted s = (Inr (True, attempted), s)"
  "add_rules e host ((check, add, delete) # pending) attempted s =
     seq (catch (seq (exec_status e host add) (\<lambda>st. ret (st = 0))) (\<lambda>_. ret False)) (\<lambda>ok.
     if ok then add_rules e host pending (attempted @ [(check, delete)])
     else ret (False, attempted @ [(check, delete)])) s"
  by (simp add: ret_def, simp only: add_rules.simps)

lemma plain_commands_code [code]:
  "plain_commands e host [] success s = (Inr success, s)"
  "plain_commands e host (cmd # cmds) success s =
     seq (catch (seq (exec_status e host cmd) (\<lambda>st. ret (Some st))) (\<lambda>_. ret None)) (\<lambda>r.
     case r of
       None \<Rightarrow> ret False
     | Some st \<Rightarrow> plain_commands e host cmds (success \<and> st = 0)) s"
  by (simp add: ret_def, simp only: plain_commands.simps)

section \<open>Frames\<close>

lemma keeps_exec_status [keeps_intros]: "keeps db (exec_status e h c)"
  unfolding exec_status_def by (intro keeps_intros)

lemma keeps_inspect_rules [keeps_intros]: "keeps db (inspect_rules e h cs)"
  by (induction cs) (auto intro!: keeps_intros)

lemma keeps_add_rules [keeps_intros]: "keeps db (add_rules e h ps att)"
  by (induction e h ps att rule: add_rules.induct) (auto intro!: keeps_intros)

lemma keeps_plain_commands [keeps_intros]: "keeps db (plain_commands e h cs b)"
  by (induction e h cs b rule: plain_commands.induct) (auto intro!: keeps_intros)

lemma keeps_run_iptables [keeps_intros]: "keeps db (run_iptables_commands e h cs rb)"
  unfolding run_iptables_commands_def roll_back_def by (auto intro!: keeps_intros)

lemma keeps_with_gateway [keeps_intros]: "keeps db (with_gateway e ip u cs rb)"
  unfolding with_gateway_def backup_iptables_def by (auto intro!: keeps_intros)

lemma keeps_manage_iptables [keeps_intros]: "keeps db (manage_iptables e srv v ip act)"
  unfolding manage_iptables_def by (auto intro!: keeps_intros)

lemma keeps_manage_custom [keeps_intros]: "keeps db (manage_custom_iptables e srv ip i x p act src)"
  unfolding manage_custom_iptables_def by (auto intro!: keeps_intros)

lemma keeps_random_port [keeps_intros]: "keeps db (allocate_random_port e)"
proof -
  have "keeps db (try_random_port e n lo hi)" for n lo hi
    by (induction n) (auto intro!: keeps_intros simp: Let_def)
  then show ?thesis by (simp add: allocate_random_port_def)
qed

text \<open>Everything the gateway managers do goes to the gateway (or to the local backup file).\<close>

definition gateway_calls :: "call set" where
  "gateway_calls = {c. case c of SshConnect _ _ \<Rightarrow> True | SshExec _ _ \<Rightarrow> True | SshRead _ _ \<Rightarrow> True
     | FileWrite _ _ \<Rightarrow> True | _ \<Rightarrow> False}"

lemma gateway_calls_mem [simp]:
  "SshConnect h u \<in> gateway_calls" "SshExec h c \<in> gateway_calls" "SshRead h c \<in> gateway_calls"
  "FileWrite f t \<in> gateway_calls"
  by (simp_all add: gateway_calls_def)

lemma logs_exec_status [logs_intros]: "logs gateway_calls (exec_status e h c)"
  unfolding exec_status_def by (auto intro!: logs_intros)

lemma logs_inspect_rules [logs_intros]: "logs gateway_calls (inspect_rules e h cs)"
  by (induction cs) (auto intro!: logs_intros)

lemma logs_add_rules [logs_intros]: "logs gateway_calls (add_rules e h ps att)"
  by (induction e h ps att rule: add_rules.induct) (auto intro!: logs_intros)

lemma logs_plain_commands [logs_intros]: "logs gateway_calls (plain_commands e h cs b)"
  by (induction e h cs b rule: plain_commands.induct) (auto intro!: logs_intros)

lemma logs_with_gateway [logs_intros]: "logs gateway_calls (with_gateway e ip u cs rb)"
  unfolding with_gateway_def run_iptables_commands_def roll_back_def backup_iptables_def
  by (auto intro!: logs_intros)

lemma logs_manage_iptables: "logs gateway_calls (manage_iptables e srv v ip act)"
  unfolding manage_iptables_def by (auto intro!: logs_intros)

lemma logs_manage_custom: "logs gateway_calls (manage_custom_iptables e srv ip i x p act src)"
  unfolding manage_custom_iptables_def by (auto intro!: logs_intros)

end
