(* ===== verification/Gateway.thy ===== *)
theory Gateway
  imports Network Sample
begin

text \<open>
  What the compensation of \<open>_run_iptables_commands\<close> achieves. The gateway is a service outside the
  repository: what the code relies on is the documented behaviour of \<open>iptables -C\<close>, \<open>-A\<close> and \<open>-D\<close>, stated
  as \<open>lawful_gateway\<close> over a ghost function that gives the rules installed after a history of calls.
\<close>

section \<open>Documented behaviour of the gateway\<close>

type_synonym rule = "string \<times> string"

definition bases :: "string set" where
  "bases = {iptables_base None, iptables_base (Some ''nat'')}"

text \<open>A rule text that holds no shell operator.\<close>

definition plain_rule :: "rule \<Rightarrow> bool" where
  "plain_rule r \<longleftrightarrow> fst r \<in> bases \<and> CHR ''|'' \<notin> set (snd r) \<and> CHR ''&'' \<notin> set (snd r)"

definition check_of :: "rule \<Rightarrow> string" where "check_of r = check_cmd (fst r) (snd r)"
definition add_of :: "rule \<Rightarrow> string" where "add_of r = add_cmd (fst r) (snd r)"
definition delete_of :: "rule \<Rightarrow> string" where "delete_of r = delete_cmd (fst r) (snd r)"
definition undo_of :: "rule \<Rightarrow> string" where "undo_of r = check_of r @ '' && '' @ delete_of r"
definition add_command_of :: "rule \<Rightarrow> string" where
  "add_command_of r = check_of r @ '' || '' @ add_of r"

text \<open>
  \<open>-C\<close> reports with status 0 or 1 whether the rule is installed and changes nothing; \<open>-A\<close> with status 0
  appends the rule, with another status changes nothing, and when the SSH transport fails may or may not
  have appended it; the guarded \<open>-D\<close> removes one copy of an installed rule. Inspections may also fail in
  transport; the rollback is assumed to reach the gateway.
\<close>

definition lawful_gateway :: "env \<Rightarrow> string \<Rightarrow> (call list \<Rightarrow> rule multiset) \<Rightarrow> bool" where
  "lawful_gateway e h installed \<longleftrightarrow>
     (\<forall>hist r. plain_rule r \<longrightarrow>
        ((\<exists>x. answer e hist (SshExec h (check_of r)) = Inl x) \<or>
         answer e hist (SshExec h (check_of r)) = Inr (JInt (if r \<in># installed hist then 0 else 1))) \<and>
        installed (hist @ [SshExec h (check_of r)]) = installed hist \<and>
        (case answer e hist (SshExec h (add_of r)) of
           Inl x \<Rightarrow> installed (hist @ [SshExec h (add_of r)]) \<in> {installed hist, installed hist + {#r#}}
         | Inr j \<Rightarrow> \<exists>st. j = JInt st \<and>
             installed (hist @ [SshExec h (add_of r)]) =
               (if st = 0 then installed hist + {#r#} else installed hist)) \<and>
        (\<exists>j. answer e hist (SshExec h (undo_of r)) = Inr j) \<and>
        installed (hist @ [SshExec h (undo_of r)]) = installed hist - {#r#})"

lemma lawfulD:
  assumes "lawful_gateway e h ins" and "plain_rule r"
  shows "(\<exists>x. answer e hist (SshExec h (check_of r)) = Inl x) \<or>
      answer e hist (SshExec h (check_of r)) = Inr (JInt (if r \<in># ins hist then 0 else 1))" (is ?A)
    and "ins (hist @ [SshExec h (check_of r)]) = ins hist" (is ?B)
    and "case answer e hist (SshExec h (add_of r)) of
        Inl x \<Rightarrow> ins (hist @ [SshExec h (add_of r)]) \<in> {ins hist, ins hist + {#r#}}
      | Inr j \<Rightarrow> \<exists>st. j = JInt st \<and>
          ins (hist @ [SshExec h (add_of r)]) = (if st = 0 then ins hist + {#r#} else ins hist)" (is ?C)
    and "\<exists>j. answer e hist (SshExec h (undo_of r)) = Inr j" (is ?D)
    and "ins (hist @ [SshExec h (undo_of r)]) = ins hist - {#r#}" (is ?E)
proof -
  have "?A \<and> ?B \<and> ?C \<and> ?D \<and> ?E"
    using assms unfolding lawful_gateway_def by blast
  then show ?A ?B ?C ?D ?E by blast+
qed

lemma lawful_check:
  assumes "lawful_gateway e h ins" and "plain_rule r"
    and "answer e hist (SshExec h (check_of r)) = Inr j"
  shows "j = JInt (if r \<in># ins hist then 0 else 1)"
  using lawfulD(1)[OF assms(1,2), of hist] assms(3) by auto

lemma lawful_add_error:
  assumes "lawful_gateway e h ins" and "plain_rule r"
    and "answer e hist (SshExec h (add_of r)) = Inl x"
  shows "ins (hist @ [SshExec h (add_of r)]) \<in> {ins hist, ins hist + {#r#}}"
  using lawfulD(3)[OF assms(1,2), of hist] assms(3) by simp

lemma lawful_add_status:
  assumes "lawful_gateway e h ins" and "plain_rule r"
    and "answer e hist (SshExec h (add_of r)) = Inr j"
  shows "\<exists>st. j = JInt st \<and>
      ins (hist @ [SshExec h (add_of r)]) = (if st = 0 then ins hist + {#r#} else ins hist)"
  using lawfulD(3)[OF assms(1,2), of hist] assms(3) by simp

lemmas lawful_undo = lawfulD(4,5)

section \<open>Taking the commands apart\<close>

lemma split_once_bars: "CHR ''|'' \<notin> set a \<Longrightarrow> split_once '' || '' (a @ '' || '' @ b) = Some (a, b)"
proof (induction a)
  case Nil
  then show ?case by simp
next
  case (Cons c a)
  have "\<not> prefix '' || '' (c # a @ '' || '' @ b)"
  proof (cases a)
    case Nil
    then show ?thesis by simp
  next
    case (Cons d a')
    then show ?thesis using Cons.prems by auto
  qed
  then show ?case using Cons by simp
qed

lemma no_bar_check: "plain_rule r \<Longrightarrow> CHR ''|'' \<notin> set (check_of r)"
  by (auto simp: plain_rule_def check_of_def check_cmd_def bases_def iptables_base_def)

lemma split_add_command: "plain_rule r \<Longrightarrow> split_once '' || '' (add_command_of r) = Some (check_of r, add_of r)"
  unfolding add_command_of_def by (rule split_once_bars) (rule no_bar_check)

lemma replace_check: "plain_rule r \<Longrightarrow> replace_once ''-C '' ''-D '' (check_of r) = delete_of r"
  by (auto simp: plain_rule_def bases_def check_of_def delete_of_def check_cmd_def delete_cmd_def
      iptables_base_def)

lemma iptables_command_ADD:
  "iptables_command t chain args ''ADD'' = Inr (add_command_of (iptables_base t, chain @ '' '' @ args))"
  by (simp add: iptables_command_def add_command_of_def check_of_def add_of_def Let_def)

section \<open>The three loops\<close>

definition trip :: "rule \<Rightarrow> string \<times> string \<times> string" where
  "trip r = (check_of r, add_of r, delete_of r)"

definition pair_of :: "rule \<Rightarrow> string \<times> string" where
  "pair_of r = (check_of r, delete_of r)"

lemma called_calls_SshExec: "calls (called e (SshExec h c) s) = calls s @ [SshExec h c]"
  by simp

lemma inspect_rules_spec:
  assumes law: "lawful_gateway e h ins" and "\<forall>r \<in> set rs. plain_rule r"
  shows "wp (inspect_rules e h (map add_command_of rs))
           (\<lambda>p s'. ins (calls s') = ins (calls s) \<and>
              (p = None \<or> p = Some (map trip (filter (\<lambda>r. r \<notin># ins (calls s)) rs))))
           (\<lambda>_ _. False) s"
  using assms(2)
proof (induction rs arbitrary: s)
  case Nil
  then show ?case by (simp add: wp_simps)
next
  case (Cons r rs)
  let ?s = "called e (SshExec h (check_of r)) s"
  from Cons.prems have r: "plain_rule r" by simp
  note [simp] = lawfulD(2)[OF law r] split_add_command[OF r] replace_check[OF r]
  have ans: "answer e (calls s) (SshExec h (check_of r)) = Inr j \<Longrightarrow>
      j = JInt (if r \<in># ins (calls s) then 0 else 1)" for j
    using lawful_check[OF law r] by blast
  have IH: "wp (inspect_rules e h (map add_command_of rs))
           (\<lambda>p s'. ins (calls s') = ins (calls s) \<and>
              (p = None \<or> p = Some (map trip (filter (\<lambda>r. r \<notin># ins (calls s)) rs))))
           (\<lambda>_ _. False) ?s"
    using Cons.IH[of ?s] Cons.prems by simp
  show ?case
    by (auto simp: wp_simps exec_status_def trip_def dest!: ans intro!: wp_mono[OF IH])
qed

lemma add_rules_spec:
  assumes law: "lawful_gateway e h ins" and "\<forall>r \<in> set rs. plain_rule r"
  shows "wp (add_rules e h (map trip rs) att)
           (\<lambda>x s'. (fst x \<longrightarrow> ins (calls s') = ins (calls s) + mset rs) \<and>
              (\<not> fst x \<longrightarrow> (\<exists>ks. set ks \<subseteq> set rs \<and> snd x = att @ map pair_of ks \<and>
                 ins (calls s) \<subseteq># ins (calls s') \<and> ins (calls s') \<subseteq># ins (calls s) + mset ks)))
           (\<lambda>_ _. False) s"
  using assms(2)
proof (induction rs arbitrary: s att)
  case Nil
  then show ?case by (simp add: wp_simps)
next
  case (Cons r rs)
  let ?s = "called e (SshExec h (add_of r)) s"
  let ?Q = "\<lambda>x s'. (fst x \<longrightarrow> ins (calls s') = ins (calls s) + mset (r # rs)) \<and>
              (\<not> fst x \<longrightarrow> (\<exists>ks. set ks \<subseteq> set (r # rs) \<and> snd x = att @ map pair_of ks \<and>
                 ins (calls s) \<subseteq># ins (calls s') \<and> ins (calls s') \<subseteq># ins (calls s) + mset ks))"
  from Cons.prems have r: "plain_rule r" by simp
  have fail: "?Q (False, att @ [(check_of r, delete_of r)]) ?s"
    if "ins (calls ?s) \<in> {ins (calls s), ins (calls s) + {#r#}}"
    using that by (auto simp: pair_of_def intro!: exI[of _ "[r]"])
  have ok: "wp (add_rules e h (map trip rs) (att @ [(check_of r, delete_of r)])) ?Q (\<lambda>_ _. False) ?s"
    if st: "ins (calls ?s) = ins (calls s) + {#r#}"
  proof -
    have "wp (add_rules e h (map trip rs) (att @ [(check_of r, delete_of r)]))
           (\<lambda>x s'. (fst x \<longrightarrow> ins (calls s') = ins (calls ?s) + mset rs) \<and>
              (\<not> fst x \<longrightarrow> (\<exists>ks. set ks \<subseteq> set rs \<and> snd x = (att @ [(check_of r, delete_of r)]) @ map pair_of ks \<and>
                 ins (calls ?s) \<subseteq># ins (calls s') \<and> ins (calls s') \<subseteq># ins (calls ?s) + mset ks)))
           (\<lambda>_ _. False) ?s"
      by (rule Cons.IH) (use Cons.prems in simp)
    then show ?thesis
    proof (rule wp_mono)
      fix x and s' :: sys
      assume *: "(fst x \<longrightarrow> ins (calls s') = ins (calls ?s) + mset rs) \<and>
              (\<not> fst x \<longrightarrow> (\<exists>ks. set ks \<subseteq> set rs \<and> snd x = (att @ [(check_of r, delete_of r)]) @ map pair_of ks \<and>
                 ins (calls ?s) \<subseteq># ins (calls s') \<and> ins (calls s') \<subseteq># ins (calls ?s) + mset ks))"
      obtain ok att' where x: "x = (ok, att')" by fastforce
      show "?Q x s'"
      proof (cases ok)
        case True
        then show ?thesis using * x st by simp
      next
        case False
        then obtain ks where ks: "set ks \<subseteq> set rs" "att' = (att @ [(check_of r, delete_of r)]) @ map pair_of ks"
          "ins (calls ?s) \<subseteq># ins (calls s')" "ins (calls s') \<subseteq># ins (calls ?s) + mset ks"
          using * x by auto
        have "ins (calls s) \<subseteq># ins (calls s')"
          using ks(3) unfolding st by (meson mset_subset_eq_add_left subset_mset.order_trans)
        moreover have "ins (calls s') \<subseteq># ins (calls s) + mset (r # ks)"
          using ks(4) unfolding st by simp
        ultimately show ?thesis using False x ks
          by (auto simp: pair_of_def intro!: exI[of _ "r # ks"])
      qed
    qed simp
  qed
  have "wp (catch (seq (exec_status e h (add_of r)) (\<lambda>st. ret (st = 0))) (\<lambda>_. ret False))
      (\<lambda>b s'. s' = ?s \<and> (if b then ins (calls ?s) = ins (calls s) + {#r#}
                        else ins (calls ?s) \<in> {ins (calls s), ins (calls s) + {#r#}}))
      (\<lambda>_ _. False) s"
    using lawful_add_error[OF law r, of "calls s"] lawful_add_status[OF law r, of "calls s"]
    by (fastforce simp: wp_simps exec_status_def)
  then have "wp (catch (seq (exec_status e h (add_of r)) (\<lambda>st. ret (st = 0))) (\<lambda>_. ret False))
      (\<lambda>b. wp (if b then add_rules e h (map trip rs) (att @ [(check_of r, delete_of r)])
               else ret (False, att @ [(check_of r, delete_of r)])) ?Q (\<lambda>_ _. False)) (\<lambda>_ _. False) s"
    by (rule wp_mono) (use ok fail in \<open>auto simp: wp_simps split: if_splits\<close>)
  then show ?case by (simp add: wp_seq trip_def[of r])
qed

lemma roll_back_snoc:
  "roll_back e h (map pair_of (ks @ [r])) =
     seq (catch (seq (exec_status e h (undo_of r)) (\<lambda>_. ret ())) (\<lambda>_. ret ()))
       (\<lambda>_. roll_back e h (map pair_of ks))"
  by (simp add: roll_back_def pair_of_def undo_of_def)

lemma roll_back_spec:
  assumes law: "lawful_gateway e h ins" and "\<forall>r \<in> set ks. plain_rule r"
  shows "wp (roll_back e h (map pair_of ks)) (\<lambda>_ s'. ins (calls s') = ins (calls s) - mset ks) (\<lambda>_ _. False) s"
  using assms(2)
proof (induction ks arbitrary: s rule: rev_induct)
  case Nil
  then show ?case by (simp add: roll_back_def wp_simps)
next
  case (snoc r ks)
  let ?s = "called e (SshExec h (undo_of r)) s"
  from snoc.prems have r: "plain_rule r" by simp
  obtain j where j: "answer e (calls s) (SshExec h (undo_of r)) = Inr j"
    using lawful_undo(1)[OF law r] by blast
  have i: "ins (calls ?s) = ins (calls s) - {#r#}" using lawful_undo(2)[OF law r] by simp
  have "wp (roll_back e h (map pair_of ks)) (\<lambda>_ s'. ins (calls s') = ins (calls ?s) - mset ks) (\<lambda>_ _. False) ?s"
    by (rule snoc.IH) (use snoc.prems in simp)
  then have "wp (roll_back e h (map pair_of ks)) (\<lambda>_ s'. ins (calls s') = ins (calls s) - mset (ks @ [r])) (\<lambda>_ _. False) ?s"
    by (rule wp_mono) (simp_all add: lawful_undo(2)[OF law r] diff_diff_add_mset[symmetric])
  then show ?case
    unfolding roll_back_snoc using j by (simp add: wp_simps exec_status_def)
qed

lemma rollback_restores:
  fixes I X :: "rule multiset"
  assumes "I \<subseteq># X" and "X \<subseteq># I + K" and "\<forall>r \<in># K. r \<notin># I"
  shows "X - K = I"
proof (rule multiset_eqI)
  fix r
  have 1: "count I r \<le> count X r" "count X r \<le> count I r + count K r"
    using assms(1,2) unfolding subseteq_mset_def count_union[symmetric] by blast+
  have 2: "count K r = 0 \<or> count I r = 0" using assms(3) by (metis not_in_iff)
  show "count (X - K) r = count I r" using 1 2 by auto
qed

lemma run_iptables_spec:
  assumes law: "lawful_gateway e h ins" and plain: "\<forall>r \<in> set rs. plain_rule r"
    and len: "length rollbacks = length rs" and ne: "rs \<noteq> []"
  shows "wp (run_iptables_commands e h (map add_command_of rs) (Some rollbacks))
           (\<lambda>ok s'. ins (calls s') =
              (if ok then ins (calls s) + mset (filter (\<lambda>r. r \<notin># ins (calls s)) rs) else ins (calls s)))
           (\<lambda>_ _. False) s"
proof -
  let ?I = "ins (calls s)"
  let ?abs = "filter (\<lambda>r. r \<notin># ?I) rs"
  let ?post = "\<lambda>ok s'. ins (calls s') = (if ok then ?I + mset ?abs else ?I)"
  have plain': "\<forall>r \<in> set ?abs. plain_rule r" using plain by simp
  have body: "wp (seq (add_rules e h (map trip ?abs) [])
        (\<lambda>(success, attempted). seq (roll_back e h (if success then [] else attempted)) (\<lambda>_. ret success)))
      ?post (\<lambda>_ _. False) t" if t: "ins (calls t) = ?I" for t
    unfolding wp_seq
  proof (rule wp_mono[OF add_rules_spec[OF law plain', of "[]" t]])
    fix x and u :: sys
    assume *: "(fst x \<longrightarrow> ins (calls u) = ins (calls t) + mset ?abs) \<and>
              (\<not> fst x \<longrightarrow> (\<exists>ks. set ks \<subseteq> set ?abs \<and> snd x = [] @ map pair_of ks \<and>
                 ins (calls t) \<subseteq># ins (calls u) \<and> ins (calls u) \<subseteq># ins (calls t) + mset ks))"
    obtain ok att' where x: "x = (ok, att')" by fastforce
    show "wp (case x of (success, attempted) \<Rightarrow>
        seq (roll_back e h (if success then [] else attempted)) (\<lambda>_. ret success)) ?post (\<lambda>_ _. False) u"
    proof (cases ok)
      case True
      then show ?thesis using * x t by (simp add: wp_simps roll_back_def)
    next
      case False
      then obtain ks where ks: "set ks \<subseteq> set ?abs" "att' = map pair_of ks"
          "?I \<subseteq># ins (calls u)" "ins (calls u) \<subseteq># ?I + mset ks" using * x t by auto
      have "ins (calls u) - mset ks = ?I" using ks(1,3,4) by (intro rollback_restores) auto
      moreover have "\<forall>r \<in> set ks. plain_rule r" using ks(1) plain' by auto
      ultimately show ?thesis using False x ks(2) roll_back_spec[OF law, of ks u]
        by (simp add: wp_simps)
    qed
  qed simp
  have "wp (inspect_rules e h (map add_command_of rs))
      (\<lambda>p. wp (case p of None \<Rightarrow> ret False | Some pending \<Rightarrow> seq (add_rules e h pending [])
         (\<lambda>(success, attempted). seq (roll_back e h (if success then [] else attempted)) (\<lambda>_. ret success)))
       ?post (\<lambda>_ _. False)) (\<lambda>_ _. False) s"
    by (rule wp_mono[OF inspect_rules_spec[OF law plain]]) (use body in \<open>auto simp: wp_ret\<close>)
  then show ?thesis using len ne by (auto simp: run_iptables_commands_def wp_seq)
qed

section \<open>The rules of a VM\<close>

definition port_rules :: "string \<Rightarrow> string \<Rightarrow> string \<Rightarrow> int \<Rightarrow> string \<Rightarrow> int \<Rightarrow> rule list" where
  "port_rules src proto gateway public_port vm_ip internal_port =
     [(iptables_base (Some ''nat''), ''PREROUTING'' @ '' '' @ dnat_args src proto gateway public_port vm_ip internal_port),
      (iptables_base None, ''FORWARD'' @ '' '' @ forward_args src proto vm_ip internal_port)]"

fun mapping_rules :: "string \<Rightarrow> string \<Rightarrow> (int \<times> int \<times> string list) list \<Rightarrow> rule list" where
  "mapping_rules gateway vm_ip [] = []"
| "mapping_rules gateway vm_ip ((public_port, internal_port, protos) # ms) =
     concat (map (\<lambda>proto. port_rules [] proto gateway public_port vm_ip internal_port) protos)
     @ mapping_rules gateway vm_ip ms"

lemma port_commands_ADD:
  "port_commands ''ADD'' src proto gateway pp vm_ip ip =
     Inr (map add_command_of (port_rules src proto gateway pp vm_ip ip))"
  by (simp add: port_commands_def iptables_command_ADD port_rules_def del: append_Cons append.simps)

lemma port_commands_DELETE_length:
  "port_commands ''DELETE'' src proto gateway pp vm_ip ip = Inr cs \<Longrightarrow> length cs = 2"
  by (auto simp: port_commands_def iptables_command_def andthen_Inr_iff Let_def)

lemma port_commands_DELETE_Inr: "\<exists>cs. port_commands ''DELETE'' src proto gateway pp vm_ip ip = Inr cs"
  by (auto simp: port_commands_def iptables_command_def Let_def)

lemma mapping_commands_ADD:
  "mapping_commands ''ADD'' g ip ms = Inr cs \<Longrightarrow> cs = map add_command_of (mapping_rules g ip ms)"
proof (induction ms arbitrary: cs)
  case (Cons m ms)
  obtain pp i ps where m: "m = (pp, i, ps)" by (cases m)
  show ?case using Cons.prems unfolding m
  proof (induction ps arbitrary: cs)
    case Nil
    then show ?case using Cons.IH by simp
  next
    case (Cons p ps)
    then show ?case by (auto simp: andthen_Inr_iff port_commands_ADD)
  qed
qed simp

lemma mapping_commands_DELETE:
  "mapping_commands ''ADD'' g ip ms = Inr cs \<Longrightarrow>
   \<exists>ds. mapping_commands ''DELETE'' g ip ms = Inr ds \<and> length ds = length cs"
proof (induction ms arbitrary: cs)
  case (Cons m ms)
  obtain pp i ps where m: "m = (pp, i, ps)" by (cases m)
  show ?case using Cons.prems unfolding m
  proof (induction ps arbitrary: cs)
    case Nil
    then show ?case using Cons.IH by simp
  next
    case (Cons p ps)
    obtain d where d: "port_commands ''DELETE'' [] p g pp ip i = Inr d" "length d = 2"
      using port_commands_DELETE_Inr port_commands_DELETE_length by blast
    from Cons.prems obtain rest where rest: "mapping_commands ''ADD'' g ip ((pp, i, ps) # ms) = Inr rest"
      "cs = map add_command_of (port_rules [] p g pp ip i) @ rest"
      "validate_port pp = Inr pp" "validate_port i = Inr i"
      by (auto simp: andthen_Inr_iff port_commands_ADD validate_port_def split: if_splits)
    from Cons.IH[OF rest(1)] obtain ds where "mapping_commands ''DELETE'' g ip ((pp, i, ps) # ms) = Inr ds"
      "length ds = length rest" by blast
    then show ?case using d rest(2-4) by (simp add: port_rules_def)
  qed
qed simp

text \<open>Texts that cannot end a rule early: addresses the code has checked, ports, protocols.\<close>

definition shell_safe :: "string \<Rightarrow> bool" where
  "shell_safe s \<longleftrightarrow> CHR ''|'' \<notin> set s \<and> CHR ''&'' \<notin> set s"

lemma shell_safe_append [simp]: "shell_safe (a @ b) \<longleftrightarrow> shell_safe a \<and> shell_safe b"
  by (auto simp: shell_safe_def)

lemma bars_not_digits: "\<not> is_digit (CHR ''|'')" "\<not> is_digit (CHR ''&'')"
  by (simp_all add: is_digit_def digits_def)

lemma shell_safe_digits: "list_all is_digit s \<Longrightarrow> shell_safe s"
  using bars_not_digits by (auto simp: shell_safe_def list_all_iff)

lemma shell_safe_show_int [simp]: "shell_safe (show_int i)"
proof -
  have "shell_safe ''-''" by (simp add: shell_safe_def)
  then show ?thesis
    unfolding show_int_def using shell_safe_digits[OF show_nat_digits]
    by (simp only: shell_safe_append split: if_splits) simp
qed

lemma shell_safe_ip:
  assumes "validate_ip ip = Inr r"
  shows "shell_safe ip"
proof -
  have "\<forall>c \<in> set ip. is_digit c \<or> c = CHR ''.'' \<or> c = newline" using validate_ip_chars[OF assms] by simp
  moreover have "CHR ''|'' \<noteq> newline" "CHR ''&'' \<noteq> newline" "CHR ''|'' \<noteq> CHR ''.''" "CHR ''&'' \<noteq> CHR ''.''"
    by (simp_all add: newline_def)
  ultimately show ?thesis unfolding shell_safe_def using bars_not_digits by blast
qed

lemma port_rules_plain:
  assumes "shell_safe src" "shell_safe proto" "shell_safe g" "shell_safe ip"
  shows "\<forall>r \<in> set (port_rules src proto g pp ip i). plain_rule r"
proof -
  have "shell_safe (''PREROUTING'' @ '' '' @ dnat_args src proto g pp ip i)"
    "shell_safe (''FORWARD'' @ '' '' @ forward_args src proto ip i)"
    using assms unfolding dnat_args_def forward_args_def
    by (simp_all only: shell_safe_append shell_safe_show_int) (simp_all add: shell_safe_def)
  then show ?thesis
    unfolding port_rules_def plain_rule_def bases_def shell_safe_def by simp
qed

lemma mapping_rules_plain:
  assumes "\<forall>(pp, i, ps) \<in> set ms. list_all shell_safe ps" "shell_safe g" "shell_safe ip"
  shows "\<forall>r \<in> set (mapping_rules g ip ms). plain_rule r"
  using assms
proof (induction ms)
  case (Cons m ms)
  obtain pp i ps where m: "m = (pp, i, ps)" by (cases m)
  have "\<forall>p \<in> set ps. \<forall>r \<in> set (port_rules [] p g pp ip i). plain_rule r"
    using Cons.prems m port_rules_plain[of "[]" _ g ip] by (auto simp: list_all_iff shell_safe_def)
  then show ?case using Cons m by auto
qed simp

section \<open>A whole VM: all rules or none\<close>

text \<open>No call but a command on the gateway itself changes its rules.\<close>

definition inert_elsewhere :: "string \<Rightarrow> (call list \<Rightarrow> rule multiset) \<Rightarrow> bool" where
  "inert_elsewhere h installed \<longleftrightarrow>
     (\<forall>hist c. (\<forall>cmd. c \<noteq> SshExec h cmd) \<longrightarrow> installed (hist @ [c]) = installed hist)"

lemma inertD: "inert_elsewhere h ins \<Longrightarrow> (\<And>cmd. c \<noteq> SshExec h cmd) \<Longrightarrow> ins (hist @ [c]) = ins hist"
  by (simp add: inert_elsewhere_def)

lemma backup_inert:
  assumes "inert_elsewhere h ins" and "ins (calls s) = I"
  shows "wp (backup_iptables e ip) (\<lambda>_ s'. ins (calls s') = I) (\<lambda>_ _. False) s"
  using assms by (auto simp: backup_iptables_def wp_simps inertD)

lemma with_gateway_spec:
  assumes law: "lawful_gateway e h ins" and inert: "inert_elsewhere h ins"
    and plain: "\<forall>r \<in> set rs. plain_rule r"
    and len: "length rollbacks = length rs" and ne: "rs \<noteq> []"
  shows "wp (with_gateway e h user (map add_command_of rs) (Some rollbacks))
           (\<lambda>ok s'. ins (calls s') =
              (if ok then ins (calls s) + mset (filter (\<lambda>r. r \<notin># ins (calls s)) rs) else ins (calls s)))
           (\<lambda>_ _. False) s"
proof -
  let ?s = "called e (SshConnect h user) s"
  let ?post = "\<lambda>ok s'. ins (calls s') =
      (if ok then ins (calls s) + mset (filter (\<lambda>r. r \<notin># ins (calls s)) rs) else ins (calls s))"
  have i: "ins (calls ?s) = ins (calls s)" using inertD[OF inert] by simp
  have "wp (run_iptables_commands e h (map add_command_of rs) (Some rollbacks)) ?post (\<lambda>_ _. False) ?s"
    using run_iptables_spec[OF law plain len ne, of ?s] unfolding i .
  then have "wp (run_iptables_commands e h (map add_command_of rs) (Some rollbacks))
     (\<lambda>success. wp (seq (if success then backup_iptables e h else ret ()) (\<lambda>_. ret success)) ?post (\<lambda>_ _. False))
     (\<lambda>_ _. False) ?s"
    by (rule wp_mono) (auto simp: wp_simps intro!: wp_mono[OF backup_inert[OF inert refl]])
  then show ?thesis using i
    unfolding with_gateway_def
    by (simp only: wp_catch wp_seq wp_ext wp_ret) (auto elim!: wp_mono)
qed

text \<open>The rules that forward the public ports of the VM with this Proxmox id.\<close>

definition vm_rules :: "env \<Rightarrow> ports \<Rightarrow> string \<Rightarrow> rule list" where
  "vm_rules e ps vm_ip = mapping_rules (GATEWAY_PUBLIC_IP (conf e)) vm_ip (port_mapping ps)"

lemma vm_rules_nonempty: "vm_rules e ps ip \<noteq> []"
  by (simp add: vm_rules_def port_mapping_def port_rules_def)

lemma vm_rules_plain:
  "validate_ip ip = Inr r \<Longrightarrow> validate_ip (GATEWAY_PUBLIC_IP (conf e)) = Inr r' \<Longrightarrow>
   \<forall>r \<in> set (vm_rules e ps ip). plain_rule r"
  unfolding vm_rules_def
  by (rule mapping_rules_plain) (auto simp: port_mapping_def shell_safe_ip, auto simp: shell_safe_def)

lemma gateway_ofD: "gateway_of srv = Some (h, u) \<Longrightarrow> srv_gateway_ip srv = Some h"
  by (auto simp: gateway_of_def split: option.splits if_splits)

lemma manage_iptables_ADD_spec:
  assumes law: "lawful_gateway e h ins" and inert: "inert_elsewhere h ins"
    and gw: "srv_gateway_ip srv = Some h"
  shows "wp (manage_iptables e srv vmid vm_ip ''ADD'')
           (\<lambda>ok s'. (ok \<longrightarrow> (\<exists>ps. calculate_ports (srv_base_port srv) vmid = Inr ps \<and>
                ins (calls s') = ins (calls s) +
                  mset (filter (\<lambda>r. r \<notin># ins (calls s)) (vm_rules e ps vm_ip)))) \<and>
              (\<not> ok \<longrightarrow> ins (calls s') = ins (calls s)))
           (\<lambda>_ s'. calls s' = calls s) s"
proof -
  have main: "wp (with_gateway e ip user commands (Some rollbacks))
      (\<lambda>ok s'. (ok \<longrightarrow> ins (calls s') = ins (calls s) +
            mset (filter (\<lambda>r. r \<notin># ins (calls s)) (vm_rules e ps vm_ip))) \<and>
          (\<not> ok \<longrightarrow> ins (calls s') = ins (calls s)))
      (\<lambda>_ s'. calls s' = calls s) s"
    if v: "validate_ip vm_ip = Inr a" "validate_ip (GATEWAY_PUBLIC_IP (conf e)) = Inr b"
      and g: "gateway_of srv = Some (ip, user)"
      and c: "mapping_commands ''ADD'' (GATEWAY_PUBLIC_IP (conf e)) vm_ip (port_mapping ps) = Inr commands"
      and d: "mapping_commands ''DELETE'' (GATEWAY_PUBLIC_IP (conf e)) vm_ip (port_mapping ps) = Inr rollbacks"
    for a b ip user ps commands rollbacks
  proof -
    have h: "ip = h" using gateway_ofD[OF g] gw by simp
    have cs: "commands = map add_command_of (vm_rules e ps vm_ip)"
      unfolding vm_rules_def by (rule mapping_commands_ADD[OF c])
    have len: "length rollbacks = length (vm_rules e ps vm_ip)"
      using mapping_commands_DELETE[OF c] d cs by auto
    show ?thesis
      unfolding h cs
      by (rule wp_mono[OF with_gateway_spec[OF law inert vm_rules_plain[OF v] len vm_rules_nonempty]]) auto
  qed
  show ?thesis
    unfolding manage_iptables_def by (auto simp: wp_simps intro!: wp_mono[OF main])
qed

section \<open>A gateway that behaves as documented\<close>

text \<open>The gateway of the witnesses: it reads a command back into a rule and keeps the rules added.\<close>

definition sim_kind :: "string \<Rightarrow> string \<Rightarrow> (char \<times> rule) option" where
  "sim_kind base rest =
     (if length rest < 3 then None
      else case split_once '' && '' (drop 3 rest) of
          None \<Rightarrow> Some (rest ! 1, (base, drop 3 rest))
        | Some (a, b) \<Rightarrow> Some (CHR ''D'', (base, a)))"

definition sim_parse :: "string \<Rightarrow> (char \<times> rule) option" where
  "sim_parse cmd =
     (if prefix (iptables_base (Some ''nat'')) cmd
      then sim_kind (iptables_base (Some ''nat'')) (drop 21 cmd)
      else if prefix (iptables_base None) cmd then sim_kind (iptables_base None) (drop 14 cmd)
      else None)"

definition sim_step :: "string \<Rightarrow> rule multiset \<Rightarrow> call \<Rightarrow> rule multiset" where
  "sim_step h I c = (case c of
       SshExec g cmd \<Rightarrow>
         if g \<noteq> h then I else (case sim_parse cmd of
             None \<Rightarrow> I
           | Some (k, r) \<Rightarrow> if k = CHR ''A'' then I + {#r#} else if k = CHR ''D'' then I - {#r#} else I)
     | _ \<Rightarrow> I)"

definition sim_rules :: "string \<Rightarrow> call list \<Rightarrow> rule multiset" where
  "sim_rules h hist = foldl (sim_step h) {#} hist"

definition sim_answer :: "string \<Rightarrow> call list \<Rightarrow> call \<Rightarrow> exn + json" where
  "sim_answer h hist c = (case c of
       SshExec g cmd \<Rightarrow> (case sim_parse cmd of
           None \<Rightarrow> Inr (JInt 127)
         | Some (k, r) \<Rightarrow> Inr (JInt (if k = CHR ''C'' \<and> r \<notin># sim_rules h hist then 1 else 0)))
     | SshRead g cmd \<Rightarrow> Inr (JStr ''rules'')
     | _ \<Rightarrow> Inr JNull)"

lemma split_once_amp: "CHR ''&'' \<notin> set a \<Longrightarrow> split_once '' && '' (a @ '' && '' @ b) = Some (a, b)"
proof (induction a)
  case (Cons c a)
  have "\<not> prefix '' && '' (c # a @ '' && '' @ b)"
    using Cons.prems by (cases a) auto
  then show ?case using Cons by simp
qed simp

lemma split_once_no_amp: "CHR ''&'' \<notin> set a \<Longrightarrow> split_once '' && '' a = None"
proof (induction a)
  case (Cons c a)
  have "\<not> prefix '' && '' (c # a)" using Cons.prems by (cases a) auto
  then show ?case using Cons by simp
qed simp

lemma sim_parse_base:
  assumes "b \<in> bases" and "k \<noteq> CHR ''t''"
  shows "sim_parse (b @ CHR ''-'' # k # CHR '' '' # x) = sim_kind b (CHR ''-'' # k # CHR '' '' # x)"
proof -
  consider "b = ''sudo iptables ''" | "b = ''sudo iptables -t nat ''"
    using assms(1) by (auto simp: bases_def iptables_base_def)
  then show ?thesis using assms(2) by cases (simp_all add: sim_parse_def iptables_base_def)
qed

lemma sim_parse_cases:
  assumes "plain_rule r"
  shows "sim_parse (check_of r) = Some (CHR ''C'', r)"
    and "sim_parse (add_of r) = Some (CHR ''A'', r)"
    and "sim_parse (undo_of r) = Some (CHR ''D'', r)"
proof -
  obtain b t where r: "r = (b, t)" by (cases r)
  then have t: "CHR ''&'' \<notin> set t" and b: "b \<in> bases"
    using assms by (auto simp: plain_rule_def)
  note k = sim_parse_base[OF b] sim_kind_def split_once_no_amp[OF t] split_once_amp[OF t, simplified]
  show "sim_parse (check_of r) = Some (CHR ''C'', r)" "sim_parse (add_of r) = Some (CHR ''A'', r)"
    "sim_parse (undo_of r) = Some (CHR ''D'', r)"
    by (simp_all add: r check_of_def add_of_def undo_of_def check_cmd_def add_cmd_def k)
qed

lemma sim_rules_snoc: "sim_rules h (hist @ [c]) = sim_step h (sim_rules h hist) c"
  by (simp add: sim_rules_def)

lemma sim_lawful: "lawful_gateway (sample_env (sim_answer h)) h (sim_rules h)"
  unfolding lawful_gateway_def
  by (auto simp: sample_env_def sim_answer_def sim_rules_snoc sim_step_def sim_parse_cases)

lemma sim_inert: "inert_elsewhere h (sim_rules h)"
  by (auto simp: inert_elsewhere_def sim_rules_snoc sim_step_def split: call.splits)

section \<open>Properties of the gateway component\<close>


definition sample_ports :: ports where
  "sample_ports = \<lparr>ssh_port = 21105, svc1_port = 22105, svc2_port = 23105\<rparr>"

definition sample_add :: "(exn + bool) \<times> sys" where
  "sample_add = manage_iptables (sample_env (sim_answer ''10.0.0.1'')) sample_server 105 ''10.0.0.105'' ''ADD''
     (sample_state empty_database)"

lemma sim_exec:
  assumes "plain_rule r"
  shows "answer (sample_env (sim_answer h)) hist (SshExec h (check_of r)) =
           Inr (JInt (if r \<in># sim_rules h hist then 0 else 1))"
    and "answer (sample_env (sim_answer h)) hist (SshExec h (add_of r)) = Inr (JInt 0)"
  by (simp_all add: sample_env_def sim_answer_def sim_parse_cases[OF assms])

lemma sim_inspect:
  "\<forall>r \<in> set rs. plain_rule r \<Longrightarrow>
   wp (inspect_rules (sample_env (sim_answer h)) h (map add_command_of rs)) (\<lambda>p _. p \<noteq> None) (\<lambda>_ _. False) s"
proof (induction rs arbitrary: s)
  case (Cons r rs)
  then have r: "plain_rule r" by simp
  have IH: "wp (inspect_rules (sample_env (sim_answer h)) h (map add_command_of rs)) (\<lambda>p _. p \<noteq> None) (\<lambda>_ _. False) t" for t
    by (rule Cons.IH) (use Cons.prems in simp)
  show ?case
    by (auto simp: wp_simps exec_status_def split_add_command[OF r] sim_exec[OF r] intro!: wp_mono[OF IH])
qed (simp add: wp_simps)

lemma sim_add:
  "\<forall>r \<in> set rs. plain_rule r \<Longrightarrow>
   wp (add_rules (sample_env (sim_answer h)) h (map trip rs) att) (\<lambda>x _. fst x) (\<lambda>_ _. False) s"
proof (induction rs arbitrary: s att)
  case (Cons r rs)
  then have r: "plain_rule r" by simp
  show ?case
    using Cons.IH Cons.prems by (auto simp: trip_def wp_simps exec_status_def sim_exec[OF r])
qed (simp add: wp_simps)

lemma sim_run:
  assumes plain: "\<forall>r \<in> set rs. plain_rule r" and "length rb = length rs" and "rs \<noteq> []"
  shows "wp (with_gateway (sample_env (sim_answer h)) h u (map add_command_of rs) (Some rb))
           (\<lambda>ok _. ok) (\<lambda>_ _. False) s"
proof -
  let ?e = "sample_env (sim_answer h)"
  have backup: "wp (backup_iptables ?e h) (\<lambda>_ _. True) (\<lambda>_ _. False) t" for t
    by (simp add: backup_iptables_def wp_simps)
  have inspect: "wp (inspect_rules ?e h (map add_command_of rs))
      (\<lambda>p _. \<exists>ks. p = Some (map trip ks) \<and> (\<forall>r \<in> set ks. plain_rule r)) (\<lambda>_ _. False) t" for t
    by (rule wp_mono[OF wp_conj[OF inspect_rules_spec[OF sim_lawful plain] sim_inspect[OF plain]]])
      (use plain in auto)
  have rest: "wp (seq (add_rules ?e h (map trip ks) []) (\<lambda>(success, attempted).
      seq (roll_back ?e h (if success then [] else attempted)) (\<lambda>_. ret success))) (\<lambda>ok _. ok) (\<lambda>_ _. False) t"
    if "\<forall>r \<in> set ks. plain_rule r" for ks t
    unfolding wp_seq
    by (rule wp_mono[OF sim_add[OF that]]) (auto simp: wp_simps roll_back_def)
  have "wp (run_iptables_commands ?e h (map add_command_of rs) (Some rb)) (\<lambda>ok _. ok) (\<lambda>_ _. False) t" for t
    using assms(2,3) rest by (auto simp: run_iptables_commands_def wp_seq intro!: wp_mono[OF inspect])
  note run = this
  have "wp (seq (run_iptables_commands ?e h (map add_command_of rs) (Some rb)) (\<lambda>success.
      seq (if success then backup_iptables ?e h else ret ()) (\<lambda>_. ret success))) (\<lambda>ok _. ok) (\<lambda>_ _. False) t" for t
    unfolding wp_seq by (rule wp_mono[OF run]) (auto simp: wp_simps intro!: wp_mono[OF backup])
  then show ?thesis
    unfolding with_gateway_def by (simp add: wp_catch wp_seq[of "ext _ _"] wp_ext wp_ret sample_env_def sim_answer_def)
qed

lemma sample_ports_eq: "calculate_ports 21000 105 = Inr sample_ports"
  by (simp add: calculate_ports_Inr sample_ports_def)

lemma sample_add_ok: "fst sample_add = Inr True"
proof -
  let ?e = "sample_env (sim_answer ''10.0.0.1'')"
  have ip: "validate_ip ''1.2.3.4'' = Inr ''1.2.3.4''" "validate_ip ''10.0.0.105'' = Inr ''10.0.0.105''"
    by code_simp+
  have pub: "GATEWAY_PUBLIC_IP (conf ?e) = ''1.2.3.4''" by (simp add: sample_env_def sample_settings_def)
  obtain cs where cs: "mapping_commands ''ADD'' ''1.2.3.4'' ''10.0.0.105'' (port_mapping sample_ports) = Inr cs"
    by (simp add: port_mapping_def sample_ports_def port_commands_ADD validate_port_def)
  obtain ds where ds: "mapping_commands ''DELETE'' ''1.2.3.4'' ''10.0.0.105'' (port_mapping sample_ports) = Inr ds"
    "length ds = length cs" using mapping_commands_DELETE[OF cs] by blast
  have gw: "gateway_of sample_server = Some (''10.0.0.1'', ''gw'')" "srv_base_port sample_server = 21000"
    by (simp_all add: gateway_of_def sample_server_def)
  have cs': "cs = map add_command_of (vm_rules ?e sample_ports ''10.0.0.105'')"
    unfolding vm_rules_def pub by (rule mapping_commands_ADD[OF cs])
  have "wp (with_gateway ?e ''10.0.0.1'' ''gw'' cs (Some ds)) (\<lambda>ok _. ok) (\<lambda>_ _. False) (sample_state empty_database)"
    unfolding cs' by (rule sim_run[OF vm_rules_plain])
      (use ip ds(2) cs' in \<open>simp_all add: pub vm_rules_nonempty\<close>)
  then have "wp (manage_iptables ?e sample_server 105 ''10.0.0.105'' ''ADD'') (\<lambda>ok _. ok) (\<lambda>_ _. False)
      (sample_state empty_database)"
    by (simp add: manage_iptables_def wp_simps pub ip gw sample_ports_eq cs ds)
  then show ?thesis by (auto simp: sample_add_def wp_def split: prod.splits sum.splits)
qed


text \<open>
  Two VMs of one server get a public port in common exactly when their Proxmox ids are equal or differ
  by 1000 or 2000: the three ports of an id are spaced by 1000 and ids are not kept apart.
\<close>

theorem calculate_ports_collide:
  assumes "calculate_ports base_port v = Inr p" and "calculate_ports base_port w = Inr q"
  shows "set (port_values p) \<inter> set (port_values q) \<noteq> {} \<longleftrightarrow> v - w \<in> {0, 1000, -1000, 2000, -2000}"
proof -
  have three: "{c + x, c + 1000 + x, c + 2000 + x} \<inter> {c + y, c + 1000 + y, c + 2000 + y} \<noteq> {} \<longleftrightarrow>
      x - y \<in> {0, 1000, -1000, 2000, -2000}" for c x y :: int
  proof -
    have "{c + x, c + 1000 + x, c + 2000 + x} \<inter> {c + y, c + 1000 + y, c + 2000 + y} \<noteq> {} \<longleftrightarrow>
        (\<exists>z. (z = c + x \<or> z = c + 1000 + x \<or> z = c + 2000 + x) \<and> (z = c + y \<or> z = c + 1000 + y \<or> z = c + 2000 + y))"
      by (simp only: ex_in_conv[symmetric] Int_iff insert_iff empty_iff simp_thms)
    then show ?thesis unfolding insert_iff empty_iff by presburger
  qed
  have "set (port_values p) = {base_port + v, base_port + 1000 + v, base_port + 2000 + v}"
    "set (port_values q) = {base_port + w, base_port + 1000 + w, base_port + 2000 + w}"
    using assms by (simp_all add: calculate_ports_Inr port_values_def)
  then show ?thesis using three[of base_port v w] by simp
qed

lemma calculate_ports_collide_witness:
  "set (port_values sample_ports) \<inter>
   set (port_values \<lparr>ssh_port = 22105, svc1_port = 23105, svc2_port = 24105\<rparr>) \<noteq> {}"
proof -
  have "calculate_ports 21000 1105 = Inr \<lparr>ssh_port = 22105, svc1_port = 23105, svc2_port = 24105\<rparr>"
    by (simp add: calculate_ports_Inr)
  from calculate_ports_collide[OF sample_ports_eq this] show ?thesis by simp
qed

lemma octet_range_iff: "short_digits p \<Longrightarrow> in_octet_range p \<longleftrightarrow> parse_nat p \<le> 255"
proof -
  assume p: "short_digits p"
  then have "py_strip p = p"
    by (auto simp: short_digits_def list_all_iff intro!: py_strip_no_space digit_not_space)
  then show ?thesis using p by (auto simp: in_octet_range_def py_int_def short_digits_def Let_def)
qed

lemma octet_range_newline: "short_digits p \<Longrightarrow> in_octet_range (p @ [newline]) \<longleftrightarrow> parse_nat p \<le> 255"
proof -
  assume p: "short_digits p"
  then have ns: "\<forall>c \<in> set p. \<not> is_space c" and ne: "p \<noteq> []"
    by (auto simp: short_digits_def list_all_iff digit_not_space)
  have sp: "is_space newline" by (simp add: is_space_def newline_def)
  have "py_strip (p @ [newline]) = p"
  proof -
    have 1: "dropWhile is_space (p @ [newline]) = p @ [newline]"
      using ns ne by (cases p) auto
    have 2: "dropWhile is_space (rev p) = rev p"
      using ns ne by (intro dropWhile_id_hd) (simp add: hd_rev)
    show ?thesis unfolding py_strip_def 1 using sp 2 by simp
  qed
  then show ?thesis using p by (auto simp: in_octet_range_def py_int_def short_digits_def Let_def)
qed

lemma dotted_quad_join: "dotted_quad t \<longleftrightarrow>
  (\<exists>a b c d. t = a @ ''.'' @ b @ ''.'' @ c @ ''.'' @ d \<and> list_all short_digits [a, b, c, d])"
proof
  assume q: "dotted_quad t"
  then obtain a b c d where s: "split_char (CHR ''.'') t = [a, b, c, d]"
    by (auto simp: dotted_quad_def Let_def length_Suc_conv numeral_eq_Suc)
  have "t = join ''.'' [a, b, c, d]" using join_split_char[of "CHR ''.''" t] s by simp
  then show "\<exists>a b c d. t = a @ ''.'' @ b @ ''.'' @ c @ ''.'' @ d \<and> list_all short_digits [a, b, c, d]"
    using q s by (auto simp: dotted_quad_def Let_def)
next
  assume "\<exists>a b c d. t = a @ ''.'' @ b @ ''.'' @ c @ ''.'' @ d \<and> list_all short_digits [a, b, c, d]"
  then obtain a b c d where t: "t = a @ ''.'' @ b @ ''.'' @ c @ ''.'' @ d" "list_all short_digits [a, b, c, d]"
    by blast
  then have "CHR ''.'' \<notin> set a" "CHR ''.'' \<notin> set b" "CHR ''.'' \<notin> set c" "CHR ''.'' \<notin> set d"
    by (simp_all add: short_digits_def dot_not_digit)
  then have "split_char (CHR ''.'') t = [a, b, c, d]"
    by (simp add: t(1) split_char_append split_char_none)
  then show "dotted_quad t" using t(2) by (simp add: dotted_quad_def)
qed

lemma split_char_snoc:
  "c \<noteq> x \<Longrightarrow> split_char x s = ps @ [p] \<Longrightarrow> split_char x (s @ [c]) = ps @ [p @ [c]]"
proof (induction s arbitrary: ps p)
  case (Cons a s)
  obtain qs q where q: "split_char x s = qs @ [q]"
    by (metis rev_exhaust split_char_nonempty)
  show ?case using Cons.prems Cons.IH[OF Cons.prems(1) q] q by (cases qs) (auto split: if_splits)
qed simp

text \<open>
  What \<open>_validate_ip\<close> accepts, exactly: four groups of one to three decimal digits, each at most 255,
  separated by dots, optionally followed by one line feed, because the \<open>$\<close> of the pattern also matches
  before a final line feed. Leading zeroes are accepted. Nothing else is.
\<close>

theorem validate_ip_accepts:
  "validate_ip ip = Inr ip \<longleftrightarrow>
     (\<exists>a b c d t. t = a @ ''.'' @ b @ ''.'' @ c @ ''.'' @ d \<and> (ip = t \<or> ip = t @ [newline]) \<and>
        list_all (\<lambda>p. short_digits p \<and> parse_nat p \<le> 255) [a, b, c, d])"
proof -
  have nl: "newline \<noteq> CHR ''.''" by (simp add: newline_def)
  have quad: "validate_ip t = Inr t \<longleftrightarrow> list_all (\<lambda>p. parse_nat p \<le> 255) [a, b, c, d]"
      and quad_nl: "validate_ip (t @ [newline]) = Inr (t @ [newline]) \<longleftrightarrow>
        list_all (\<lambda>p. parse_nat p \<le> 255) [a, b, c, d]"
    if t: "t = a @ ''.'' @ b @ ''.'' @ c @ ''.'' @ d" "list_all short_digits [a, b, c, d]" for t a b c d
  proof -
    have q: "dotted_quad t" using dotted_quad_join t by blast
    have "CHR ''.'' \<notin> set a" "CHR ''.'' \<notin> set b" "CHR ''.'' \<notin> set c" "CHR ''.'' \<notin> set d"
      using t(2) by (simp_all add: short_digits_def dot_not_digit)
    then have s: "split_char (CHR ''.'') t = [a, b, c] @ [d]"
      by (simp add: t(1) split_char_append split_char_none)
    show "validate_ip t = Inr t \<longleftrightarrow> list_all (\<lambda>p. parse_nat p \<le> 255) [a, b, c, d]"
      using q t(2) s by (simp add: validate_ip_def matches_ip_pattern_def octet_range_iff)
    show "validate_ip (t @ [newline]) = Inr (t @ [newline]) \<longleftrightarrow>
        list_all (\<lambda>p. parse_nat p \<le> 255) [a, b, c, d]"
      using q t(2) split_char_snoc[OF nl s]
      by (simp add: validate_ip_def matches_ip_pattern_def octet_range_iff octet_range_newline)
  qed
  show ?thesis
  proof
    assume v: "validate_ip ip = Inr ip"
    then have "matches_ip_pattern ip" by (auto simp: validate_ip_def split: if_splits)
    then obtain t where t: "dotted_quad t" "ip = t \<or> ip = t @ [newline]"
      unfolding matches_ip_pattern_def by (metis append_butlast_last_id)
    then obtain a b c d where abcd: "t = a @ ''.'' @ b @ ''.'' @ c @ ''.'' @ d" "list_all short_digits [a, b, c, d]"
      using dotted_quad_join by blast
    have "list_all (\<lambda>p. parse_nat p \<le> 255) [a, b, c, d]"
      using v t(2) quad[OF abcd] quad_nl[OF abcd] by auto
    then show "\<exists>a b c d t. t = a @ ''.'' @ b @ ''.'' @ c @ ''.'' @ d \<and> (ip = t \<or> ip = t @ [newline]) \<and>
        list_all (\<lambda>p. short_digits p \<and> parse_nat p \<le> 255) [a, b, c, d]"
      using abcd t(2) by (intro exI[of _ a] exI[of _ b] exI[of _ c] exI[of _ d] exI[of _ t]) simp
  next
    assume "\<exists>a b c d t. t = a @ ''.'' @ b @ ''.'' @ c @ ''.'' @ d \<and> (ip = t \<or> ip = t @ [newline]) \<and>
        list_all (\<lambda>p. short_digits p \<and> parse_nat p \<le> 255) [a, b, c, d]"
    then obtain a b c d t where *: "t = a @ ''.'' @ b @ ''.'' @ c @ ''.'' @ d" "ip = t \<or> ip = t @ [newline]"
      "list_all (\<lambda>p. short_digits p \<and> parse_nat p \<le> 255) [a, b, c, d]" by blast
    then have sd: "list_all short_digits [a, b, c, d]" by simp
    show "validate_ip ip = Inr ip" using * quad[OF *(1) sd] quad_nl[OF *(1) sd] by auto
  qed
qed

lemma try_random_port_run:
  assumes "try_random_port e n lo hi s = (r, s')" and "lo \<le> hi"
  shows "db s' = db s \<and>
    (case r of
       Inr port \<Rightarrow> lo \<le> port \<and> port \<le> hi \<and> port \<notin> p_external_port ` set (vm_ports (db s))
     | Inl x \<Rightarrow> x = RuntimeError ''no-port'' \<and>
         (\<forall>i < n. lo + int (entropy e (rng s + i) mod nat (hi - lo + 1)) \<in> p_external_port ` set (vm_ports (db s))))"
  using assms(1)
proof (induction n arbitrary: s)
  case 0
  then show ?case by (auto simp: raise_def)
next
  case (Suc n)
  let ?k = "entropy e (rng s) mod nat (hi - lo + 1)"
  let ?s = "s\<lparr>rng := rng s + 1\<rparr>"
  let ?used = "p_external_port ` set (vm_ports (db s))"
  have "?k < nat (hi - lo + 1)" using assms(2) by (intro mod_less_divisor) simp
  then have k: "int ?k < hi - lo + 1" by linarith
  show ?case
  proof (cases "lo + int ?k \<in> ?used")
    case True
    then have "\<exists>p \<in> set (vm_ports (db s)). p_external_port p = lo + int ?k" by force
    then have run: "try_random_port e n lo hi ?s = (r, s')"
      using Suc.prems by (simp add: seq_def draw_def gets_def Let_def)
    have all: "\<forall>i < Suc n. lo + int (entropy e (rng s + i) mod nat (hi - lo + 1)) \<in> ?used"
      if "\<forall>i < n. lo + int (entropy e (rng ?s + i) mod nat (hi - lo + 1)) \<in> ?used"
      using that True by (simp add: less_Suc_eq_0_disj) auto
    show ?thesis using Suc.IH[OF run] all by (cases r) auto
  next
    case False
    then have "\<not> (\<exists>p \<in> set (vm_ports (db s)). p_external_port p = lo + int ?k)" by force
    then have "r = Inr (lo + int ?k)" "db s' = db s"
      using Suc.prems by (auto simp: seq_def draw_def gets_def Let_def ret_def)
    then show ?thesis using False k by simp
  qed
qed

lemma port_span: "nat (39999 - 30000 + 1) = 10000"
  by simp

text \<open>
  A random external port is in 30000..39999 and is not in use by any VM; the allocator fails only
  when all of its 100 draws hit a port in use, and it never changes the database.
\<close>

theorem allocate_random_port_free:
  assumes "allocate_random_port e s = (r, s')"
  shows "db s' = db s \<and>
    (case r of
       Inr port \<Rightarrow> 30000 \<le> port \<and> port \<le> 39999 \<and> port \<notin> p_external_port ` set (vm_ports (db s))
     | Inl x \<Rightarrow> x = RuntimeError ''no-port'' \<and>
         (\<forall>i < 100. 30000 + int (entropy e (rng s + i) mod 10000) \<in> p_external_port ` set (vm_ports (db s))))"
  using try_random_port_run[OF assms[unfolded allocate_random_port_def]] unfolding port_span by simp

lemma allocate_random_port_free_witness:
  "fst (allocate_random_port (sample_env agreeing) (sample_state empty_database)) = Inr 30000 \<and>
   (30000::int) \<notin> p_external_port ` set (vm_ports empty_database)"
proof -
  have run: "allocate_random_port (sample_env agreeing) (sample_state empty_database) =
      (Inr 30000, (sample_state empty_database)\<lparr>rng := 1\<rparr>)"
    using try_random_port.simps(2)[of "sample_env agreeing" 99 30000 39999]
    by (simp add: allocate_random_port_def seq_def draw_def gets_def ret_def sample_defs)
  show ?thesis using allocate_random_port_free[OF run] run by (simp add: sample_state_def)
qed

end
