(* ===== verification/Schemas.thy ===== *)
theory Schemas
  imports IpAddress
begin

text \<open>
  The request validators: \<open>schemas/user_schema.py\<close>, \<open>schemas/vm_schema.py\<close>, \<open>schemas/fw_schema.py\<close>,
  \<open>schemas/https_schema.py\<close> and \<open>caddy_service.validate_subdomain\<close>. A validator returns the value it
  stores, or the \<open>ValueError\<close> that FastAPI turns into a 422 response.
\<close>

section \<open>Patterns\<close>

text \<open>
  A Python pattern that ends in \<open>$\<close>, used with \<open>re.match\<close>: \<open>body\<close> matches the string, or the string
  without the line feed that ends it.
\<close>

definition match_dollar :: "(string \<Rightarrow> bool) \<Rightarrow> string \<Rightarrow> bool" where
  "match_dollar body s \<longleftrightarrow> body s \<or> (s \<noteq> [] \<and> last s = newline \<and> body (butlast s))"

definition is_lower :: "char \<Rightarrow> bool" where "is_lower c \<longleftrightarrow> c \<in> set ascii_lowercase"
definition is_letter :: "char \<Rightarrow> bool" where "is_letter c \<longleftrightarrow> c \<in> set ascii_letters"
definition is_alnum :: "char \<Rightarrow> bool" where "is_alnum c \<longleftrightarrow> is_letter c \<or> is_digit c"

section \<open>Passwords (user_schema.py)\<close>

definition MAX_PASSWORD_BYTES :: nat where "MAX_PASSWORD_BYTES = 72"

definition pw_specials :: string where
  "pw_specials = ''!@#$%^&*()_+-=[]{}|;:'' @ [CHR 0x27, CHR 0x22] @ '',.<>?/~`''"

text \<open>\<open>_PW_PATTERN\<close>: the dots of the pattern do not match a line feed, so the three lookaheads stay in the first line.\<close>

definition pw_line :: "string \<Rightarrow> bool" where
  "pw_line s \<longleftrightarrow> newline \<notin> set s \<and> 8 \<le> cp_len s \<and>
     list_ex is_letter s \<and> list_ex is_digit s \<and> list_ex (\<lambda>c. c \<in> set pw_specials) s"

definition validate_pw :: "string \<Rightarrow> exn + string" where
  "validate_pw v =
     (if \<not> match_dollar pw_line v then Inl (ValueError ''weak-password'')
      else if MAX_PASSWORD_BYTES < length v then Inl (ValueError ''long-password'')
      else Inr v)"

definition RESET_ROLES :: "string set" where
  "RESET_ROLES = {''user'', ''project_owner''}"

definition validate_login_role :: "string \<Rightarrow> exn + string" where
  "validate_login_role v = (if v \<notin> RESET_ROLES then Inl (ValueError ''bad-login-role'') else Inr v)"

section \<open>VM requests (vm_schema.py)\<close>

definition name_chars :: "string \<Rightarrow> bool" where
  "name_chars s \<longleftrightarrow> s \<noteq> [] \<and> is_alnum (hd s) \<and>
     list_all (\<lambda>c. is_alnum c \<or> c = CHR ''_'' \<or> c = CHR ''-'') (tl s)"

definition validate_name :: "string option \<Rightarrow> exn + string option" where
  "validate_name v = (case v of
       None \<Rightarrow> Inr None
     | Some n \<Rightarrow>
         if 40 < cp_len n then Inl (ValueError ''long-name'')
         else if \<not> match_dollar name_chars n then Inl (ValueError ''bad-name'')
         else Inr (Some n))"

definition validate_purpose :: "string \<Rightarrow> exn + string" where
  "validate_purpose v0 =
     (let v = py_strip v0 in
      if v = [] then Inl (ValueError ''no-purpose'')
      else if 100 < cp_len v then Inl (ValueError ''long-purpose'')
      else Inr v)"

definition vm_create :: "vm_request \<Rightarrow> exn + vm_request" where
  "vm_create r =
     andthen (validate_name (q_name r)) (\<lambda>n.
     andthen (validate_purpose (q_purpose r)) (\<lambda>p.
     Inr (r\<lparr>q_name := n, q_purpose := p\<rparr>)))"

text \<open>\<open>SnapshotCreateRequest.name\<close>: a \<open>Field\<close> pattern, whose \<open>$\<close> matches at the end only.\<close>

definition snapshot_name_ok :: "string \<Rightarrow> bool" where
  "snapshot_name_ok n \<longleftrightarrow> 1 \<le> cp_len n \<and> cp_len n \<le> 40 \<and> n \<noteq> [] \<and> is_letter (hd n) \<and>
     list_all (\<lambda>c. is_alnum c \<or> c = CHR ''_'' \<or> c = CHR ''-'') (tl n)"

section \<open>Firewall rules and ports (fw_schema.py)\<close>

definition validate_protocol :: "string \<Rightarrow> exn + string" where
  "validate_protocol v = (if v \<notin> {''tcp'', ''udp''} then Inl (ValueError ''bad-protocol'') else Inr v)"

definition validate_source :: "string option \<Rightarrow> exn + string option" where
  "validate_source v = (case v of
       None \<Rightarrow> Inr None
     | Some s \<Rightarrow> if s = [] then Inr None
                else if \<not> is_ip_network s then Inl (ValueError ''bad-cidr'') else Inr (Some s))"

definition validate_ip_or_cidr :: "string option \<Rightarrow> exn + string option" where
  "validate_ip_or_cidr v = (case v of
       None \<Rightarrow> Inr None
     | Some s \<Rightarrow> if s = [] then Inr (Some s)
                else if \<not> is_ip_network s then Inl (ValueError ''bad-cidr'') else Inr (Some s))"

definition port_text :: "string \<Rightarrow> bool" where
  "port_text part \<longleftrightarrow> part \<noteq> [] \<and> list_all is_digit part \<and> 1 \<le> parse_nat part \<and> parse_nat part \<le> 65535"

definition validate_dport :: "string option \<Rightarrow> exn + string option" where
  "validate_dport v = (case v of
       None \<Rightarrow> Inr None
     | Some s \<Rightarrow>
         if s = [] then Inr (Some s)
         else let parts = split_char (CHR '':'') s in
           if 2 < length parts then Inl (ValueError ''dport-format'')
           else if \<not> list_all port_text parts then Inl (ValueError ''dport-range'')
           else Inr (Some s))"

record port_create =
  pc_internal_port :: int
  pc_protocol :: string
  pc_source :: "string option"
  pc_description :: "string option"

definition vm_port_create :: "port_create \<Rightarrow> exn + port_create" where
  "vm_port_create r =
     (if \<not> (1 \<le> pc_internal_port r \<and> pc_internal_port r \<le> 65535) then Inl (ValueError ''port-range'')
      else andthen (validate_protocol (pc_protocol r)) (\<lambda>_.
           andthen (validate_source (pc_source r)) (\<lambda>src.
           Inr (r\<lparr>pc_source := src\<rparr>))))"

record firewall_rule =
  fw_action :: string
  fw_type :: string
  fw_proto :: "string option"
  fw_dport :: "string option"
  fw_dest :: "string option"
  fw_source :: "string option"
  fw_enable :: int
  fw_comment :: "string option"

definition validate_action :: "string \<Rightarrow> exn + string" where
  "validate_action v =
     (if v \<notin> {''ACCEPT'', ''DROP'', ''REJECT''} then Inl (ValueError ''bad-action'') else Inr v)"

definition validate_type :: "string \<Rightarrow> exn + string" where
  "validate_type v = (if v \<notin> {''in'', ''out''} then Inl (ValueError ''bad-type'') else Inr v)"

definition validate_proto :: "string option \<Rightarrow> exn + string option" where
  "validate_proto v =
     (if v \<noteq> None \<and> v \<notin> {Some ''tcp'', Some ''udp'', Some ''icmp''} then Inl (ValueError ''bad-proto'') else Inr v)"

definition firewall_rule_create :: "firewall_rule \<Rightarrow> exn + firewall_rule" where
  "firewall_rule_create r =
     andthen (validate_action (fw_action r)) (\<lambda>_.
     andthen (validate_type (fw_type r)) (\<lambda>_.
     andthen (validate_proto (fw_proto r)) (\<lambda>_.
     andthen (validate_dport (fw_dport r)) (\<lambda>_.
     andthen (validate_ip_or_cidr (fw_dest r)) (\<lambda>_.
     andthen (validate_ip_or_cidr (fw_source r)) (\<lambda>_.
     Inr r))))))"

section \<open>Subdomains (caddy_service.py, https_schema.py)\<close>

definition RESERVED_SUBDOMAINS :: "string set" where
  "RESERVED_SUBDOMAINS = {''admin'', ''api'', ''www'', ''status'', ''app'', ''mail'', ''ftp'', ''gsmsv''}"

definition dns_label :: "string \<Rightarrow> bool" where
  "dns_label s \<longleftrightarrow> s \<noteq> [] \<and> length s \<le> 63 \<and>
     (is_lower (hd s) \<or> is_digit (hd s)) \<and> (is_lower (last s) \<or> is_digit (last s)) \<and>
     list_all (\<lambda>c. is_lower c \<or> is_digit c \<or> c = CHR ''-'') s"

definition validate_subdomain :: "string \<Rightarrow> exn + string" where
  "validate_subdomain subdomain =
     (if \<not> match_dollar dns_label subdomain then Inl (ValueError ''bad-subdomain'')
      else if subdomain \<in> RESERVED_SUBDOMAINS then Inl (ValueError ''reserved-subdomain'')
      else Inr subdomain)"

record route_create =
  rc_subdomain :: string
  rc_internal_port :: int

definition https_route_create :: "route_create \<Rightarrow> exn + route_create" where
  "https_route_create r =
     (if \<not> (1 \<le> rc_internal_port r \<and> rc_internal_port r \<le> 65535) then Inl (ValueError ''port-range'')
      else andthen (validate_subdomain (rc_subdomain r)) (\<lambda>sd. Inr (r\<lparr>rc_subdomain := sd\<rparr>)))"

section \<open>Properties\<close>

lemma newline_classes [simp]:
  "\<not> is_lower newline" "\<not> is_digit newline" "newline \<noteq> CHR ''-''" "\<not> is_letter newline"
  by (simp_all add: is_lower_def is_digit_def is_letter_def newline_def digits_def ascii_lowercase_def
      ascii_letters_def ascii_uppercase_def)

lemma dns_label_no_newline: "\<forall>s. dns_label s \<longrightarrow> newline \<notin> set s"
  by (auto simp: dns_label_def list_all_iff)

lemma match_dollar_iff:
  assumes "\<forall>s. body s \<longrightarrow> newline \<notin> set s"
  shows "match_dollar body s \<longleftrightarrow> (\<exists>t. body t \<and> (s = t \<or> s = t @ [newline]))"
proof -
  have "s \<noteq> [] \<and> last s = newline \<and> body (butlast s) \<longleftrightarrow> (\<exists>t. body t \<and> s = t @ [newline])"
    by (metis append_butlast_last_id append_is_Nil_conv butlast_snoc last_snoc list.distinct(1))
  then show ?thesis by (auto simp: match_dollar_def)
qed

text \<open>
  What \<open>validate_subdomain\<close> accepts: a DNS label of 1 to 63 lower-case letters, digits and inner
  hyphens that is not reserved, or any DNS label, a reserved one included, followed by one line feed.
\<close>

theorem validate_subdomain_accepts:
  "validate_subdomain sd = Inr sd \<longleftrightarrow>
     (dns_label sd \<and> sd \<notin> RESERVED_SUBDOMAINS) \<or> (\<exists>t. dns_label t \<and> sd = t @ [newline])"
proof -
  have nl: "t @ [newline] \<notin> RESERVED_SUBDOMAINS" for t
  proof -
    have "\<forall>r \<in> RESERVED_SUBDOMAINS. last r \<noteq> newline"
      by (simp add: RESERVED_SUBDOMAINS_def newline_def)
    then show ?thesis by fastforce
  qed
  show ?thesis
    using nl unfolding validate_subdomain_def match_dollar_iff[of dns_label sd, OF dns_label_no_newline] by auto
qed

text \<open>
  A stored port range of a firewall rule is a port or two ports joined by a colon, each written in
  digits and between 1 and 65535; the validator changes nothing it accepts.
\<close>

theorem validate_dport_accepts:
  "validate_dport (Some s) = Inr v \<longleftrightarrow> v = Some s \<and>
     (s = [] \<or> port_text s \<or> (\<exists>a b. s = a @ '':'' @ b \<and> port_text a \<and> port_text b))"
proof -
  have pt: "port_text p \<Longrightarrow> CHR '':'' \<notin> set p" for p
  proof -
    have "\<not> is_digit (CHR '':'')" by (simp add: is_digit_def digits_def)
    then show "port_text p \<Longrightarrow> CHR '':'' \<notin> set p" by (auto simp: port_text_def list_all_iff)
  qed
  have "length (split_char (CHR '':'') s) \<le> 2 \<and> list_all port_text (split_char (CHR '':'') s) \<longleftrightarrow>
      port_text s \<or> (\<exists>a b. s = a @ '':'' @ b \<and> port_text a \<and> port_text b)" (is "?l \<longleftrightarrow> ?r")
  proof
    assume l: ?l
    have j: "s = join '':'' (split_char (CHR '':'') s)" by (simp add: join_split_char)
    consider p where "split_char (CHR '':'') s = [p]" | p q where "split_char (CHR '':'') s = [p, q]"
      using l split_char_nonempty[of "CHR '':''" s]
      by (cases "split_char (CHR '':'') s"; cases "tl (split_char (CHR '':'') s)")
        (auto simp: le_Suc_eq numeral_eq_Suc)
    then show ?r using l j by cases auto
  next
    assume ?r
    then show ?l using pt by (auto simp: split_char_append split_char_none)
  qed
  then show ?thesis by (auto simp: validate_dport_def Let_def)
qed

end
