(* ===== verification/Caddy.thy ===== *)
theory Caddy
  imports Sample Schemas
begin

text \<open>
  \<open>services/caddy_service.py\<close>: the routes of the HTTPS gateway, through Caddy's admin API. A route is put
  at the head of the route list, because a wildcard route at the end of it catches every other host.
\<close>

definition route_ref :: "string \<Rightarrow> string" where
  "route_ref subdomain = ''route-'' @ subdomain"

definition full_domain :: "settings \<Rightarrow> string \<Rightarrow> string" where
  "full_domain c subdomain = subdomain @ ''.'' @ CADDY_HTTPS_DOMAIN_SUFFIX c"

definition route_json :: "settings \<Rightarrow> string \<Rightarrow> string \<Rightarrow> int \<Rightarrow> json" where
  "route_json c subdomain internal_ip internal_port =
     JObj [(''@id'', JStr (route_ref subdomain)),
           (''match'', JList [JObj [(''host'', JList [JStr (full_domain c subdomain)])]]),
           (''handle'', JList [JObj
              [(''handler'', JStr ''reverse_proxy''),
               (''upstreams'', JList [JObj [(''dial'', JStr (internal_ip @ '':'' @ show_int internal_port))]])]]),
           (''terminal'', JBool True)]"

text \<open>The status code of the reply; \<open>raise_for_status\<close> fails for 400 and above.\<close>

definition delete_route :: "env \<Rightarrow> string \<Rightarrow> (sys, bool) prog" where
  "delete_route e subdomain =
     catch
       (seq (ext e (CaddyDeleteId (route_ref subdomain))) (\<lambda>j.
        seq (lift (as_int j)) (\<lambda>status.
        if status = 400 then ret True
        else if 400 \<le> status \<and> status < 600 then raise OtherException
        else ret True)))
       (\<lambda>_. ret False)"

definition add_route :: "env \<Rightarrow> string \<Rightarrow> string \<Rightarrow> int \<Rightarrow> (sys, bool) prog" where
  "add_route e subdomain internal_ip internal_port =
     seq (delete_route e subdomain) (\<lambda>_.
     catch
       (seq (ext e CaddyGetRoutes) (\<lambda>j.
        case json_or j (JList []) of
          JList routes \<Rightarrow>
            seq (ext e (CaddyPatchRoutes (route_json (conf e) subdomain internal_ip internal_port # routes))) (\<lambda>_.
            ret True)
        | _ \<Rightarrow> raise AttributeError))
       (\<lambda>_. ret False))"

definition caddy_calls :: "call set" where
  "caddy_calls = {c. case c of CaddyGetRoutes \<Rightarrow> True | CaddyPatchRoutes _ \<Rightarrow> True | CaddyDeleteId _ \<Rightarrow> True
     | _ \<Rightarrow> False}"

lemma caddy_calls_mem [simp]:
  "CaddyGetRoutes \<in> caddy_calls" "CaddyPatchRoutes rs \<in> caddy_calls" "CaddyDeleteId i \<in> caddy_calls"
  by (simp_all add: caddy_calls_def)

lemma keeps_delete_route [keeps_intros]: "keeps db (delete_route e sd)"
  unfolding delete_route_def by (intro keeps_intros)

lemma keeps_add_route [keeps_intros]: "keeps db (add_route e sd ip p)"
  unfolding add_route_def by (intro keeps_intros)

lemma logs_delete_route [logs_intros]: "logs caddy_calls (delete_route e sd)"
  unfolding delete_route_def by (auto intro!: logs_intros)

lemma logs_add_route [logs_intros]: "logs caddy_calls (add_route e sd ip p)"
  unfolding add_route_def by (auto intro!: logs_intros)

text \<open>Neither operation raises: the callers rely on a truth value in every case.\<close>

lemma delete_route_total: "wp (delete_route e sd) (\<lambda>_ s'. db s' = db s) (\<lambda>_ _. False) s"
  by (auto simp: delete_route_def wp_simps)

lemma add_route_total: "wp (add_route e sd ip p) (\<lambda>_ s'. db s' = db s) (\<lambda>_ _. False) s"
  by (auto simp: add_route_def wp_simps intro!: wp_mono[OF delete_route_total])

text \<open>
  A registered route precedes every other route: \<open>add_route\<close> never raises, and when it returns True
  the last call replaced Caddy's route list by the new route followed by the list Caddy had just
  reported; before that it asked Caddy to delete a stale route of the same name.
\<close>

theorem add_route_at_head:
  assumes "add_route e sd ip port s = (r, s')"
  shows "\<exists>ok. r = Inr ok \<and> db s' = db s \<and>
    (ok \<longrightarrow> (\<exists>j routes. json_or j (JList []) = JList routes \<and>
       calls s' = calls s @ [CaddyDeleteId (route_ref sd), CaddyGetRoutes,
          CaddyPatchRoutes (route_json (conf e) sd ip port # routes)] \<and>
       answer e (calls s @ [CaddyDeleteId (route_ref sd)]) CaddyGetRoutes = Inr j))"
proof -
  have del: "wp (delete_route e sd) (\<lambda>_ t. db t = db s \<and> calls t = calls s @ [CaddyDeleteId (route_ref sd)])
      (\<lambda>_ _. False) s"
    by (auto simp: delete_route_def wp_simps)
  have "wp (add_route e sd ip port)
      (\<lambda>ok t. db t = db s \<and> (ok \<longrightarrow> (\<exists>j routes. json_or j (JList []) = JList routes \<and>
       calls t = calls s @ [CaddyDeleteId (route_ref sd), CaddyGetRoutes,
          CaddyPatchRoutes (route_json (conf e) sd ip port # routes)] \<and>
       answer e (calls s @ [CaddyDeleteId (route_ref sd)]) CaddyGetRoutes = Inr j)))
      (\<lambda>_ _. False) s"
    by (auto simp: add_route_def wp_simps intro!: wp_mono[OF del])
  then show ?thesis using assms by (cases r) (auto simp: wp_def)
qed

definition caddy_answer :: "call list \<Rightarrow> call \<Rightarrow> exn + json" where
  "caddy_answer hist c = (case c of CaddyDeleteId _ \<Rightarrow> Inr (JInt 400) | CaddyGetRoutes \<Rightarrow> Inr (JList [JStr ''wildcard''])
     | _ \<Rightarrow> Inr JNull)"

lemma add_route_at_head_witness:
  "\<exists>routes. last (calls (snd (add_route (sample_env caddy_answer) ''web'' ''10.0.0.100'' 80 (sample_state empty_database))))
     = CaddyPatchRoutes (route_json sample_settings ''web'' ''10.0.0.100'' 80 # routes)"
proof -
  let ?r = "add_route (sample_env caddy_answer) ''web'' ''10.0.0.100'' 80 (sample_state empty_database)"
  have ok: "fst ?r = Inr True" by code_simp
  have run: "?r = (Inr True, snd ?r)" using ok by (metis prod.collapse)
  show ?thesis using add_route_at_head[OF run] by (auto simp: sample_env_def)
qed

end
