(* ===== verification/Access.thy ===== *)
theory Access
  imports Sample
begin

text \<open>
  \<open>core/security.py\<close> and \<open>api/dependencies.py\<close>: password hashing and tokens as far as the repository
  decides them, the identification of the caller, the admin guard, and the lookup of a VM with the
  ownership check every VM endpoint goes through. bcrypt and python-jose are parameters.
\<close>

section \<open>bcrypt and JWT\<close>

record claims =
  c_exp :: int
  c_sub :: "string option"
  c_type :: "string option"

text \<open>
  \<open>hashpw pw salt\<close> is \<open>bcrypt.hashpw\<close>; \<open>checkpw pw h\<close> is \<open>bcrypt.checkpw\<close>, None when it raises \<open>ValueError\<close>;
  \<open>jwt_encode\<close> and \<open>jwt_decode t token\<close> are jose's with the application's key at time \<open>t\<close>, None for a
  \<open>JWTError\<close>.
\<close>

record crypto =
  hashpw :: "string \<Rightarrow> nat \<Rightarrow> string"
  checkpw :: "string \<Rightarrow> string \<Rightarrow> bool option"
  jwt_encode :: "claims \<Rightarrow> string"
  jwt_decode :: "int \<Rightarrow> string \<Rightarrow> claims option"

text \<open>What the code relies on: an unexpired token decodes to its claims, a password checks against its own hash only.\<close>

definition jwt_ok :: "crypto \<Rightarrow> bool" where
  "jwt_ok cr \<longleftrightarrow> (\<forall>c t. jwt_decode cr t (jwt_encode cr c) = (if t < c_exp c then Some c else None))"

definition hash_ok :: "crypto \<Rightarrow> bool" where
  "hash_ok cr \<longleftrightarrow> (\<forall>pw salt. checkpw cr pw (hashpw cr pw salt) = Some True)"

section \<open>Passwords and tokens (core/security.py)\<close>

definition verify_password :: "crypto \<Rightarrow> string \<Rightarrow> string \<Rightarrow> bool" where
  "verify_password cr plain hashed = (case checkpw cr plain hashed of None \<Rightarrow> False | Some b \<Rightarrow> b)"

definition get_password_hash :: "crypto \<Rightarrow> env \<Rightarrow> string \<Rightarrow> (sys, string) prog" where
  "get_password_hash cr e password =
     (if 72 < length password then raise (ValueError ''long-password'')
      else (\<lambda>s. (Inr (hashpw cr password (entropy e (rng s))), s\<lparr>rng := rng s + 1\<rparr>)))"

definition create_access_token :: "crypto \<Rightarrow> env \<Rightarrow> int \<Rightarrow> (sys, string) prog" where
  "create_access_token cr e uid =
     seq now (\<lambda>t.
     ret (jwt_encode cr \<lparr>c_exp = t + ACCESS_TOKEN_EXPIRE_MINUTES (conf e) * minute,
                         c_sub = Some (show_int uid), c_type = Some ''access''\<rparr>))"

definition create_refresh_token :: "crypto \<Rightarrow> env \<Rightarrow> int \<Rightarrow> (sys, string) prog" where
  "create_refresh_token cr e uid =
     seq now (\<lambda>t.
     ret (jwt_encode cr \<lparr>c_exp = t + REFRESH_TOKEN_EXPIRE_MINUTES (conf e) * minute,
                         c_sub = Some (show_int uid), c_type = Some ''refresh''\<rparr>))"

section \<open>The caller (api/dependencies.py)\<close>

text \<open>\<open>x or y\<close> on optional strings.\<close>

definition str_or :: "string option \<Rightarrow> string option \<Rightarrow> string option" where
  "str_or x y = (if x = None \<or> x = Some [] then y else x)"

definition get_current_user :: "crypto \<Rightarrow> string option \<Rightarrow> string option \<Rightarrow> (sys, user) prog" where
  "get_current_user cr cookie bearer =
     (case str_or cookie bearer of
        None \<Rightarrow> raise (Http 401 ''invalid-credentials'')
      | Some token \<Rightarrow>
          if token = [] then raise (Http 401 ''invalid-credentials'') else
          seq now (\<lambda>t.
          case jwt_decode cr t token of
            None \<Rightarrow> raise (Http 401 ''invalid-credentials'')
          | Some payload \<Rightarrow>
              seq (raise_if (c_type payload \<noteq> Some ''access'') (Http 401 ''invalid-credentials'')) (\<lambda>_.
              case c_sub payload of
                None \<Rightarrow> raise (Http 401 ''invalid-credentials'')
              | Some user_id \<Rightarrow>
                  seq (lift (py_int user_id)) (\<lambda>i.
                  seq (gets db) (\<lambda>d.
                  case find (\<lambda>u. u_id u = i) (users d) of
                    None \<Rightarrow> raise (Http 401 ''invalid-credentials'')
                  | Some u \<Rightarrow>
                      seq (raise_if (\<not> u_is_active u) (Http 400 ''inactive'')) (\<lambda>_. ret u))))))"

definition get_current_active_admin :: "user \<Rightarrow> exn + user" where
  "get_current_active_admin u = (if u_role u \<noteq> ADMIN then Inl (Http 403 ''admin-only'') else Inr u)"

section \<open>Looking a VM up\<close>

definition on_node :: "database \<Rightarrow> string option \<Rightarrow> vm \<Rightarrow> bool" where
  "on_node d node v \<longleftrightarrow> (case node of
       None \<Rightarrow> True
     | Some n \<Rightarrow> n = [] \<or> (\<exists>srv \<in> set (servers d). srv_id srv = vm_server_id v \<and> srv_name srv = n))"

definition find_owned_vm :: "int \<Rightarrow> user \<Rightarrow> string option \<Rightarrow> database \<Rightarrow> vm option" where
  "find_owned_vm vmid u node d =
     find (\<lambda>v. vm_vmid v = vmid \<and> on_node d node v \<and>
               (u_role u \<noteq> ADMIN \<longrightarrow> vm_owner_id v = Some (u_id u))) (vms d)"

definition get_vm_with_owner_check :: "int \<Rightarrow> user \<Rightarrow> string option \<Rightarrow> (sys, vm) prog" where
  "get_vm_with_owner_check vmid u node =
     seq (gets db) (\<lambda>d.
     case find_owned_vm vmid u node d of
       None \<Rightarrow> raise (Http 404 ''vm-not-found'')
     | Some v \<Rightarrow> ret v)"

section \<open>Ownership\<close>

text \<open>
  The contract of a guarded lookup: it finds a row of the table with the wanted key, and for a caller
  who is not an administrator only a row the caller owns; and it finds one whenever there is one. The
  clients of the lookup rest on what follows from it.
\<close>

locale owner_guard =
  fixes lookup :: "user \<Rightarrow> 'k \<Rightarrow> database \<Rightarrow> 'r option"
    and rows :: "database \<Rightarrow> 'r list"
    and wanted :: "'k \<Rightarrow> database \<Rightarrow> 'r \<Rightarrow> bool"
    and owner :: "'r \<Rightarrow> int option"
    and bypass :: "user \<Rightarrow> bool"
  assumes lookup_sound: "lookup u k d = Some r \<Longrightarrow>
      r \<in> set (rows d) \<and> wanted k d r \<and> (bypass u \<or> owner r = Some (u_id u))"
    and lookup_complete: "lookup u k d = None \<Longrightarrow> r \<in> set (rows d) \<Longrightarrow> wanted k d r \<Longrightarrow>
      \<not> bypass u \<and> owner r \<noteq> Some (u_id u)"
begin

lemma never_foreign:
  "lookup u k d = Some r \<Longrightarrow> \<not> bypass u \<Longrightarrow> owner r = Some (u_id u)"
  using lookup_sound by blast

lemma strangers_share_nothing:
  assumes "lookup u k d = Some r" and "lookup v j d = Some q"
    and "\<not> bypass u" and "\<not> bypass v" and "u_id u \<noteq> u_id v"
  shows "r \<noteq> q"
  using never_foreign[OF assms(1,3)] never_foreign[OF assms(2,4)] assms(5) by auto

lemma found_iff:
  "(\<exists>r. lookup u k d = Some r) \<longleftrightarrow>
   (\<exists>r \<in> set (rows d). wanted k d r \<and> (bypass u \<or> owner r = Some (u_id u)))"
  using lookup_sound lookup_complete by (metis option.exhaust)

text \<open>A row the caller may not see is reported exactly like a row that does not exist.\<close>

lemma foreign_hidden:
  assumes "\<And>r. r \<in> set (rows d) \<Longrightarrow> wanted k d r \<Longrightarrow> owner r \<noteq> Some (u_id u)" and "\<not> bypass u"
  shows "lookup u k d = None"
  using assms found_iff by (metis option.exhaust)

end

definition is_admin :: "user \<Rightarrow> bool" where "is_admin u \<longleftrightarrow> u_role u = ADMIN"

definition lookup_vm :: "user \<Rightarrow> int \<times> string option \<Rightarrow> database \<Rightarrow> vm option" where
  "lookup_vm u k d = find_owned_vm (fst k) u (snd k) d"

definition wanted_vm :: "int \<times> string option \<Rightarrow> database \<Rightarrow> vm \<Rightarrow> bool" where
  "wanted_vm k d v \<longleftrightarrow> vm_vmid v = fst k \<and> on_node d (snd k) v"

interpretation vm_guard: owner_guard lookup_vm vms wanted_vm vm_owner_id is_admin
proof
  fix u k d r
  assume "lookup_vm u k d = Some r"
  then show "r \<in> set (vms d) \<and> wanted_vm k d r \<and> (is_admin u \<or> vm_owner_id r = Some (u_id u))"
    unfolding lookup_vm_def find_owned_vm_def wanted_vm_def is_admin_def
    by (auto dest!: find_Some_iff_mem)
next
  fix u k d r
  assume "lookup_vm u k d = None" and "r \<in> set (vms d)" and "wanted_vm k d r"
  then show "\<not> is_admin u \<and> vm_owner_id r \<noteq> Some (u_id u)"
    unfolding lookup_vm_def find_owned_vm_def wanted_vm_def is_admin_def find_None_all by auto
qed

lemma wp_get_vm [wp_simps]:
  "wp (get_vm_with_owner_check vmid u node) Q E = (\<lambda>s.
     (case find_owned_vm vmid u node (db s) of None \<Rightarrow> E (Http 404 ''vm-not-found'') s | Some v \<Rightarrow> Q v s))"
  by (rule HOL.ext) (simp add: get_vm_with_owner_check_def wp_simps split: option.split)

lemma keeps_get_vm [keeps_intros]: "keeps f (get_vm_with_owner_check vmid u node)"
  unfolding get_vm_with_owner_check_def by (intro keeps_intros)

lemma logs_get_vm [logs_intros]: "logs A (get_vm_with_owner_check vmid u node)"
  unfolding get_vm_with_owner_check_def by (intro logs_intros)

lemma get_vm_Inr_iff: "get_vm_with_owner_check vmid u node s = (Inr v, s') \<longleftrightarrow>
    s' = s \<and> find_owned_vm vmid u node (db s) = Some v"
  by (auto simp: get_vm_with_owner_check_def seq_def gets_def raise_def ret_def split: option.splits)

section \<open>Properties\<close>

text \<open>
  Owners are isolated: the lookup behind every VM endpoint returns a VM of the requested id on the
  requested node that the caller owns unless the caller is an administrator; and it answers 404 exactly
  when there is no such VM, so a VM of somebody else cannot be told from one that does not exist.
\<close>

theorem vm_lookup_isolates_owners:
  "(\<forall>v s'. get_vm_with_owner_check vmid u node s = (Inr v, s') \<longrightarrow>
      s' = s \<and> v \<in> set (vms (db s)) \<and> vm_vmid v = vmid \<and> on_node (db s) node v \<and>
      (u_role u = ADMIN \<or> vm_owner_id v = Some (u_id u))) \<and>
   (get_vm_with_owner_check vmid u node s = (Inl (Http 404 ''vm-not-found''), s) \<longleftrightarrow>
      \<not> (\<exists>v \<in> set (vms (db s)). vm_vmid v = vmid \<and> on_node (db s) node v \<and>
          (u_role u = ADMIN \<or> vm_owner_id v = Some (u_id u))))"
proof -
  have run: "get_vm_with_owner_check vmid u node s =
      (case lookup_vm u (vmid, node) (db s) of None \<Rightarrow> (Inl (Http 404 ''vm-not-found''), s) | Some v \<Rightarrow> (Inr v, s))"
    by (simp add: get_vm_with_owner_check_def lookup_vm_def seq_def gets_def raise_def ret_def
        split: option.split)
  show ?thesis
    unfolding run
    using vm_guard.lookup_sound[of u "(vmid, node)" "db s"] vm_guard.found_iff[of u "(vmid, node)" "db s"]
    by (auto simp: wanted_vm_def is_admin_def split: option.split)
qed

lemma vm_lookup_isolates_owners_witness:
  "let d = empty_database\<lparr>vms := [sample_vm 1 (Some 7)]\<rparr> in
   fst (get_vm_with_owner_check 101 (sample_user 7 USER) None (sample_state d)) = Inr (sample_vm 1 (Some 7)) \<and>
   get_vm_with_owner_check 101 (sample_user 8 USER) None (sample_state d) =
     (Inl (Http 404 ''vm-not-found''), sample_state d)"
  using vm_lookup_isolates_owners[of 101 "sample_user 8 USER" None
      "sample_state (empty_database\<lparr>vms := [sample_vm 1 (Some 7)]\<rparr>)"]
  by (simp add: Let_def get_vm_with_owner_check_def find_owned_vm_def on_node_def seq_def gets_def ret_def
      sample_user_def sample_vm_def sample_state_def)

text \<open>A concrete token and password scheme, for the witnesses.\<close>

definition enc_text :: "string \<Rightarrow> string" where
  "enc_text s = concat (map (\<lambda>c. [CHR ''c'', c]) s) @ ''.''"

fun dec_text :: "string \<Rightarrow> (string \<times> string) option" where
  "dec_text (x # c # r) =
     (if x = CHR ''.'' then Some ([], c # r)
      else map_option (\<lambda>(a, b). (c # a, b)) (dec_text r))"
| "dec_text [x] = (if x = CHR ''.'' then Some ([], []) else None)"
| "dec_text [] = None"

definition enc_opt :: "string option \<Rightarrow> string" where
  "enc_opt v = (case v of None \<Rightarrow> enc_text [] | Some s \<Rightarrow> enc_text (CHR ''s'' # s))"

definition dec_opt :: "string \<Rightarrow> string option" where
  "dec_opt s = (if s = [] then None else Some (tl s))"

definition read_int :: "string \<Rightarrow> int" where
  "read_int s = (case s of [] \<Rightarrow> 0 | c # r \<Rightarrow> if c = CHR ''-'' then - int (parse_nat r) else int (parse_nat s))"

definition sample_crypto :: crypto where
  "sample_crypto = \<lparr>
     hashpw = (\<lambda>pw salt. CHR ''$'' # pw),
     checkpw = (\<lambda>pw h. case h of [] \<Rightarrow> None | c # r \<Rightarrow> if c = CHR ''$'' then Some (r = pw) else None),
     jwt_encode = (\<lambda>c. enc_text (show_int (c_exp c)) @ enc_opt (c_sub c) @ enc_opt (c_type c)),
     jwt_decode = (\<lambda>t token. case dec_text token of
         None \<Rightarrow> None
       | Some (ex, r1) \<Rightarrow> (case dec_text r1 of
           None \<Rightarrow> None
         | Some (sub, r2) \<Rightarrow> (case dec_text r2 of
             None \<Rightarrow> None
           | Some (ty, _) \<Rightarrow>
               if t < read_int ex then Some \<lparr>c_exp = read_int ex, c_sub = dec_opt sub, c_type = dec_opt ty\<rparr>
               else None)))\<rparr>"

lemma dec_enc_text: "dec_text (enc_text s @ r) = Some (s, r)"
proof (induction s)
  case Nil
  then show ?case by (cases r) (simp_all add: enc_text_def)
next
  case (Cons c s)
  then show ?case by (simp add: enc_text_def)
qed

lemma read_show_int: "read_int (show_int i) = i"
proof (cases "i < 0")
  case True
  then show ?thesis by (simp add: show_int_def read_int_def)
next
  case False
  obtain c r where c: "show_nat (nat i) = c # r" by (cases "show_nat (nat i)") auto
  have "is_digit c" using show_nat_digits[of "nat i"] c by simp
  then have "c \<noteq> CHR ''-''" by (auto simp: is_digit_def digits_def)
  moreover have "parse_nat (c # r) = nat i" using c by (metis parse_nat_show)
  ultimately show ?thesis using False c by (simp add: show_int_def read_int_def)
qed

lemma dec_enc_opt: "\<exists>s. enc_opt v = enc_text s \<and> dec_opt s = v"
proof (cases v)
  case None
  then have "enc_opt v = enc_text [] \<and> dec_opt [] = v" by (simp add: enc_opt_def dec_opt_def)
  then show ?thesis by blast
next
  case (Some x)
  then have "enc_opt v = enc_text (CHR ''s'' # x) \<and> dec_opt (CHR ''s'' # x) = v"
    by (simp add: enc_opt_def dec_opt_def)
  then show ?thesis by blast
qed

lemma sample_jwt_ok: "jwt_ok sample_crypto"
  unfolding jwt_ok_def
proof (intro allI)
  fix c :: claims and t
  obtain a where a: "enc_opt (c_sub c) = enc_text a" "dec_opt a = c_sub c" using dec_enc_opt by blast
  obtain b where b: "enc_opt (c_type c) = enc_text b" "dec_opt b = c_type c" using dec_enc_opt by blast
  show "jwt_decode sample_crypto t (jwt_encode sample_crypto c) = (if t < c_exp c then Some c else None)"
    using dec_enc_text[of b "[]"] by (simp add: sample_crypto_def a b dec_enc_text read_show_int)
qed

lemma sample_hash_ok: "hash_ok sample_crypto"
  by (simp add: hash_ok_def sample_crypto_def)

text \<open>
  A refresh token does not open the API and an access token does until it expires: a request that
  carries the access token issued to an active user at time \<open>t0\<close> is identified as that user before the
  expiry and rejected with 401 after it; the refresh token of the same user is always rejected.
\<close>

theorem tokens_are_separated:
  assumes "jwt_ok cr" and "find (\<lambda>x. u_id x = u_id u) (users (db s)) = Some u"
    and "u_is_active u" and "0 \<le> u_id u"
    and "create_access_token cr e (u_id u) s0 = (Inr access, s1)"
    and "create_refresh_token cr e (u_id u) s0 = (Inr refresh, s2)"
    and "access \<noteq> []" and "refresh \<noteq> []"
  shows "get_current_user cr (Some access) bearer s =
       (if clk s < clk s0 + ACCESS_TOKEN_EXPIRE_MINUTES (conf e) * minute then (Inr u, s)
        else (Inl (Http 401 ''invalid-credentials''), s)) \<and>
     get_current_user cr (Some refresh) bearer s = (Inl (Http 401 ''invalid-credentials''), s)"
proof
  have a: "access = jwt_encode cr \<lparr>c_exp = clk s0 + ACCESS_TOKEN_EXPIRE_MINUTES (conf e) * minute,
       c_sub = Some (show_int (u_id u)), c_type = Some ''access''\<rparr>"
    using assms(5) by (auto simp: create_access_token_def seq_def now_def gets_def ret_def)
  have r: "refresh = jwt_encode cr \<lparr>c_exp = clk s0 + REFRESH_TOKEN_EXPIRE_MINUTES (conf e) * minute,
       c_sub = Some (show_int (u_id u)), c_type = Some ''refresh''\<rparr>"
    using assms(6) by (auto simp: create_refresh_token_def seq_def now_def gets_def ret_def)
  note d = assms(1)[unfolded jwt_ok_def, rule_format]
  show "get_current_user cr (Some access) bearer s =
       (if clk s < clk s0 + ACCESS_TOKEN_EXPIRE_MINUTES (conf e) * minute then (Inr u, s)
        else (Inl (Http 401 ''invalid-credentials''), s))"
    using assms(2,3,4,7) d[of "clk s"]
    by (auto simp: a get_current_user_def str_or_def prog_defs now_def py_int_show)
  show "get_current_user cr (Some refresh) bearer s = (Inl (Http 401 ''invalid-credentials''), s)"
    using assms(8) d[of "clk s"]
    by (auto simp: r get_current_user_def str_or_def prog_defs now_def)
qed

lemma tokens_are_separated_witness:
  "let s = sample_state (empty_database\<lparr>users := [sample_user 7 USER]\<rparr>);
       access = jwt_encode sample_crypto \<lparr>c_exp = 30 * minute, c_sub = Some ''7'', c_type = Some ''access''\<rparr>;
       refresh = jwt_encode sample_crypto \<lparr>c_exp = 60 * 24 * 7 * minute, c_sub = Some ''7'', c_type = Some ''refresh''\<rparr>
   in get_current_user sample_crypto (Some access) None s = (Inr (sample_user 7 USER), s) \<and>
      get_current_user sample_crypto (Some refresh) None s = (Inl (Http 401 ''invalid-credentials''), s)"
proof -
  let ?s = "sample_state (empty_database\<lparr>users := [sample_user 7 USER]\<rparr>)"
  let ?e = "sample_env agreeing"
  have ne: "enc_text t @ r \<noteq> []" for t r by (simp add: enc_text_def)
  have seven: "show_int 7 = ''7''" by code_simp
  have a: "create_access_token sample_crypto ?e (u_id (sample_user 7 USER)) ?s = (Inr (jwt_encode sample_crypto
      \<lparr>c_exp = 30 * minute, c_sub = Some ''7'', c_type = Some ''access''\<rparr>), ?s)"
    by (simp add: create_access_token_def prog_defs now_def sample_defs seven)
  have r: "create_refresh_token sample_crypto ?e (u_id (sample_user 7 USER)) ?s = (Inr (jwt_encode sample_crypto
      \<lparr>c_exp = 60 * 24 * 7 * minute, c_sub = Some ''7'', c_type = Some ''refresh''\<rparr>), ?s)"
    by (simp add: create_refresh_token_def prog_defs now_def sample_defs seven)
  have u: "find (\<lambda>x. u_id x = u_id (sample_user 7 USER)) (users (db ?s)) = Some (sample_user 7 USER)"
    "u_is_active (sample_user 7 USER)" "0 \<le> u_id (sample_user 7 USER)"
    by (simp_all add: sample_state_def sample_user_def)
  have n: "jwt_encode sample_crypto c \<noteq> []" for c unfolding sample_crypto_def using ne by auto
  have t: "clk ?s < clk ?s + ACCESS_TOKEN_EXPIRE_MINUTES (conf ?e) * minute"
    by (simp add: sample_env_def sample_settings_def default_settings_def)
  show ?thesis
    using tokens_are_separated[OF sample_jwt_ok u a r n n, of None] t by (simp add: Let_def)
qed

end
