(* ===== verification/Config.thy ===== *)
theory Config
  imports Sample
begin

text \<open>
  \<open>core/config.py\<close>: the nodes configured in the environment and the candidate storages of a node.
  \<open>core/init_servers.py\<close>: the synchronisation of the \<open>servers\<close> table with the configured nodes at start.
\<close>

section \<open>Settings\<close>

definition opt_of :: "string \<Rightarrow> string option" where
  "opt_of s = (if s = [] then None else Some s)"

record node_config =
  nc_name :: string
  nc_ip_address :: string
  nc_port :: int
  nc_api_user :: string
  nc_api_password :: string
  nc_ssh_user :: "string option"
  nc_ssh_password :: "string option"
  nc_ssh_port :: int
  nc_gateway_ip :: "string option"
  nc_gateway_user :: "string option"
  nc_gateway_password :: "string option"
  nc_base_port :: int

definition node_config_of :: "settings \<Rightarrow> node_settings \<Rightarrow> node_config" where
  "node_config_of c n =
     \<lparr>nc_name = NODE_NAME n, nc_ip_address = NODE_IP n, nc_port = NODE_PORT n, nc_api_user = NODE_USER n,
      nc_api_password = NODE_PASSWORD n, nc_ssh_user = opt_of (NODE_SSH_USER c),
      nc_ssh_password = opt_of (NODE_SSH_PASSWORD c), nc_ssh_port = NODE_SSH_PORT n,
      nc_gateway_ip = opt_of (GATEWAY_IP c), nc_gateway_user = opt_of (GATEWAY_USER c),
      nc_gateway_password = opt_of (GATEWAY_PASSWORD c), nc_base_port = NODE_BASE_PORT n\<rparr>"

definition get_node_configs :: "settings \<Rightarrow> node_config list" where
  "get_node_configs c =
     map (node_config_of c) (filter (\<lambda>n. NODE_NAME n \<noteq> [] \<and> NODE_IP n \<noteq> []) (NODES c))"

text \<open>\<open>list(dict.fromkeys(xs))\<close>: the first occurrence of each element, in order.\<close>

fun fromkeys :: "'a list \<Rightarrow> 'a list" where
  "fromkeys [] = []"
| "fromkeys (x # xs) = x # filter (\<lambda>y. y \<noteq> x) (fromkeys xs)"

definition get_clone_storages :: "settings \<Rightarrow> string \<Rightarrow> string list" where
  "get_clone_storages c node_name =
     (if node_name = [] then []
      else case find (\<lambda>n. NODE_NAME n = node_name) (NODES c) of
          None \<Rightarrow> []
        | Some n \<Rightarrow>
            fromkeys (filter (\<lambda>s. s \<noteq> []) (map py_strip (split_char (CHR '','') (NODE_CLONE_STORAGES n)))))"

section \<open>\<open>sync_servers\<close>\<close>

definition set_server :: "node_config \<Rightarrow> server \<Rightarrow> server" where
  "set_server cfg r = r
     \<lparr>srv_ip_address := nc_ip_address cfg, srv_port := nc_port cfg, srv_api_user := nc_api_user cfg,
      srv_api_password := opt_of (nc_api_password cfg), srv_ssh_user := nc_ssh_user cfg,
      srv_ssh_password := nc_ssh_password cfg, srv_ssh_port := Some (nc_ssh_port cfg),
      srv_gateway_ip := nc_gateway_ip cfg, srv_gateway_user := nc_gateway_user cfg,
      srv_gateway_password := nc_gateway_password cfg, srv_base_port := nc_base_port cfg\<rparr>"

definition new_server :: "node_config \<Rightarrow> int \<Rightarrow> server" where
  "new_server cfg i = set_server cfg
     \<lparr>srv_id = i, srv_name = nc_name cfg, srv_ip_address = [], srv_port = 0, srv_api_user = [],
      srv_api_password = None, srv_ssh_user = None, srv_ssh_password = None, srv_ssh_port = None,
      srv_is_active = True, srv_gateway_ip = None, srv_gateway_user = None, srv_gateway_password = None,
      srv_base_port = 0, srv_last_free_ram_mb = 0\<rparr>"

text \<open>
  One iteration. The query sees the committed rows (the session does not flush before a query), so a row
  added by an earlier iteration is not found again; the rows it finds are updated in the session.
\<close>

definition sync_one :: "server list \<Rightarrow> node_config \<Rightarrow> database \<Rightarrow> database" where
  "sync_one committed cfg d =
     (case find (\<lambda>r. srv_name r = nc_name cfg) committed of
        Some r0 \<Rightarrow> d\<lparr>servers := update_rows (\<lambda>r. srv_id r = srv_id r0) (set_server cfg) (servers d)\<rparr>
      | None \<Rightarrow> d\<lparr>servers := servers d @ [new_server cfg (next_id d)], next_id := next_id d + 1\<rparr>)"

definition sync_rows :: "node_config list \<Rightarrow> database \<Rightarrow> database" where
  "sync_rows cfgs d = foldl (\<lambda>w cfg. sync_one (servers d) cfg w) d cfgs"

definition sync_servers :: "env \<Rightarrow> (sys, unit) prog" where
  "sync_servers e =
     (let cfgs = get_node_configs (conf e) in
      if cfgs = [] then ret ()
      else seq (gets db) (\<lambda>d. catch (commit e (sync_rows cfgs d)) (\<lambda>_. ret ())))"

section \<open>Lemmas\<close>

lemma set_fromkeys [simp]: "set (fromkeys xs) = set xs"
  by (induction xs) auto

lemma distinct_fromkeys [simp]: "distinct (fromkeys xs)"
  by (induction xs) auto

lemma fromkeys_distinct_id: "distinct xs \<Longrightarrow> fromkeys xs = xs"
  by (induction xs) (auto simp: filter_id_conv)

lemma set_server_simps [simp]:
  "srv_id (set_server c r) = srv_id r" "srv_name (set_server c r) = srv_name r"
  "srv_is_active (set_server c r) = srv_is_active r"
  "srv_last_free_ram_mb (set_server c r) = srv_last_free_ram_mb r"
  "set_server c (set_server c' r) = set_server c r"
  by (simp_all add: set_server_def)

lemma new_server_simps [simp]:
  "srv_name (new_server cfg i) = nc_name cfg" "srv_id (new_server cfg i) = i"
  "set_server cfg (new_server cfg i) = new_server cfg i" "srv_is_active (new_server cfg i)"
  by (simp_all add: new_server_def)

text \<open>A row agrees with a node's configuration.\<close>

definition configured_as :: "node_config \<Rightarrow> server \<Rightarrow> bool" where
  "configured_as cfg r \<longleftrightarrow> srv_name r = nc_name cfg \<and> set_server cfg r = r"

definition servers_ok :: "database \<Rightarrow> bool" where
  "servers_ok d \<longleftrightarrow> distinct (map srv_id (servers d)) \<and> (\<forall>r \<in> set (servers d). srv_id r < next_id d)"

text \<open>
  The loop invariant: after the iterations over \<open>done\<close>, the session holds every committed row, in place
  and updated when its node is in \<open>done\<close>, followed by one new row for each node that had none.
\<close>

definition synced_row :: "node_config list \<Rightarrow> server \<Rightarrow> server" where
  "synced_row cfgs r = (case find (\<lambda>c. nc_name c = srv_name r) cfgs of None \<Rightarrow> r | Some c \<Rightarrow> set_server c r)"

definition fresh_nodes :: "server list \<Rightarrow> node_config list \<Rightarrow> node_config list" where
  "fresh_nodes committed cfgs = filter (\<lambda>c. nc_name c \<notin> srv_name ` set committed) cfgs"

lemma synced_row_simps [simp]: "srv_id (synced_row cfgs r) = srv_id r" "srv_name (synced_row cfgs r) = srv_name r"
  by (simp_all add: synced_row_def split: option.split)

lemma find_snoc: "find P (xs @ [y]) = (case find P xs of None \<Rightarrow> if P y then Some y else None | Some x \<Rightarrow> Some x)"
  by (induction xs) auto

lemma synced_row_snoc:
  assumes "nc_name cfg \<notin> nc_name ` set cfgs"
  shows "synced_row (cfgs @ [cfg]) r = (if srv_name r = nc_name cfg then set_server cfg r else synced_row cfgs r)"
proof (cases "srv_name r = nc_name cfg")
  case True
  then have "find (\<lambda>c. nc_name c = srv_name r) cfgs = None" unfolding find_None_all using assms by (metis image_eqI)
  then show ?thesis using True by (simp add: synced_row_def find_snoc)
next
  case False
  then show ?thesis by (simp add: synced_row_def find_snoc split: option.split)
qed

lemma sync_rows_shape:
  assumes "servers_ok d" and "distinct (map srv_name (servers d))" and "distinct (map nc_name cfgs)"
  shows "servers (sync_rows cfgs d) =
      map (synced_row cfgs) (servers d) @
      map (\<lambda>(i, c). new_server c (next_id d + int i)) (enumerate 0 (fresh_nodes (servers d) cfgs)) \<and>
    next_id (sync_rows cfgs d) = next_id d + int (length (fresh_nodes (servers d) cfgs))"
  using assms(3)
proof (induction cfgs rule: rev_induct)
  case Nil
  have "synced_row [] = id" by (rule HOL.ext) (simp add: synced_row_def)
  then show ?case by (simp add: sync_rows_def fresh_nodes_def)
next
  case (snoc cfg cfgs)
  let ?w = "sync_rows cfgs d"
  have step: "sync_rows (cfgs @ [cfg]) d = sync_one (servers d) cfg ?w" by (simp add: sync_rows_def)
  from snoc have IH: "servers ?w = map (synced_row cfgs) (servers d) @
      map (\<lambda>(i, c). new_server c (next_id d + int i)) (enumerate 0 (fresh_nodes (servers d) cfgs))"
    "next_id ?w = next_id d + int (length (fresh_nodes (servers d) cfgs))"
    and fresh: "nc_name cfg \<notin> nc_name ` set cfgs" by auto
  show ?case
  proof (cases "find (\<lambda>r. srv_name r = nc_name cfg) (servers d)")
    case None
    then have "synced_row (cfgs @ [cfg]) r = synced_row cfgs r" if "r \<in> set (servers d)" for r
      using that synced_row_snoc[OF fresh] by (auto simp: find_None_all)
    moreover have "fresh_nodes (servers d) (cfgs @ [cfg]) = fresh_nodes (servers d) cfgs @ [cfg]"
      using None by (auto simp: fresh_nodes_def find_None_all)
    ultimately show ?thesis using None IH
      by (simp add: step sync_one_def enumerate_append_eq)
  next
    case (Some r0)
    then have r0: "r0 \<in> set (servers d)" "srv_name r0 = nc_name cfg" by (auto dest: find_Some_iff_mem)
    have fn: "fresh_nodes (servers d) (cfgs @ [cfg]) = fresh_nodes (servers d) cfgs"
      using r0 by (force simp: fresh_nodes_def)
    have same: "srv_id r = srv_id r0 \<longleftrightarrow> srv_name r = nc_name cfg" if "r \<in> set (servers d)" for r
      using that r0 assms(1,2) unfolding servers_ok_def by (metis distinct_map inj_onD)
    have upd: "(if srv_id (synced_row cfgs r) = srv_id r0 then set_server cfg (synced_row cfgs r)
          else synced_row cfgs r) = synced_row (cfgs @ [cfg]) r" if "r \<in> set (servers d)" for r
      using same[OF that] synced_row_snoc[OF fresh, of r]
      by (auto simp: synced_row_def split: option.split)
    have old: "srv_id x \<noteq> srv_id r0"
      if "x \<in> set (map (\<lambda>(i, c). new_server c (next_id d + int i)) (enumerate 0 (fresh_nodes (servers d) cfgs)))" for x
      using that r0(1) assms(1) unfolding servers_ok_def by fastforce
    have "update_rows (\<lambda>r. srv_id r = srv_id r0) (set_server cfg) (map (synced_row cfgs) (servers d)) =
        map (synced_row (cfgs @ [cfg])) (servers d)"
      using upd by (auto simp: update_rows_def)
    moreover have "update_rows (\<lambda>r. srv_id r = srv_id r0) (set_server cfg)
        (map (\<lambda>(i, c). new_server c (next_id d + int i)) (enumerate 0 (fresh_nodes (servers d) cfgs))) =
        map (\<lambda>(i, c). new_server c (next_id d + int i)) (enumerate 0 (fresh_nodes (servers d) cfgs))"
      by (rule update_rows_id) (use old in blast)
    ultimately show ?thesis using Some IH fn by (simp add: step sync_one_def)
  qed
qed

text \<open>
  Starting the backend brings the servers table in line with the configuration. When the
  synchronisation commits, every configured node has exactly the row of its name with the configured
  settings, a server that is not configured is left as it was, an existing server keeps its id, its
  active flag and its last seen memory; and nothing else of the database changes. When it does not
  commit, nothing changes.
\<close>

theorem sync_servers_result:
  assumes "servers_ok (db s)" and "constraints_ok (db s)"
    and "distinct (map nc_name (get_node_configs (conf e)))"
    and "sync_servers e s = (r, s')"
  shows "r = Inr () \<and> (db s' = db s \<or>
    (\<forall>cfg \<in> set (get_node_configs (conf e)). \<exists>row \<in> set (servers (db s')). configured_as cfg row) \<and>
    (\<forall>row \<in> set (servers (db s)).
       if srv_name row \<in> nc_name ` set (get_node_configs (conf e))
       then \<exists>row' \<in> set (servers (db s')). srv_id row' = srv_id row \<and> srv_name row' = srv_name row \<and>
              srv_is_active row' = srv_is_active row \<and> srv_last_free_ram_mb row' = srv_last_free_ram_mb row
       else row \<in> set (servers (db s'))) \<and>
    length (servers (db s')) = length (servers (db s)) +
      length (fresh_nodes (servers (db s)) (get_node_configs (conf e))) \<and>
    vms (db s') = vms (db s) \<and> users (db s') = users (db s))"
proof -
  let ?cfgs = "get_node_configs (conf e)"
  let ?d = "sync_rows ?cfgs (db s)"
  have names: "distinct (map srv_name (servers (db s)))" using assms(2) by (simp add: constraints_ok_def)
  note shape = sync_rows_shape[OF assms(1) names assms(3), THEN conjunct1]
  have other: "vms (foldl (\<lambda>w cfg. sync_one c cfg w) d cfgs) = vms d \<and>
      users (foldl (\<lambda>w cfg. sync_one c cfg w) d cfgs) = users d" for c d cfgs
    by (induction cfgs arbitrary: d) (auto simp: sync_one_def split: option.splits)
  have run: "r = Inr () \<and> (db s' = db s \<or> db s' = ?d)"
    using assms(4) by (auto simp: sync_servers_def Let_def catch_def commit_def seq_def gets_def ret_def
        raise_def modify_def ext_def split: if_splits sum.splits)
  have new: "\<exists>row \<in> set (servers ?d). configured_as cfg row" if cfg: "cfg \<in> set ?cfgs" for cfg
  proof (cases "nc_name cfg \<in> srv_name ` set (servers (db s))")
    case True
    then obtain row where row: "row \<in> set (servers (db s))" "srv_name row = nc_name cfg" by auto
    have "find (\<lambda>c. nc_name c = nc_name cfg) ?cfgs = Some cfg" using find_distinct[OF assms(3) cfg] .
    then have "configured_as cfg (synced_row ?cfgs row)"
      using row(2) by (simp add: configured_as_def synced_row_def)
    then show ?thesis using row(1) shape by auto
  next
    case False
    then have "cfg \<in> set (fresh_nodes (servers (db s)) ?cfgs)" using cfg by (simp add: fresh_nodes_def)
    then obtain i where "i < length (fresh_nodes (servers (db s)) ?cfgs)" "fresh_nodes (servers (db s)) ?cfgs ! i = cfg"
      by (auto simp: in_set_conv_nth)
    then have "(i, cfg) \<in> set (enumerate 0 (fresh_nodes (servers (db s)) ?cfgs))"
      by (simp add: in_set_enumerate_eq)
    then have "new_server cfg (next_id (db s) + int i) \<in> set (servers ?d)" using shape by force
    then show ?thesis by (rule bexI[rotated]) (simp add: configured_as_def)
  qed
  have old: "if srv_name row \<in> nc_name ` set ?cfgs
       then \<exists>row' \<in> set (servers ?d). srv_id row' = srv_id row \<and> srv_name row' = srv_name row \<and>
              srv_is_active row' = srv_is_active row \<and> srv_last_free_ram_mb row' = srv_last_free_ram_mb row
       else row \<in> set (servers ?d)" if row: "row \<in> set (servers (db s))" for row
  proof -
    have m: "synced_row ?cfgs row \<in> set (servers ?d)" using row shape by auto
    show ?thesis
    proof (cases "srv_name row \<in> nc_name ` set ?cfgs")
      case True
      have "srv_is_active (synced_row ?cfgs row) = srv_is_active row \<and>
          srv_last_free_ram_mb (synced_row ?cfgs row) = srv_last_free_ram_mb row"
        by (simp add: synced_row_def split: option.split)
      then have "\<exists>row' \<in> set (servers ?d). srv_id row' = srv_id row \<and> srv_name row' = srv_name row \<and>
              srv_is_active row' = srv_is_active row \<and> srv_last_free_ram_mb row' = srv_last_free_ram_mb row"
        by (intro bexI[OF _ m]) simp
      then show ?thesis using True by (simp only: if_True)
    next
      case False
      then have "find (\<lambda>c. nc_name c = srv_name row) ?cfgs = None"
        unfolding find_None_all by (metis image_eqI)
      then have "synced_row ?cfgs row = row" by (simp add: synced_row_def)
      then show ?thesis using m False by simp
    qed
  qed
  have len: "length (servers ?d) = length (servers (db s)) + length (fresh_nodes (servers (db s)) ?cfgs)"
    using shape by simp
  have rest: "vms ?d = vms (db s) \<and> users ?d = users (db s)" unfolding sync_rows_def by (rule other)
  from run consider "r = Inr ()" "db s' = db s" | "r = Inr ()" "db s' = ?d" by blast
  then show ?thesis
  proof cases
    case 2
    show ?thesis unfolding 2 using new old len rest by blast
  qed simp
qed

definition sample_nodes :: settings where
  "sample_nodes = sample_settings\<lparr>NODES := [
     \<lparr>NODE_NAME = ''node1'', NODE_IP = ''10.0.0.9'', NODE_PORT = 8006, NODE_USER = ''root@pam'',
       NODE_PASSWORD = ''p'', NODE_SSH_PORT = 22, NODE_BASE_PORT = 31000, NODE_CLONE_STORAGES = ''ssd1, ssd2,ssd1''\<rparr>,
     \<lparr>NODE_NAME = ''node2'', NODE_IP = ''10.0.0.3'', NODE_PORT = 8007, NODE_USER = ''root@pam'',
       NODE_PASSWORD = ''p'', NODE_SSH_PORT = 22, NODE_BASE_PORT = 22000, NODE_CLONE_STORAGES = ''''\<rparr>,
     \<lparr>NODE_NAME = '''', NODE_IP = '''', NODE_PORT = 8008, NODE_USER = ''root@pam'',
       NODE_PASSWORD = '''', NODE_SSH_PORT = 22, NODE_BASE_PORT = 23000, NODE_CLONE_STORAGES = ''''\<rparr>]\<rparr>"

definition sync_env :: env where
  "sync_env = (sample_env agreeing)\<lparr>conf := sample_nodes\<rparr>"

definition sync_start :: sys where
  "sync_start = sample_state (empty_database\<lparr>servers := [sample_server], next_id := 2\<rparr>)"

lemma sync_servers_result_witness:
  "\<exists>row \<in> set (servers (db (snd (sync_servers sync_env sync_start)))).
     configured_as (node_config_of sample_nodes (NODES sample_nodes ! 1)) row"
proof -
  let ?r = "sync_servers sync_env sync_start"
  have cfgs: "get_node_configs (conf sync_env) =
      [node_config_of sample_nodes (NODES sample_nodes ! 0), node_config_of sample_nodes (NODES sample_nodes ! 1)]"
    by (simp add: get_node_configs_def sync_env_def sample_nodes_def)
  have "servers_ok (db sync_start)" "constraints_ok (db sync_start)"
    by (simp_all add: servers_ok_def constraints_ok_def sync_start_def sample_defs)
  moreover have "distinct (map nc_name (get_node_configs (conf sync_env)))"
    unfolding cfgs by (simp add: node_config_of_def sample_nodes_def)
  moreover have "?r = (fst ?r, snd ?r)" by simp
  ultimately have *: "db (snd ?r) = db sync_start \<or>
     (\<forall>cfg \<in> set (get_node_configs (conf sync_env)). \<exists>row \<in> set (servers (db (snd ?r))). configured_as cfg row)"
    using sync_servers_result[of sync_start sync_env "fst ?r" "snd ?r"] by blast
  have "length (servers (db (snd ?r))) = 2"
    by code_simp
  then have "db (snd ?r) \<noteq> db sync_start" by (auto simp: sync_start_def sample_state_def)
  with * show ?thesis by (simp add: cfgs)
qed

text \<open>
  The candidate storages of a node are the entries of its setting, stripped, without blanks and
  without repetitions.
\<close>

theorem get_clone_storages_candidates:
  "distinct (get_clone_storages c name) \<and>
   (\<forall>st \<in> set (get_clone_storages c name). st \<noteq> [] \<and>
      (\<exists>n \<in> set (NODES c). NODE_NAME n = name \<and>
         (\<exists>piece \<in> set (split_char (CHR '','') (NODE_CLONE_STORAGES n)). st = py_strip piece)))"
proof (cases "name = []")
  case False
  then show ?thesis
    by (cases "find (\<lambda>n. NODE_NAME n = name) (NODES c)")
      (auto simp: get_clone_storages_def dest!: find_Some_iff_mem)
qed (simp add: get_clone_storages_def)

lemma get_clone_storages_candidates_witness:
  "get_clone_storages sample_nodes ''node1'' = [''ssd1'', ''ssd2''] \<and> distinct (get_clone_storages sample_nodes ''node1'')"
proof -
  have "get_clone_storages sample_nodes ''node1'' = [''ssd1'', ''ssd2'']" by code_simp
  then show ?thesis using get_clone_storages_candidates[of sample_nodes "''node1''"] by simp
qed

end
