(* ===== verification/VmAlloc.thy ===== *)
theory VmAlloc
  imports Network Sample
begin

text \<open>
  The allocation half of \<open>services/vm_service.py\<close>: random passwords, DNS-safe VM names, the choice of a
  Proxmox id, and the reservation of an internal IP with the lock that serialises it.
\<close>

section \<open>Random texts and passwords\<close>

text \<open>\<open>''.join(secrets.choice(chars) for _ in range(n))\<close>.\<close>

definition random_text :: "env \<Rightarrow> string \<Rightarrow> nat \<Rightarrow> (sys, string) prog" where
  "random_text e chars n = map_each [0..<n] (\<lambda>_. choice e chars)"

definition pw_symbols :: string where "pw_symbols = ''!@#%&*''"

definition pw_chars :: string where "pw_chars = ascii_letters @ digits @ pw_symbols"

definition pw_policy :: "string \<Rightarrow> bool" where
  "pw_policy p \<longleftrightarrow> list_ex (\<lambda>c. c \<in> set ascii_letters) p \<and> list_ex (\<lambda>c. c \<in> set digits) p \<and>
     list_ex (\<lambda>c. c \<in> set pw_symbols) p"

text \<open>
  \<open>_generate_password\<close> calls itself until the password meets the policy. The first argument is the number
  of frames the interpreter still allows; below it Python raises \<open>RecursionError\<close>.
\<close>

fun generate_password_rec :: "env \<Rightarrow> nat \<Rightarrow> nat \<Rightarrow> (sys, string) prog" where
  "generate_password_rec e 0 len = raise (RuntimeError ''recursion'')"
| "generate_password_rec e (Suc frames) len =
     seq (random_text e pw_chars len) (\<lambda>password.
     if \<not> pw_policy password then generate_password_rec e frames len else ret password)"

definition RECURSION_LIMIT :: nat where "RECURSION_LIMIT = 900"

definition generate_password :: "env \<Rightarrow> (sys, string) prog" where
  "generate_password e = generate_password_rec e RECURSION_LIMIT 8"

section \<open>Names\<close>

definition dns_char :: "char \<Rightarrow> bool" where
  "dns_char c \<longleftrightarrow> c \<in> set ascii_lowercase \<or> is_digit c \<or> c = CHR ''-''"

fun collapse_hyphens :: "string \<Rightarrow> string" where
  "collapse_hyphens (a # b # cs) =
     (if a = CHR ''-'' \<and> b = CHR ''-'' then collapse_hyphens (b # cs) else a # collapse_hyphens (b # cs))"
| "collapse_hyphens cs = cs"

definition sanitize_dns_name :: "string \<Rightarrow> string" where
  "sanitize_dns_name name =
     (let low = py_lower name;
          mapped = map (\<lambda>c. if dns_char c then c else CHR ''-'') low;
          stripped = strip_char (CHR ''-'') (collapse_hyphens mapped)
      in if stripped = [] then ''vm'' else stripped)"

definition generate_vm_name :: "env \<Rightarrow> user \<Rightarrow> string \<Rightarrow> string option \<Rightarrow> (sys, string \<times> string) prog" where
  "generate_vm_name e u tier custom_name =
     (let username = sanitize_dns_name (hd (split_char (CHR ''@'') (u_email u))) in
      case custom_name of
        Some n \<Rightarrow>
          if n \<noteq> [] then ret (username @ ''-'' @ sanitize_dns_name n, n)
          else seq (random_text e (ascii_lowercase @ digits) 4) (\<lambda>suffix.
               let short = sanitize_dns_name tier @ ''-'' @ suffix in ret (username @ ''-'' @ short, short))
      | None \<Rightarrow>
          seq (random_text e (ascii_lowercase @ digits) 4) (\<lambda>suffix.
          let short = sanitize_dns_name tier @ ''-'' @ suffix in ret (username @ ''-'' @ short, short)))"

section \<open>Proxmox ids\<close>

text \<open>A value used as an integer without conversion.\<close>

fun need_int :: "json \<Rightarrow> exn + int" where
  "need_int (JInt i) = Inr i"
| "need_int _ = Inl TypeError"

fun max_vmid :: "json list \<Rightarrow> int option \<Rightarrow> exn + int" where
  "max_vmid [] best = (case best of None \<Rightarrow> Inl (ValueError ''max'') | Some b \<Rightarrow> Inr b)"
| "max_vmid (v # vs) best =
     andthen (obj_get v ''vmid'' (JInt 100)) (\<lambda>j.
     andthen (need_int j) (\<lambda>i.
     max_vmid vs (Some (case best of None \<Rightarrow> i | Some b \<Rightarrow> max b i))))"

definition get_next_vmid :: "env \<Rightarrow> string \<Rightarrow> (sys, int) prog" where
  "get_next_vmid e node =
     catch (seq (ext e (PveNextId None)) (\<lambda>j. lift (as_int j)))
       (\<lambda>_. seq (ext e (PveQemuList node)) (\<lambda>vms.
            if \<not> truthy vms then ret 100
            else seq (lift (as_list vms)) (\<lambda>vs. seq (lift (max_vmid vs None)) (\<lambda>m. ret (m + 1)))))"

text \<open>\<open>all(int(vm.get("vmid", -1)) != vmid for vm in vms)\<close>, which stops at the first VM with this id.\<close>

fun no_such_vmid :: "int \<Rightarrow> json list \<Rightarrow> exn + bool" where
  "no_such_vmid vmid [] = Inr True"
| "no_such_vmid vmid (v # vs) =
     andthen (obj_get v ''vmid'' (JInt (- 1))) (\<lambda>j.
     andthen (as_int j) (\<lambda>i.
     if i \<noteq> vmid then no_such_vmid vmid vs else Inr False))"

fun is_resource_exception :: "exn \<Rightarrow> bool" where
  "is_resource_exception (ResourceException _ _) = True"
| "is_resource_exception _ = False"

definition is_vmid_free_in_proxmox :: "env \<Rightarrow> string \<Rightarrow> int \<Rightarrow> (sys, bool) prog" where
  "is_vmid_free_in_proxmox e node vmid =
     catch (seq (ext e (PveNextId (Some vmid))) (\<lambda>_. ret True))
       (\<lambda>x. if is_resource_exception x then ret False
            else seq (ext e (PveQemuList node)) (\<lambda>vms.
                 seq (lift (as_list vms)) (\<lambda>vs. lift (no_such_vmid vmid vs))))"

definition vmid_conflicts_in_db :: "database \<Rightarrow> server \<Rightarrow> int \<Rightarrow> exn + bool" where
  "vmid_conflicts_in_db d srv vmid =
     (if \<exists>v \<in> set (vms d). vm_server_id v = srv_id srv \<and> vm_vmid v = vmid then Inr True
      else andthen (calculate_ports (srv_base_port srv) vmid) (\<lambda>p.
           Inr (\<exists>q \<in> set (vm_ports d). p_external_port q \<in> set (port_values p))))"

definition MAX_VMID_PROBES :: nat where "MAX_VMID_PROBES = 50"

fun probe_vmids :: "env \<Rightarrow> server \<Rightarrow> nat \<Rightarrow> int \<Rightarrow> (sys, int) prog" where
  "probe_vmids e srv 0 vmid = raise (Http 507 ''no-vmid'')"
| "probe_vmids e srv (Suc n) vmid =
     seq (gets db) (\<lambda>d.
     seq (lift (vmid_conflicts_in_db d srv vmid)) (\<lambda>conflict.
     seq (if conflict then ret False else is_vmid_free_in_proxmox e (srv_name srv) vmid) (\<lambda>ok.
     if ok then ret vmid else probe_vmids e srv n (vmid + 1))))"

definition select_vmid :: "env \<Rightarrow> server \<Rightarrow> (sys, int) prog" where
  "select_vmid e srv = seq (get_next_vmid e (srv_name srv)) (probe_vmids e srv MAX_VMID_PROBES)"

section \<open>Internal addresses\<close>

definition used_ips :: "database \<Rightarrow> string set" where
  "used_ips d = {ip. Some ip \<in> vm_internal_ip ` set (vms d)}"

definition ip_candidate :: "settings \<Rightarrow> int \<Rightarrow> string" where
  "ip_candidate c octet = INTERNAL_SUBNET c @ ''.'' @ show_int octet"

definition first_free_octet :: "settings \<Rightarrow> database \<Rightarrow> int option" where
  "first_free_octet c d =
     find (\<lambda>octet. Some (ip_candidate c octet) \<notin> vm_internal_ip ` set (vms d))
       [INTERNAL_IP_START c..INTERNAL_IP_END c]"

text \<open>\<open>_allocate_internal_ip\<close> with the lock held; the lock itself is the step relation below.\<close>

definition allocate_internal_ip :: "env \<Rightarrow> (sys, string) prog" where
  "allocate_internal_ip e =
     seq (gets db) (\<lambda>d.
     case first_free_octet (conf e) d of
       None \<Rightarrow> raise (Http 507 ''no-internal-ip'')
     | Some octet \<Rightarrow> ret (ip_candidate (conf e) octet))"

section \<open>The allocation lock\<close>

text \<open>
  \<open>_acquire_internal_ip_allocation_lock\<close> on a database without advisory locks. \<open>holder\<close> is the session that
  holds the process-wide lock, \<open>held\<close> the sessions whose \<open>info\<close> dictionary has the lock, \<open>on_commit\<close> and
  \<open>on_rollback\<close> the listeners registered with \<open>once=True\<close>. A session that is closed without commit or
  rollback runs no listener.
\<close>

record ip_lock =
  holder :: "nat option"
  held :: "nat \<Rightarrow> bool"
  on_commit :: "nat \<Rightarrow> nat"
  on_rollback :: "nat \<Rightarrow> nat"

definition lock_start :: "ip_lock \<Rightarrow> bool" where
  "lock_start l \<longleftrightarrow> holder l = None \<and> (\<forall>i. \<not> held l i \<and> on_commit l i = 0 \<and> on_rollback l i = 0)"

text \<open>\<open>_release_fallback_ip_allocation_lock\<close>.\<close>

definition release_lock :: "nat \<Rightarrow> ip_lock \<Rightarrow> ip_lock" where
  "release_lock i l =
     (if held l i then l\<lparr>holder := None, held := (held l)(i := False)\<rparr> else l)"

inductive lock_step :: "ip_lock \<Rightarrow> ip_lock \<Rightarrow> bool" where
  acquire: "\<not> held l i \<Longrightarrow> holder l = None \<Longrightarrow>
     lock_step l (l\<lparr>holder := Some i, held := (held l)(i := True),
       on_commit := (on_commit l)(i := on_commit l i + 1),
       on_rollback := (on_rollback l)(i := on_rollback l i + 1)\<rparr>)"
| reenter: "held l i \<Longrightarrow> lock_step l l"
| time_out: "\<not> held l i \<Longrightarrow> holder l \<noteq> None \<Longrightarrow> lock_step l l"
| do_commit: "lock_step l
     (if 0 < on_commit l i then (release_lock i l)\<lparr>on_commit := (on_commit l)(i := 0)\<rparr> else l)"
| do_rollback: "lock_step l
     (if 0 < on_rollback l i then (release_lock i l)\<lparr>on_rollback := (on_rollback l)(i := 0)\<rparr> else l)"

definition lock_inv :: "ip_lock \<Rightarrow> bool" where
  "lock_inv l \<longleftrightarrow> (\<forall>i. held l i \<longleftrightarrow> holder l = Some i) \<and>
     (\<forall>i. held l i \<longrightarrow> 0 < on_commit l i \<and> 0 < on_rollback l i)"

inductive_cases lock_stepE: "lock_step l l'"

lemma lock_inv_release: "lock_inv l \<Longrightarrow> lock_inv (release_lock i l) \<and> \<not> held (release_lock i l) i"
  by (auto simp: lock_inv_def release_lock_def)

interpretation ip_lock: invariant_system lock_start lock_step lock_inv
proof
  fix l assume "lock_start l"
  then show "lock_inv l" by (simp add: lock_start_def lock_inv_def)
next
  fix l l' assume inv: "lock_inv l" and step: "lock_step l l'"
  from step show "lock_inv l'"
  proof cases
    case (acquire i)
    then show ?thesis using inv by (auto simp: lock_inv_def)
  next
    case (do_commit i)
    have "lock_inv (release_lock i l)" "\<not> held (release_lock i l) i" using lock_inv_release[OF inv] by auto
    moreover have "on_commit (release_lock i l) = on_commit l" by (simp add: release_lock_def)
    ultimately show ?thesis using inv do_commit by (auto simp: lock_inv_def)
  next
    case (do_rollback i)
    have "lock_inv (release_lock i l)" "\<not> held (release_lock i l) i" using lock_inv_release[OF inv] by auto
    moreover have "on_rollback (release_lock i l) = on_rollback l" by (simp add: release_lock_def)
    ultimately show ?thesis using inv do_rollback by (auto simp: lock_inv_def)
  qed (use inv in auto)
qed

section \<open>Evaluation\<close>

text \<open>The bounded loops, unfolded only when the state is given, so that evaluation takes one round at a time.\<close>

lemma generate_password_rec_code [code]:
  "generate_password_rec e 0 len s = (Inl (RuntimeError ''recursion''), s)"
  "generate_password_rec e (Suc n) len s = (case random_text e pw_chars len s of
       (Inl x, t) \<Rightarrow> (Inl x, t)
     | (Inr p, t) \<Rightarrow> if pw_policy p then (Inr p, t) else generate_password_rec e n len t)"
  by (auto simp: raise_def seq_def ret_def split: prod.splits sum.splits)

lemma probe_vmids_code [code]:
  "probe_vmids e srv 0 v s = (Inl (Http 507 ''no-vmid''), s)"
  "probe_vmids e srv (Suc n) v s = (case vmid_conflicts_in_db (db s) srv v of
       Inl x \<Rightarrow> (Inl x, s)
     | Inr conflict \<Rightarrow>
         if conflict then probe_vmids e srv n (v + 1) s
         else (case is_vmid_free_in_proxmox e (srv_name srv) v s of
             (Inl x, t) \<Rightarrow> (Inl x, t)
           | (Inr ok, t) \<Rightarrow> if ok then (Inr v, t) else probe_vmids e srv n (v + 1) t))"
  by (auto simp: raise_def seq_def ret_def gets_def lift_def split: prod.splits sum.splits)

section \<open>Frames and logs\<close>

lemma keeps_random_text [keeps_intros]:
  "keeps db (random_text e cs n)" "keeps calls (random_text e cs n)"
  unfolding random_text_def by (auto intro!: keeps_intros)

lemma keeps_generate_password [keeps_intros]:
  "keeps db (generate_password e)" "keeps calls (generate_password e)"
proof -
  have "keeps db (generate_password_rec e f n) \<and> keeps calls (generate_password_rec e f n)" for f n
    by (induction f) (auto intro!: keeps_intros)
  then show "keeps db (generate_password e)" "keeps calls (generate_password e)"
    by (auto simp: generate_password_def)
qed

lemma keeps_generate_vm_name [keeps_intros]:
  "keeps db (generate_vm_name e u t n)" "keeps calls (generate_vm_name e u t n)"
  unfolding generate_vm_name_def Let_def by (intro keeps_intros)+

lemma keeps_allocate_ip [keeps_intros]: "keeps f (allocate_internal_ip e)"
  unfolding allocate_internal_ip_def by (intro keeps_intros)

lemma keeps_vmid_free [keeps_intros]: "keeps db (is_vmid_free_in_proxmox e n v)"
  unfolding is_vmid_free_in_proxmox_def by (intro keeps_intros)

lemma keeps_probe_vmids [keeps_intros]: "keeps db (probe_vmids e srv n v)"
  by (induction n arbitrary: v) (auto intro!: keeps_intros)

lemma keeps_select_vmid [keeps_intros]: "keeps db (select_vmid e srv)"
  unfolding select_vmid_def get_next_vmid_def by (intro keeps_intros)

definition vmid_calls :: "call set" where
  "vmid_calls = {c. case c of PveNextId _ \<Rightarrow> True | PveQemuList _ \<Rightarrow> True | _ \<Rightarrow> False}"

lemma vmid_calls_mem [simp]: "PveNextId x \<in> vmid_calls" "PveQemuList n \<in> vmid_calls"
  by (simp_all add: vmid_calls_def)

lemma logs_select_vmid [logs_intros]: "logs vmid_calls (select_vmid e srv)"
proof -
  have "logs vmid_calls (probe_vmids e srv n v)" for n v
    by (induction n arbitrary: v) (auto simp: is_vmid_free_in_proxmox_def intro!: logs_intros)
  then show ?thesis
    unfolding select_vmid_def get_next_vmid_def by (auto intro!: logs_intros)
qed

section \<open>Properties\<close>

lemma choice_run: "choice e cs s = (Inr (cs ! (entropy e (rng s) mod length cs)), s\<lparr>rng := rng s + 1\<rparr>)"
  by (simp add: choice_def seq_def draw_def ret_def)

lemma map_each_choice:
  "map_each xs (\<lambda>_. choice e cs) s =
     (Inr (map (\<lambda>i. cs ! (entropy e (rng s + i) mod length cs)) [0..<length xs]), s\<lparr>rng := rng s + length xs\<rparr>)"
proof (induction xs arbitrary: s)
  case Nil
  then show ?case by (simp add: ret_def)
next
  case (Cons x xs)
  have "[0..<length (x # xs)] = 0 # map Suc [0..<length xs]"
    by (simp add: upt_conv_Cons map_Suc_upt del: upt_Suc)
  moreover have "map_each (x # xs) (\<lambda>_. choice e cs) s =
     (Inr (cs ! (entropy e (rng s) mod length cs) #
        map (\<lambda>i. cs ! (entropy e (rng (s\<lparr>rng := rng s + 1\<rparr>) + i) mod length cs)) [0..<length xs]),
      s\<lparr>rng := rng s + 1 + length xs\<rparr>)"
    by (simp only: map_each.simps seq_def choice_run Cons.IH prod.case sum.case ret_def) simp
  ultimately show ?case by (simp add: o_def)
qed

lemma random_text_run:
  "random_text e cs n s =
     (Inr (map (\<lambda>i. cs ! (entropy e (rng s + i) mod length cs)) [0..<n]), s\<lparr>rng := rng s + n\<rparr>)"
  by (simp add: random_text_def map_each_choice)

lemma random_text_chars:
  assumes "random_text e cs n s = (Inr p, s')" and "cs \<noteq> []"
  shows "length p = n \<and> set p \<subseteq> set cs"
  using assms by (auto simp: random_text_run)

text \<open>The \<open>k\<close>-th password drawn from a state.\<close>

definition drawn_password :: "env \<Rightarrow> sys \<Rightarrow> nat \<Rightarrow> nat \<Rightarrow> string" where
  "drawn_password e s len k =
     map (\<lambda>i. pw_chars ! (entropy e (rng s + k * len + i) mod length pw_chars)) [0..<len]"

lemma generate_password_rec_run:
  assumes "generate_password_rec e n len s = (r, s')"
  shows "case r of
      Inr p \<Rightarrow> pw_policy p \<and> (\<exists>k < n. p = drawn_password e s len k \<and>
        (\<forall>j < k. \<not> pw_policy (drawn_password e s len j)))
    | Inl x \<Rightarrow> \<forall>j < n. \<not> pw_policy (drawn_password e s len j)"
  using assms
proof (induction n arbitrary: s)
  case 0
  then show ?case by (auto simp: raise_def)
next
  case (Suc n)
  let ?t = "s\<lparr>rng := rng s + len\<rparr>"
  have first: "random_text e pw_chars len s = (Inr (drawn_password e s len 0), ?t)"
    by (simp add: random_text_run drawn_password_def)
  have shift: "drawn_password e ?t len j = drawn_password e s len (Suc j)" for j
    by (simp add: drawn_password_def add.assoc add.left_commute)
  show ?case
  proof (cases "pw_policy (drawn_password e s len 0)")
    case True
    then have "r = Inr (drawn_password e s len 0)" using Suc.prems first by (simp add: seq_def ret_def)
    then show ?thesis using True by auto
  next
    case False
    then have run: "generate_password_rec e n len ?t = (r, s')" using Suc.prems first by (simp add: seq_def)
    show ?thesis
    proof (cases r)
      case (Inl x)
      then show ?thesis using Suc.IH[OF run] False by (auto simp: shift less_Suc_eq_0_disj)
    next
      case (Inr p)
      then obtain k where k: "pw_policy p" "k < n" "p = drawn_password e s len (Suc k)"
        "\<forall>j < k. \<not> pw_policy (drawn_password e s len (Suc j))"
        using Suc.IH[OF run] by (auto simp: shift)
      then have "\<forall>j < Suc k. \<not> pw_policy (drawn_password e s len j)"
        using False by (simp add: less_Suc_eq_0_disj) blast
      then show ?thesis using Inr k by (intro sum.case_eq_if[THEN iffD2] impI conjI) (auto intro!: exI[of _ "Suc k"])
    qed
  qed
qed

lemma drawn_password_chars: "length (drawn_password e s len k) = len \<and> set (drawn_password e s len k) \<subseteq> set pw_chars"
proof -
  have "pw_chars \<noteq> []" by (simp add: pw_chars_def digits_def)
  then have "pw_chars ! (x mod length pw_chars) \<in> set pw_chars" for x by simp
  then show ?thesis unfolding drawn_password_def by auto
qed

text \<open>
  A generated VM password has eight characters, only letters, digits and the six symbols, with at
  least one of each kind: it is the first of the drawn passwords that meets the policy. The generator
  fails only when the first 900 draws all miss the policy.
\<close>

theorem generate_password_policy:
  assumes "generate_password e s = (r, s')"
  shows "(\<forall>p. r = Inr p \<longrightarrow> length p = 8 \<and> set p \<subseteq> set pw_chars \<and> pw_policy p \<and> db s' = db s) \<and>
     ((\<exists>p. r = Inr p) \<longleftrightarrow> (\<exists>k < 900. pw_policy (drawn_password e s 8 k)))"
proof -
  have run: "generate_password_rec e 900 8 s = (r, s')"
    using assms by (simp add: generate_password_def RECURSION_LIMIT_def)
  have d: "db s' = db s" using keepsD[OF keeps_generate_password(1) assms] .
  show ?thesis
  proof (cases r)
    case (Inl x)
    then show ?thesis using generate_password_rec_run[OF run] by auto
  next
    case (Inr p)
    then obtain k where "pw_policy p" "k < 900" "p = drawn_password e s 8 k"
      using generate_password_rec_run[OF run] by auto
    then show ?thesis using Inr d drawn_password_chars[of e s 8 k] by auto
  qed
qed

lemma generate_password_policy_witness:
  "\<exists>p s'. generate_password (sample_env agreeing\<lparr>entropy := (\<lambda>n. 31 * n)\<rparr>) (sample_state empty_database) = (Inr p, s')
     \<and> pw_policy p"
proof -
  let ?e = "sample_env agreeing\<lparr>entropy := (\<lambda>n. 31 * n)\<rparr>" and ?s = "sample_state empty_database"
  obtain r s' where run: "generate_password ?e ?s = (r, s')" by fastforce
  have "pw_policy (drawn_password ?e ?s 8 0)" by code_simp
  then obtain p where "r = Inr p" using generate_password_policy[OF run] by (metis zero_less_numeral)
  then show ?thesis using run generate_password_policy[OF run] by blast
qed

subsection \<open>Names\<close>

definition single_hyphens :: "string \<Rightarrow> bool" where
  "single_hyphens s \<longleftrightarrow> successively (\<lambda>a b. \<not> (a = CHR ''-'' \<and> b = CHR ''-'')) s"

definition dns_name :: "string \<Rightarrow> bool" where
  "dns_name s \<longleftrightarrow> s \<noteq> [] \<and> list_all dns_char s \<and> hd s \<noteq> CHR ''-'' \<and> last s \<noteq> CHR ''-'' \<and> single_hyphens s"

lemma hd_collapse: "collapse_hyphens s \<noteq> [] \<Longrightarrow> hd (collapse_hyphens s) = hd s"
  by (induction s rule: collapse_hyphens.induct) (auto split: if_splits)

lemma collapse_nonempty [simp]: "collapse_hyphens s = [] \<longleftrightarrow> s = []"
  by (induction s rule: collapse_hyphens.induct) auto

lemma collapse_single: "single_hyphens (collapse_hyphens s)"
proof (induction s rule: collapse_hyphens.induct)
  case (1 a b cs)
  obtain x xs where x: "collapse_hyphens (b # cs) = x # xs" by (cases "collapse_hyphens (b # cs)") auto
  have "x = b" using hd_collapse[of "b # cs"] x by simp
  then show ?case using 1 x by (auto simp: single_hyphens_def successively_Cons)
qed (simp_all add: single_hyphens_def)

lemma set_collapse: "set (collapse_hyphens s) \<subseteq> set s"
  by (induction s rule: collapse_hyphens.induct) auto

lemma collapse_id: "single_hyphens s \<Longrightarrow> collapse_hyphens s = s"
  by (induction s rule: collapse_hyphens.induct) (auto simp: single_hyphens_def)

lemma single_dropWhile: "single_hyphens s \<Longrightarrow> single_hyphens (dropWhile P s)"
  unfolding single_hyphens_def by (metis successively_append_iff takeWhile_dropWhile_id)

lemma single_rev [simp]: "single_hyphens (rev s) \<longleftrightarrow> single_hyphens s"
proof -
  have "(\<lambda>x y. \<not> (y = CHR ''-'' \<and> x = CHR ''-'')) = (\<lambda>a b. \<not> (a = CHR ''-'' \<and> b = CHR ''-''))"
    by (intro HOL.ext) blast
  then show ?thesis unfolding single_hyphens_def successively_rev by (rule arg_cong[where f = "\<lambda>R. successively R s"])
qed

lemma single_strip: "single_hyphens s \<Longrightarrow> single_hyphens (strip_char (CHR ''-'') s)"
  by (simp add: strip_char_def single_dropWhile)

lemma strip_id: "s \<noteq> [] \<Longrightarrow> hd s \<noteq> x \<Longrightarrow> last s \<noteq> x \<Longrightarrow> strip_char x s = s"
  by (simp add: strip_char_def dropWhile_id_hd hd_rev)

lemma dns_char_ascii: "dns_char c \<Longrightarrow> lower_char c = c \<and> c \<noteq> CHR 0xE2 \<and> c \<noteq> CHR 0xC4"
proof -
  have "list_all (\<lambda>c. lower_char c = c \<and> c \<noteq> CHR 0xE2 \<and> c \<noteq> CHR 0xC4) (ascii_lowercase @ digits @ ''-'')"
    by code_simp
  then show "dns_char c \<Longrightarrow> lower_char c = c \<and> c \<noteq> CHR 0xE2 \<and> c \<noteq> CHR 0xC4"
    by (auto simp: list_all_iff dns_char_def is_digit_def)
qed

lemma py_lower_dns: "list_all dns_char s \<Longrightarrow> py_lower s = s"
proof (induction s)
  case (Cons c s)
  then show ?case using dns_char_ascii[of c] by (auto simp: prefix_def)
qed simp

text \<open>
  A sanitised name is never empty and consists of lower-case letters, digits and hyphens, without a
  hyphen at either end and without two hyphens in a row; a name of this form is left as it is, so
  sanitising twice changes nothing.
\<close>

theorem sanitize_dns_name_shape:
  "dns_name (sanitize_dns_name n) \<and> (dns_name n \<longrightarrow> sanitize_dns_name n = n) \<and>
   sanitize_dns_name (sanitize_dns_name n) = sanitize_dns_name n"
proof -
  let ?m = "map (\<lambda>c. if dns_char c then c else CHR ''-'') (py_lower n)"
  let ?s = "strip_char (CHR ''-'') (collapse_hyphens ?m)"
  have vm: "dns_name ''vm''" by code_simp
  have "dns_name ?s" if ne: "?s \<noteq> []"
  proof -
    have "dns_char (CHR ''-'')" by (simp add: dns_char_def)
    then have "list_all dns_char ?m" by (auto simp: list_all_iff)
    moreover have "set ?s \<subseteq> set ?m" using set_strip_char set_collapse by fastforce
    ultimately have "list_all dns_char ?s" unfolding list_all_iff by blast
    then show ?thesis
      using ne strip_char_ends[OF ne] single_strip[OF collapse_single] by (simp add: dns_name_def)
  qed
  then have shape: "dns_name (sanitize_dns_name n)" using vm by (simp add: sanitize_dns_name_def Let_def)
  have fixed: "sanitize_dns_name m = m" if m: "dns_name m" for m
  proof -
    have "map (\<lambda>c. if dns_char c then c else CHR ''-'') m = m"
      using m by (auto simp: dns_name_def list_all_iff intro!: map_idI)
    then show ?thesis using m
      by (simp add: sanitize_dns_name_def dns_name_def py_lower_dns collapse_id strip_id Let_def)
  qed
  show ?thesis using shape fixed by blast
qed

lemma sanitize_dns_name_shape_witness:
  "sanitize_dns_name ''My_VM--1_'' = ''my-vm-1'' \<and> sanitize_dns_name ''my-vm-1'' = ''my-vm-1''"
proof -
  have "sanitize_dns_name ''My_VM--1_'' = ''my-vm-1''" by code_simp
  moreover have "dns_name ''my-vm-1''" by code_simp
  ultimately show ?thesis using sanitize_dns_name_shape[of "''my-vm-1''"] by blast
qed

subsection \<open>Proxmox ids\<close>

lemma conflicts_False: "vmid_conflicts_in_db d srv v = Inr False \<longleftrightarrow>
    (\<forall>x \<in> set (vms d). vm_server_id x = srv_id srv \<longrightarrow> vm_vmid x \<noteq> v) \<and>
    (\<exists>p. calculate_ports (srv_base_port srv) v = Inr p \<and>
      (\<forall>q \<in> set (vm_ports d). p_external_port q \<notin> set (port_values p)))"
  by (auto simp: vmid_conflicts_in_db_def andthen_Inr_iff)

lemma probe_vmids_run:
  assumes "probe_vmids e srv n v s = (Inr w, s')"
  shows "v \<le> w \<and> w < v + int n \<and> vmid_conflicts_in_db (db s) srv w = Inr False \<and>
    (\<exists>t. is_vmid_free_in_proxmox e (srv_name srv) w t = (Inr True, s')) \<and>
    (\<forall>u. v \<le> u \<and> u < w \<longrightarrow> vmid_conflicts_in_db (db s) srv u = Inr True \<or>
       (\<exists>t t'. is_vmid_free_in_proxmox e (srv_name srv) u t = (Inr False, t')))"
  using assms
proof (induction n arbitrary: v s)
  case (Suc n)
  from Suc.prems obtain conflict where c: "vmid_conflicts_in_db (db s) srv v = Inr conflict"
    by (auto simp: seq_Inr_iff)
  show ?case
  proof (cases conflict)
    case True
    then have "probe_vmids e srv n (v + 1) s = (Inr w, s')" using Suc.prems c by (auto simp: seq_Inr_iff)
    note IH = Suc.IH[OF this]
    have "vmid_conflicts_in_db (db s) srv u = Inr True \<or>
       (\<exists>t t'. is_vmid_free_in_proxmox e (srv_name srv) u t = (Inr False, t'))" if "v \<le> u" "u < w" for u
      using IH that c True by (cases "u = v") auto
    then show ?thesis using IH by auto
  next
    case False
    then obtain ok t where ok: "is_vmid_free_in_proxmox e (srv_name srv) v s = (Inr ok, t)"
      and rest: "(if ok then ret v else probe_vmids e srv n (v + 1)) t = (Inr w, s')"
      using Suc.prems c by (auto simp: seq_Inr_iff)
    have d: "db t = db s" using keepsD[OF keeps_vmid_free ok] .
    show ?thesis
    proof (cases ok)
      case True
      then show ?thesis using ok rest c False by auto
    next
      case nok: False
      then have "probe_vmids e srv n (v + 1) t = (Inr w, s')" using rest by simp
      note IH = Suc.IH[OF this, unfolded d]
      have "vmid_conflicts_in_db (db s) srv u = Inr True \<or>
         (\<exists>t t'. is_vmid_free_in_proxmox e (srv_name srv) u t = (Inr False, t'))" if "v \<le> u" "u < w" for u
        using IH that ok nok by (cases "u = v") auto
      then show ?thesis using IH by auto
    qed
  qed
qed simp

text \<open>
  A Proxmox id is chosen by first fit: the id is one of the 50 from the id Proxmox proposed, it is not
  the id of a VM of this server, none of its three public ports is in use, Proxmox reported it free, and
  every smaller id that was tried conflicted in the database or was not free. Nothing is stored.
\<close>

theorem select_vmid_first_fit:
  assumes "select_vmid e srv s = (Inr w, s')"
  shows "\<exists>v t. get_next_vmid e (srv_name srv) s = (Inr v, t) \<and> v \<le> w \<and> w < v + 50 \<and> db s' = db s \<and>
     (\<forall>x \<in> set (vms (db s)). vm_server_id x = srv_id srv \<longrightarrow> vm_vmid x \<noteq> w) \<and>
     (\<exists>p. calculate_ports (srv_base_port srv) w = Inr p \<and>
        (\<forall>q \<in> set (vm_ports (db s)). p_external_port q \<notin> set (port_values p))) \<and>
     (\<exists>t'. is_vmid_free_in_proxmox e (srv_name srv) w t' = (Inr True, s')) \<and>
     (\<forall>u. v \<le> u \<and> u < w \<longrightarrow> vmid_conflicts_in_db (db s) srv u = Inr True \<or>
        (\<exists>t' t''. is_vmid_free_in_proxmox e (srv_name srv) u t' = (Inr False, t'')))"
proof -
  from assms obtain v t where v: "get_next_vmid e (srv_name srv) s = (Inr v, t)"
    and p: "probe_vmids e srv 50 v t = (Inr w, s')"
    by (auto simp: select_vmid_def seq_Inr_iff MAX_VMID_PROBES_def)
  have "keeps db (get_next_vmid e (srv_name srv))" unfolding get_next_vmid_def by (intro keeps_intros)
  then have t: "db t = db s" using v by (rule keepsD)
  have s': "db s' = db s" using keepsD[OF keeps_select_vmid assms] .
  show ?thesis
    using v s' probe_vmids_run[OF p, unfolded t] conflicts_False by auto
qed

definition nextid_answer :: "call list \<Rightarrow> call \<Rightarrow> exn + json" where
  "nextid_answer hist c = (case c of PveNextId None \<Rightarrow> Inr (JInt 105)
     | PveNextId (Some v) \<Rightarrow> if v = 106 then Inl (ResourceException 400 ''exists'') else Inr JNull | _ \<Rightarrow> Inr JNull)"

text \<open>105 has a public port in use, 106 is taken in Proxmox: 107 is chosen.\<close>

lemma select_vmid_first_fit_witness:
  "let d = empty_database\<lparr>vm_ports := [\<lparr>p_id = 1, p_vm_id = 9, p_internal_port = 22, p_external_port = 21105,
        p_protocol = ''tcp'', p_action = ''ACCEPT'', p_source = None, p_description = None, p_is_default = True\<rparr>]\<rparr>;
       s = sample_state d
   in \<exists>s'. select_vmid (sample_env nextid_answer) sample_server s = (Inr 107, s') \<and>
        (\<exists>p. calculate_ports 21000 107 = Inr p \<and> 21105 \<notin> set (port_values p))"
proof -
  let ?s = "sample_state (empty_database\<lparr>vm_ports := [\<lparr>p_id = 1, p_vm_id = 9, p_internal_port = 22,
      p_external_port = 21105, p_protocol = ''tcp'', p_action = ''ACCEPT'', p_source = None,
      p_description = None, p_is_default = True\<rparr>]\<rparr>)"
  have "fst (select_vmid (sample_env nextid_answer) sample_server ?s) = Inr 107" by code_simp
  then obtain s' where run: "select_vmid (sample_env nextid_answer) sample_server ?s = (Inr 107, s')"
    by (metis prod.collapse)
  then show ?thesis
    using select_vmid_first_fit[OF run] by (auto simp: Let_def sample_state_def sample_server_def)
qed

subsection \<open>Internal addresses and the lock\<close>

lemma find_upto_first:
  assumes "find P [a..b] = Some x"
  shows "a \<le> x \<and> x \<le> b \<and> P x \<and> (\<forall>y. a \<le> y \<and> y < x \<longrightarrow> \<not> P y)"
proof -
  obtain i where i: "i < length [a..b]" "P ([a..b] ! i)" "x = [a..b] ! i" "\<forall>j < i. \<not> P ([a..b] ! j)"
    using assms unfolding find_Some_iff by auto
  then have x: "x = a + int i" "i < nat (b - a + 1)" by auto
  have "\<not> P y" if "a \<le> y" "y < x" for y
  proof -
    have "nat (y - a) < i" using that x by auto
    then have "\<not> P ([a..b] ! nat (y - a))" using i(4) by blast
    moreover have "[a..b] ! nat (y - a) = y" using that x i(1) by (subst nth_upto) auto
    ultimately show ?thesis by simp
  qed
  then show ?thesis using x i by auto
qed

text \<open>
  The internal address of a new VM is the lowest free one: it is in the configured range, no VM in the
  database has it, and every lower address of the range is in use; the allocation fails with 507 exactly
  when the whole range is in use.
\<close>

theorem allocate_internal_ip_lowest:
  assumes "allocate_internal_ip e s = (r, s')"
  shows "s' = s \<and>
    (\<forall>ip. r = Inr ip \<longrightarrow> ip \<notin> used_ips (db s) \<and>
       (\<exists>octet. ip = ip_candidate (conf e) octet \<and>
          INTERNAL_IP_START (conf e) \<le> octet \<and> octet \<le> INTERNAL_IP_END (conf e) \<and>
          (\<forall>o'. INTERNAL_IP_START (conf e) \<le> o' \<and> o' < octet \<longrightarrow> ip_candidate (conf e) o' \<in> used_ips (db s)))) \<and>
    (r = Inl (Http 507 ''no-internal-ip'') \<longleftrightarrow>
       (\<forall>octet. INTERNAL_IP_START (conf e) \<le> octet \<and> octet \<le> INTERNAL_IP_END (conf e) \<longrightarrow>
          ip_candidate (conf e) octet \<in> used_ips (db s)))"
proof (cases "first_free_octet (conf e) (db s)")
  case None
  then have "r = Inl (Http 507 ''no-internal-ip'')" "s' = s"
    using assms by (auto simp: allocate_internal_ip_def prog_defs)
  then show ?thesis using None by (auto simp: first_free_octet_def find_None_all used_ips_def)
next
  case (Some octet)
  then have "r = Inr (ip_candidate (conf e) octet)" "s' = s"
    using assms by (auto simp: allocate_internal_ip_def prog_defs)
  then show ?thesis using find_upto_first[OF Some[unfolded first_free_octet_def]]
    by (auto simp: used_ips_def)
qed

lemma allocate_internal_ip_lowest_witness:
  "let s = sample_state (empty_database\<lparr>vms := [sample_vm 1 (Some 7)]\<rparr>)
   in allocate_internal_ip (sample_env agreeing) s = (Inr ''10.0.0.101'', s) \<and> ''10.0.0.101'' \<notin> used_ips (db s)"
proof -
  let ?s = "sample_state (empty_database\<lparr>vms := [sample_vm 1 (Some 7)]\<rparr>)"
  have "first_free_octet (conf (sample_env agreeing)) (db ?s) = Some 101" by code_simp
  moreover have "ip_candidate (conf (sample_env agreeing)) 101 = ''10.0.0.101''" by code_simp
  ultimately have run: "allocate_internal_ip (sample_env agreeing) ?s = (Inr ''10.0.0.101'', ?s)"
    by (simp add: allocate_internal_ip_def prog_defs)
  show ?thesis using allocate_internal_ip_lowest[OF run] run by (simp add: Let_def)
qed


definition free_lock :: ip_lock where
  "free_lock = \<lparr>holder = None, held = (\<lambda>_. False), on_commit = (\<lambda>_. 0), on_rollback = (\<lambda>_. 0)\<rparr>"


end
