(* ===== verification/CloneWait.thy ===== *)
theory CloneWait
  imports VmAlloc
begin

text \<open>
  \<open>vm_service._wait_for_clone\<close>: two polling loops with a deadline and a growing delay. The loops end because
  every round either leaves the loop, sleeps for a positive time, or has reached the deadline; the
  termination proofs below are that argument.
\<close>

text \<open>The delay of round \<open>k\<close>: doubled from \<open>base\<close>, and never more than \<open>cap\<close>.\<close>

definition backoff :: "int \<Rightarrow> int \<Rightarrow> nat \<Rightarrow> int" where
  "backoff base cap k = min (base * 2 ^ k) cap"

lemma backoff_pos [simp]: "0 < base \<Longrightarrow> 0 < cap \<Longrightarrow> 0 < backoff base cap k"
  by (simp add: backoff_def)

lemma backoff_0: "base \<le> cap \<Longrightarrow> backoff base cap 0 = base"
  by (simp add: backoff_def)

lemma backoff_Suc: "0 < base \<Longrightarrow> base \<le> cap \<Longrightarrow> backoff base cap (Suc k) = min (backoff base cap k * 2) cap"
  by (auto simp: backoff_def min_def)

text \<open>\<open>time.sleep(min(delay, max(0, deadline - time.time())))\<close>.\<close>

definition nap :: "int \<Rightarrow> int \<Rightarrow> sys \<Rightarrow> sys" where
  "nap delay deadline s = s\<lparr>clk := clk s + min delay (max 0 (deadline - clk s))\<rparr>"

lemma nap_simps [simp]: "db (nap d dl s) = db s" "calls (nap d dl s) = calls s"
  "conn_cache (nap d dl s) = conn_cache s"
  by (simp_all add: nap_def)

lemma nap_progress:
  assumes "0 < delay" and "clk s < deadline" and "clk s \<le> clk t"
  shows "clk s < clk (nap delay deadline t)"
  using assms by (auto simp: nap_def min_def max_def)

lemma seq_now: "seq now k s = k (clk s) s"
  by (simp add: seq_def now_def gets_def)

text \<open>What one poll of the clone task decides: go on, leave the loop, or raise.\<close>

datatype verdict = Again | Leave | Stop exn

definition task_verdict :: "exn + json \<Rightarrow> verdict" where
  "task_verdict r = (case r of
       Inl x \<Rightarrow> if is_http x then Stop x else Again
     | Inr task \<Rightarrow> (case obj_get task ''status'' (JStr []) of
         Inl _ \<Rightarrow> Again
       | Inr st \<Rightarrow>
           if json_is st ''stopped'' then
             (case obj_get task ''exitstatus'' (JStr []) of
                Inl _ \<Rightarrow> Again
              | Inr ex \<Rightarrow> if json_is ex ''OK'' then Leave else Stop (Http 500 ''clone-failed''))
           else Again))"

function poll_task :: "env \<Rightarrow> string \<Rightarrow> json \<Rightarrow> int \<Rightarrow> nat \<Rightarrow> sys \<Rightarrow> (exn + unit) \<times> sys" where
  "poll_task e node upid deadline k s =
     (if clk s < deadline then
        (case task_verdict (answer e (calls s) (PveTaskStatus node upid)) of
           Stop x \<Rightarrow> (Inl x, called e (PveTaskStatus node upid) s)
         | Leave \<Rightarrow> (Inr (), called e (PveTaskStatus node upid) s)
         | Again \<Rightarrow> poll_task e node upid deadline (Suc k)
             (nap (backoff second (5 * second) k) deadline (called e (PveTaskStatus node upid) s)))
      else (Inl (Http 500 ''clone-timeout''), s))"
  by pat_completeness auto
termination
  by (relation "measure (\<lambda>(e, node, upid, deadline, k, s). nat (deadline - clk s))")
    (auto intro!: nap_progress)

declare poll_task.simps [simp del]

definition unlocked :: "exn + json \<Rightarrow> bool" where
  "unlocked r = (case r of
       Inl _ \<Rightarrow> False
     | Inr config \<Rightarrow> (case obj_get config ''lock'' JNull of Inl _ \<Rightarrow> False | Inr v \<Rightarrow> \<not> truthy v))"

function poll_lock :: "env \<Rightarrow> string \<Rightarrow> int \<Rightarrow> int \<Rightarrow> nat \<Rightarrow> sys \<Rightarrow> (exn + unit) \<times> sys" where
  "poll_lock e node vmid deadline k s =
     (if clk s < deadline then
        (if unlocked (answer e (calls s) (PveVmConfig node vmid))
         then (Inr (), called e (PveVmConfig node vmid) s)
         else poll_lock e node vmid deadline (Suc k)
             (nap (backoff (second div 2) (3 * second) k) deadline (called e (PveVmConfig node vmid) s)))
      else (Inl (Http 500 ''lock-timeout''), s))"
  by pat_completeness auto
termination
  by (relation "measure (\<lambda>(e, node, vmid, deadline, k, s). nat (deadline - clk s))")
    (auto intro!: nap_progress simp: second_def)

declare poll_lock.simps [simp del]

definition CLONE_TIMEOUT :: int where "CLONE_TIMEOUT = 120 * second"

definition wait_for_clone :: "env \<Rightarrow> string \<Rightarrow> int \<Rightarrow> json \<Rightarrow> (sys, unit) prog" where
  "wait_for_clone e node vmid upid =
     seq now (\<lambda>t.
     let deadline = t + CLONE_TIMEOUT in
     seq (if truthy upid then poll_task e node upid deadline 0 else ret ()) (\<lambda>_.
     poll_lock e node vmid deadline 0))"

section \<open>Lemmas\<close>

text \<open>Invariants of the loops: what holds of the state at the start of every round holds at the end.\<close>

lemma poll_task_run:
  assumes "poll_task e node upid deadline k s = (r, s')"
  shows "db s' = db s \<and> (\<exists>xs. calls s' = calls s @ xs \<and> set xs \<subseteq> {PveTaskStatus node upid}) \<and>
    (case r of
       Inr _ \<Rightarrow> \<exists>t. clk t < deadline \<and> task_verdict (answer e (calls t) (PveTaskStatus node upid)) = Leave \<and>
                    s' = called e (PveTaskStatus node upid) t
     | Inl x \<Rightarrow> is_http x \<and> (x = Http 500 ''clone-timeout'' \<and> deadline \<le> clk s' \<or>
         (\<exists>h. task_verdict (answer e h (PveTaskStatus node upid)) = Stop x)))"
  using assms
proof (induction e node upid deadline k s rule: poll_task.induct)
  case (1 e node upid deadline k s)
  show ?case
  proof (cases "clk s < deadline")
    case False
    then show ?thesis using 1(2) by (subst (asm) poll_task.simps) auto
  next
    case True
    let ?c = "PveTaskStatus node upid"
    consider (stop) x where "task_verdict (answer e (calls s) ?c) = Stop x"
      | (leave) "task_verdict (answer e (calls s) ?c) = Leave"
      | (again) "task_verdict (answer e (calls s) ?c) = Again"
      by (cases "task_verdict (answer e (calls s) ?c)") auto
    then show ?thesis
    proof cases
      case stop
      have "is_http x" using stop
        by (auto simp: task_verdict_def split: sum.splits if_splits)
      moreover have "r = Inl x" "s' = called e ?c s"
        using 1(2) True stop by (subst (asm) poll_task.simps, simp)+
      moreover have "\<exists>h. task_verdict (answer e h ?c) = Stop x" using stop by blast
      ultimately show ?thesis by simp
    next
      case leave
      then show ?thesis using 1(2) True by (subst (asm) poll_task.simps) auto
    next
      case again
      let ?s = "nap (backoff second (5 * second) k) deadline (called e ?c s)"
      have "poll_task e node upid deadline (Suc k) ?s = (r, s')"
        using 1(2) True again by (subst (asm) poll_task.simps) simp
      from 1(1)[OF True again this] show ?thesis by auto
    qed
  qed
qed

lemma poll_lock_run:
  assumes "poll_lock e node vmid deadline k s = (r, s')"
  shows "db s' = db s \<and> (\<exists>xs. calls s' = calls s @ xs \<and> set xs \<subseteq> {PveVmConfig node vmid}) \<and>
    (case r of
       Inr _ \<Rightarrow> \<exists>t. clk t < deadline \<and> unlocked (answer e (calls t) (PveVmConfig node vmid)) \<and>
                    s' = called e (PveVmConfig node vmid) t
     | Inl x \<Rightarrow> x = Http 500 ''lock-timeout'' \<and> deadline \<le> clk s')"
  using assms
proof (induction e node vmid deadline k s rule: poll_lock.induct)
  case (1 e node vmid deadline k s)
  let ?c = "PveVmConfig node vmid"
  show ?case
  proof (cases "clk s < deadline")
    case False
    then show ?thesis using 1(2) by (subst (asm) poll_lock.simps) auto
  next
    case True
    show ?thesis
    proof (cases "unlocked (answer e (calls s) ?c)")
      case unl: True
      then show ?thesis using 1(2) True by (subst (asm) poll_lock.simps) auto
    next
      case False
      let ?s = "nap (backoff (second div 2) (3 * second) k) deadline (called e ?c s)"
      have "poll_lock e node vmid deadline (Suc k) ?s = (r, s')"
        using 1(2) True False by (subst (asm) poll_lock.simps) simp
      from 1(1)[OF True False this] show ?thesis by auto
    qed
  qed
qed

lemma keeps_polls [keeps_intros]:
  "keeps db (poll_task e node upid deadline k)" "keeps db (poll_lock e node vmid deadline k)"
  unfolding keeps_def using poll_task_run poll_lock_run by (metis surjective_pairing)+

lemma logs_polls:
  "logs {PveTaskStatus node upid} (poll_task e node upid deadline k)"
  "logs {PveVmConfig node vmid} (poll_lock e node vmid deadline k)"
  unfolding logs_def using poll_task_run[OF surjective_pairing] poll_lock_run[OF surjective_pairing] by blast+

lemma keeps_wait_for_clone [keeps_intros]: "keeps db (wait_for_clone e node vmid upid)"
  unfolding wait_for_clone_def by (intro keeps_intros)

lemma logs_wait_for_clone [logs_intros]:
  assumes "PveTaskStatus node upid \<in> A" and "PveVmConfig node vmid \<in> A"
  shows "logs A (wait_for_clone e node vmid upid)"
  unfolding wait_for_clone_def using assms
  by (intro logs_intros logs_mono[OF logs_polls(1)] logs_mono[OF logs_polls(2)]) auto

section \<open>Properties\<close>


definition clone_answer :: "call list \<Rightarrow> call \<Rightarrow> exn + json" where
  "clone_answer hist c = (case c of
       PveTaskStatus _ _ \<Rightarrow> Inr (JObj (if length hist < 2 then [(''status'', JStr ''running'')]
         else [(''status'', JStr ''stopped''), (''exitstatus'', JStr ''OK'')]))
     | PveVmConfig _ _ \<Rightarrow> Inr (JObj (if length hist < 4 then [(''lock'', JStr ''clone'')] else []))
     | _ \<Rightarrow> Inr JNull)"

definition sample_wait :: "(exn + unit) \<times> sys" where
  "sample_wait = wait_for_clone (sample_env clone_answer) ''node1'' 105 (JStr ''UPID'') (sample_state empty_database)"

lemma sample_wait_run: "fst sample_wait = Inr ()" "clk (snd sample_wait) = 3500000"
  by code_simp+


end
