(* ===== verification/CreateVm.thy ===== *)
theory CreateVm
  imports CloneWait Caddy Monitor Config Gateway
begin

text \<open>
  The creation of a VM: \<open>services/vm_service.py\<close> from \<open>_cleanup_vm_db_record\<close> to \<open>create_vm\<close>.
  \<open>create_vm\<close> is split the way its comments number the steps: the checks, the choice of ids and address,
  the reservation that is committed before anything is created, and the provisioning with its two
  cleanup flags.
\<close>

section \<open>Snippets\<close>

definition SNIPPETS_DIR :: string where "SNIPPETS_DIR = ''/var/lib/vz/snippets''"

definition snippet_name :: "int \<Rightarrow> string" where
  "snippet_name vmid = ''user-data-'' @ show_int vmid @ ''.yaml''"

definition dquote :: string where "dquote = [CHR 0x22]"
definition squote :: string where "squote = [CHR 0x27]"
definition backslash :: string where "backslash = [CHR 0x5C]"

definition generate_userdata_yaml :: "string \<Rightarrow> string \<Rightarrow> string" where
  "generate_userdata_yaml password root_password = concat (map (\<lambda>l. l @ [newline]) [
     ''#cloud-config'',
     ''preserve_hostname: false'',
     ''hostname: gsmsv'',
     ''ssh_pwauth: true'',
     ''users:'',
     ''  - name: ubuntu'',
     ''    plain_text_passwd: '' @ dquote @ password @ dquote,
     ''    lock_passwd: false'',
     ''    shell: /bin/bash'',
     ''    sudo: ALL=(ALL) NOPASSWD:ALL'',
     ''write_files:'',
     ''  - path: /etc/netplan/99-mtu.yaml'',
     ''    content: |'',
     ''      network:'',
     ''        version: 2'',
     ''        ethernets:'',
     ''          eth0:'',
     ''            mtu: 1400'',
     ''    permissions: '' @ squote @ ''0644'' @ squote,
     ''runcmd:'',
     ''  - ip link set dev eth0 mtu 1400'',
     ''  - netplan apply'',
     ''  - echo '' @ dquote @ ''root:'' @ root_password @ dquote @ '' | chpasswd'',
     ''  - printf '' @ dquote @ ''PasswordAuthentication yes'' @ backslash @ ''nPermitRootLogin no'' @ backslash
        @ ''nMaxAuthTries 5'' @ backslash @ ''n'' @ dquote @ '' > /etc/ssh/sshd_config.d/99-gsmsv.conf'',
     ''  - systemctl restart ssh'',
     ''  - sed -i '' @ squote @ ''s|http://archive.ubuntu.com/ubuntu|http://mirror.kakao.com/ubuntu|g; s|http://security.ubuntu.com/ubuntu|http://mirror.kakao.com/ubuntu|g'' @ squote @ '' /etc/apt/sources.list'',
     ''  - apt update'',
     ''  - apt install -y qemu-guest-agent'',
     ''  - systemctl enable --now qemu-guest-agent'',
     ''  - touch /etc/cloud/cloud-init.disabled'',
     ''  - echo '' @ dquote @ ''CLOUD-INIT SUCCESS'' @ dquote @ '' > /home/ubuntu/ok.txt''])"

text \<open>\<open>if not server.ssh_user\<close>: the account, when it is set.\<close>

definition ssh_account :: "server \<Rightarrow> string option" where
  "ssh_account srv = (case srv_ssh_user srv of None \<Rightarrow> None | Some u \<Rightarrow> if u = [] then None else Some u)"

definition upload_snippet :: "env \<Rightarrow> server \<Rightarrow> string \<Rightarrow> string \<Rightarrow> (sys, unit) prog" where
  "upload_snippet e srv filename content =
     (case ssh_account srv of
        None \<Rightarrow> raise (RuntimeError ''no-ssh-account'')
      | Some u \<Rightarrow>
          seq (ext e (SshConnect (srv_ip_address srv) u)) (\<lambda>_.
          seq (ext e (SftpWrite (srv_ip_address srv) (SNIPPETS_DIR @ ''/'' @ filename) content)) (\<lambda>_.
          ret ())))"

definition delete_snippet :: "env \<Rightarrow> server \<Rightarrow> string \<Rightarrow> (sys, unit) prog" where
  "delete_snippet e srv filename =
     (case ssh_account srv of
        None \<Rightarrow> ret ()
      | Some u \<Rightarrow>
          catch
            (seq (ext e (SshConnect (srv_ip_address srv) u)) (\<lambda>_.
             seq (ext e (SshExec (srv_ip_address srv) (''rm -f '' @ SNIPPETS_DIR @ ''/'' @ filename))) (\<lambda>_.
             ret ())))
            (\<lambda>_. ret ()))"

section \<open>Cleaning up after a failure\<close>

text \<open>\<open>db.rollback()\<close>, then the row and its ports are deleted; HTTPS routes go by the relationship's cascade.\<close>

definition drop_vm :: "vm \<Rightarrow> database \<Rightarrow> database" where
  "drop_vm v d = d
     \<lparr>vm_ports := delete_rows (\<lambda>p. p_vm_id p = vm_id v) (vm_ports d),
      vms := delete_rows (\<lambda>x. vm_id x = vm_id v) (vms d),
      https_routes := delete_rows (\<lambda>r. r_vm_id r = vm_id v) (https_routes d)\<rparr>"

definition cleanup_vm_db_record :: "env \<Rightarrow> vm \<Rightarrow> (sys, unit) prog" where
  "cleanup_vm_db_record e v =
     catch (seq (gets db) (\<lambda>d. commit e (drop_vm v d))) (\<lambda>_. ret ())"

definition locked :: "json \<Rightarrow> exn + bool" where
  "locked config = andthen (obj_get config ''lock'' JNull) (\<lambda>v. Inr (truthy v))"

text \<open>\<open>for _ in range(10)\<close>: wait while the configuration is locked or unreadable.\<close>

fun wait_unlocked :: "env \<Rightarrow> string \<Rightarrow> int \<Rightarrow> nat \<Rightarrow> (sys, unit) prog" where
  "wait_unlocked e node vmid 0 = ret ()"
| "wait_unlocked e node vmid (Suc n) =
     seq (catch (seq (ext e (PveVmConfig node vmid)) (\<lambda>j. lift (locked j))) (\<lambda>_. ret True)) (\<lambda>again.
     if again then seq (sleep (3 * second)) (\<lambda>_. wait_unlocked e node vmid n) else ret ())"

lemma wait_unlocked_code [code]:
  "wait_unlocked e node vmid 0 s = (Inr (), s)"
  "wait_unlocked e node vmid (Suc n) s =
     seq (catch (seq (ext e (PveVmConfig node vmid)) (\<lambda>j. lift (locked j))) (\<lambda>_. ret True)) (\<lambda>again.
     if again then seq (sleep (3 * second)) (\<lambda>_. wait_unlocked e node vmid n) else ret ()) s"
  by (simp_all add: ret_def)

fun says_missing :: "exn \<Rightarrow> bool" where
  "says_missing (ResourceException c content) = py_contains content ''does not exist''"
| "says_missing _ = False"

definition remove_clone :: "env \<Rightarrow> string \<Rightarrow> int \<Rightarrow> (sys, unit) prog" where
  "remove_clone e node vmid =
     seq (catch (seq (ext e (PveVmStatus node vmid)) (\<lambda>_. ret True)) (\<lambda>x. ret (\<not> says_missing x))) (\<lambda>vm_exists.
     if vm_exists then
       catch
         (seq (wait_unlocked e node vmid 10) (\<lambda>_.
          seq (ext e (PveVmDelete node vmid True)) (\<lambda>_. ret ())))
         (\<lambda>_. ret ())
     else ret ())"

definition cleanup_failed_vm_resources ::
  "env \<Rightarrow> server \<Rightarrow> int \<Rightarrow> string \<Rightarrow> bool \<Rightarrow> bool \<Rightarrow> (sys, unit) prog" where
  "cleanup_failed_vm_resources e srv vmid internal_ip clone_started iptables_added =
     seq (if clone_started then remove_clone e (srv_name srv) vmid else ret ()) (\<lambda>_.
     seq (if iptables_added
          then catch (seq (manage_iptables e srv vmid internal_ip ''DELETE'') (\<lambda>_. ret ())) (\<lambda>_. ret ())
          else ret ()) (\<lambda>_.
     catch (delete_snippet e srv (snippet_name vmid)) (\<lambda>_. ret ())))"

section \<open>create_vm: the checks\<close>

definition custom_specs :: "vm_request \<Rightarrow> specs \<Rightarrow> exn + specs" where
  "custom_specs r sp =
     (let mx = (case map_of TIER_SPECS PROJECT_CUSTOM of None \<Rightarrow> sp | Some m \<Rightarrow> m) in
      if q_tier r \<noteq> PROJECT_CUSTOM then Inr sp else
      andthen (case q_cores r of None \<Rightarrow> Inr sp
          | Some c \<Rightarrow> if \<not> (2 \<le> c \<and> c \<le> sp_cores mx) then Inl (Http 400 ''cores-range'') else Inr (sp\<lparr>sp_cores := c\<rparr>)) (\<lambda>sp1.
      andthen (case q_memory r of None \<Rightarrow> Inr sp1
          | Some m \<Rightarrow> if \<not> (2048 \<le> m \<and> m \<le> sp_memory mx) then Inl (Http 400 ''memory-range'') else Inr (sp1\<lparr>sp_memory := m\<rparr>)) (\<lambda>sp2.
      case q_disk r of None \<Rightarrow> Inr sp2
          | Some k \<Rightarrow> if \<not> (20 \<le> k \<and> k \<le> sp_disk mx) then Inl (Http 400 ''disk-range'') else Inr (sp2\<lparr>sp_disk := k\<rparr>))))"

definition vms_of :: "database \<Rightarrow> int \<Rightarrow> int" where
  "vms_of d uid = count_rows (\<lambda>v. vm_owner_id v = Some uid) (vms d)"

definition find_active_node :: "database \<Rightarrow> string \<Rightarrow> server option" where
  "find_active_node d name = find (\<lambda>srv. srv_name srv = name \<and> srv_is_active srv) (servers d)"

definition opt_truthy :: "string option \<Rightarrow> bool" where
  "opt_truthy v \<longleftrightarrow> v \<noteq> None \<and> v \<noteq> Some []"

definition check_request :: "settings \<Rightarrow> database \<Rightarrow> user \<Rightarrow> vm_request \<Rightarrow> exn + specs \<times> server" where
  "check_request c d u r =
     (if u_role u = USER \<and> MAX_VMS_PER_USER c \<le> vms_of d (u_id u) then Inl (Http 409 ''vm-quota'')
      else if q_tier r = PROJECT_CUSTOM \<and> u_role u \<notin> {ADMIN, PROJECT_OWNER} then Inl (Http 403 ''tier-not-allowed'')
      else if u_role u = USER \<and> q_node_name r = Some (PROJECT_NODE_NAME c) then Inl (Http 403 ''node-not-allowed'')
      else case map_of TIER_SPECS (q_tier r) of
          None \<Rightarrow> Inl (Http 400 ''bad-tier'')
        | Some base \<Rightarrow>
            andthen (custom_specs r base) (\<lambda>sp.
            case q_node_name r of
              None \<Rightarrow> Inl (Http 400 ''no-node'')
            | Some name \<Rightarrow>
                if name = [] then Inl (Http 400 ''no-node'')
                else (case find_active_node d name of
                    None \<Rightarrow> Inl (Http 404 ''node-not-found'')
                  | Some srv \<Rightarrow> Inr (sp, srv))))"

text \<open>Step 1-1: a node that answers has to have room; a node that cannot be asked is let through.\<close>

definition node_overloaded :: "usage \<Rightarrow> bool \<Rightarrow> bool" where
  "node_overloaded us per_storage \<longleftrightarrow>
     RESOURCE_USAGE_THRESHOLD_PCT \<le> ram_pct us \<or> RESOURCE_USAGE_THRESHOLD_PCT \<le> cpu_pct us \<or>
     (\<not> per_storage \<and> (case disk_pct us of None \<Rightarrow> False | Some p \<Rightarrow> RESOURCE_USAGE_THRESHOLD_PCT \<le> p))"

definition check_node_resources :: "env \<Rightarrow> server \<Rightarrow> specs \<Rightarrow> string list \<Rightarrow> (sys, unit) prog" where
  "check_node_resources e srv sp clone_storages =
     catch
       (seq (get_server_resource_usage e srv) (\<lambda>us.
        seq (raise_if (node_overloaded us (clone_storages \<noteq> [])) (Http 507 ''node-overloaded'')) (\<lambda>_.
        raise_if (free_ram_mb us < sp_memory sp) (Http 507 ''not-enough-ram''))))
       (\<lambda>x. if is_http x then raise x else ret ())"

section \<open>create_vm: the reservation\<close>

definition template_of :: "settings \<Rightarrow> vm_os \<Rightarrow> int \<times> string" where
  "template_of c os = (case os of
       WINDOWS_SERVER \<Rightarrow> (TEMPLATE_VMID_WINDOWS c, VM_DEFAULT_USER_WINDOWS c)
     | _ \<Rightarrow> (TEMPLATE_VMID c, VM_DEFAULT_USER c))"

definition default_port :: "int \<Rightarrow> int \<Rightarrow> int \<Rightarrow> string \<Rightarrow> string \<Rightarrow> vm_port" where
  "default_port vmrow internal external proto descr =
     \<lparr>p_id = 0, p_vm_id = vmrow, p_internal_port = internal, p_external_port = external,
      p_protocol = proto, p_action = ''ACCEPT'', p_source = Some ''0.0.0.0/0'', p_description = Some descr,
      p_is_default = True\<rparr>"

definition add_default_ports :: "int \<Rightarrow> ports \<Rightarrow> database \<Rightarrow> database" where
  "add_default_ports vmrow p d =
     add_port (default_port vmrow 10000 (svc2_port p) ''tcp/udp'' ''SVC'')
       (add_port (default_port vmrow 80 (svc1_port p) ''tcp'' ''HTTP'')
         (add_port (default_port vmrow 22 (ssh_port p) ''tcp'' ''SSH'') d))"

definition new_vm :: "user \<Rightarrow> server \<Rightarrow> specs \<Rightarrow> int \<Rightarrow> string \<Rightarrow> string \<Rightarrow> string \<Rightarrow> string \<Rightarrow> string \<Rightarrow> int \<Rightarrow> vm" where
  "new_vm u srv sp vmid name display ip pw purpose t =
     \<lparr>vm_id = 0, vm_vmid = vmid, vm_name = name, vm_display_name = Some display,
      vm_server_id = srv_id srv, vm_owner_id = Some (u_id u), vm_ram_mb = sp_memory sp, vm_cores = sp_cores sp,
      vm_internal_ip = Some ip, vm_password = Some pw, vm_created_at = Some t,
      vm_expires_at = (if u_role u = USER then Some (t + 7 * day) else None),
      vm_auto_snapshot = False, vm_purpose = Some purpose, vm_ready = False\<rparr>"

record reservation =
  rs_vm :: vm
  rs_server :: server
  rs_specs :: specs
  rs_storage :: "string option"

text \<open>Steps 0 to 1-2, and the connection: what is needed, where it goes, and to which storage.\<close>

definition plan_vm :: "env \<Rightarrow> user \<Rightarrow> vm_request \<Rightarrow> (sys, specs \<times> server \<times> string option) prog" where
  "plan_vm e u r =
     seq (gets db) (\<lambda>d.
     seq (lift (check_request (conf e) d u r)) (\<lambda>(sp, srv).
     let clone_storages = get_clone_storages (conf e) (srv_name srv) in
     seq (check_node_resources e srv sp clone_storages) (\<lambda>_.
     seq (if clone_storages \<noteq> []
          then seq (select_clone_storage e srv clone_storages (sp_disk sp)) (\<lambda>st. ret (Some st))
          else ret None) (\<lambda>storage.
     seq (get_proxmox_for_server e srv) (\<lambda>_.
     ret (sp, srv, storage))))))"

text \<open>Step 3: the Proxmox id, the names and the password.\<close>

definition pick_ids :: "env \<Rightarrow> user \<Rightarrow> vm_request \<Rightarrow> server \<Rightarrow> (sys, int \<times> string \<times> string \<times> string) prog" where
  "pick_ids e u r srv =
     seq (select_vmid e srv) (\<lambda>vmid.
     seq (generate_vm_name e u (tier_value (q_tier r)) (q_name r)) (\<lambda>(name, display).
     seq (generate_password e) (\<lambda>pw.
     ret (vmid, name, display, pw))))"

text \<open>Step 4: the address, the rows, and the commit that reserves them.\<close>

definition book_vm :: "env \<Rightarrow> user \<Rightarrow> vm_request \<Rightarrow> specs \<times> server \<times> string option \<Rightarrow>
    int \<times> string \<times> string \<times> string \<Rightarrow> (sys, reservation) prog" where
  "book_vm e u r plan ids = (case plan of (sp, srv, storage) \<Rightarrow> case ids of (vmid, name, display, pw) \<Rightarrow>
     seq (allocate_internal_ip e) (\<lambda>ip.
     seq now (\<lambda>t.
     seq (gets db) (\<lambda>d.
     let v = new_vm u srv sp vmid name display ip pw (q_purpose r) t in
     seq (lift (calculate_ports (srv_base_port srv) vmid)) (\<lambda>ps.
     seq (commit e (add_default_ports (next_id d) ps (add_vm v d))) (\<lambda>_.
     ret \<lparr>rs_vm = v\<lparr>vm_id := next_id d\<rparr>, rs_server = srv, rs_specs = sp, rs_storage = storage\<rparr>))))))"

definition reserve_vm :: "env \<Rightarrow> user \<Rightarrow> vm_request \<Rightarrow> (sys, reservation) prog" where
  "reserve_vm e u r =
     seq (plan_vm e u r) (\<lambda>plan.
     seq (pick_ids e u r (fst (snd plan))) (book_vm e u r plan))"

section \<open>create_vm: the provisioning\<close>

definition opt_str :: "string option \<Rightarrow> string" where
  "opt_str v = (case v of None \<Rightarrow> [] | Some s \<Rightarrow> s)"

definition clone_params :: "reservation \<Rightarrow> (string \<times> json) list" where
  "clone_params rs =
     [(''newid'', JInt (vm_vmid (rs_vm rs))), (''name'', JStr (vm_name (rs_vm rs))), (''full'', JInt 1),
      (''target'', JStr (srv_name (rs_server rs)))] @
     (case rs_storage rs of None \<Rightarrow> [] | Some st \<Rightarrow> if st = [] then [] else [(''storage'', JStr st)])"

definition cloud_init_params :: "settings \<Rightarrow> reservation \<Rightarrow> (string \<times> json) list" where
  "cloud_init_params c rs =
     [(''cicustom'', JStr (''user=local:snippets/'' @ snippet_name (vm_vmid (rs_vm rs)))),
      (''ipconfig0'', JStr (''ip='' @ opt_str (vm_internal_ip (rs_vm rs)) @ ''/'' @ show_int (INTERNAL_NETMASK c)
         @ '',gw='' @ INTERNAL_GATEWAY c)),
      (''nameserver'', JStr (INTERNAL_DNS c))]"

definition hardware_params :: "vm_tier \<Rightarrow> specs \<Rightarrow> (string \<times> json) list" where
  "hardware_params tier sp =
     [(''memory'', JInt (sp_memory sp)), (''cores'', JInt (sp_cores sp)), (''sockets'', JInt 1)] @
     (if tier = PROJECT_CUSTOM
      then [(''hotplug'', JStr ''cpu,memory''), (''balloon'', JInt (sp_memory sp div 2)), (''numa'', JInt 1)]
      else [])"

definition start_clone :: "env \<Rightarrow> vm_os \<Rightarrow> reservation \<Rightarrow> (sys, json) prog" where
  "start_clone e os rs =
     ext e (PveClone (srv_name (rs_server rs)) (fst (template_of (conf e) os)) (clone_params rs))"

definition configure_clone :: "env \<Rightarrow> vm_tier \<Rightarrow> reservation \<Rightarrow> json \<Rightarrow> (sys, unit) prog" where
  "configure_clone e tier rs upid =
     (let srv = rs_server rs; vmid = vm_vmid (rs_vm rs); ip = opt_str (vm_internal_ip (rs_vm rs)) in
      seq (wait_for_clone e (srv_name srv) vmid upid) (\<lambda>_.
      seq (if VM_ROOT_PASSWORD (conf e) \<noteq> [] then ret (VM_ROOT_PASSWORD (conf e)) else generate_password e) (\<lambda>root_pw.
      seq (upload_snippet e srv (snippet_name vmid)
             (generate_userdata_yaml (opt_str (vm_password (rs_vm rs))) root_pw)) (\<lambda>_.
      seq (ext e (PveConfigPut (srv_name srv) vmid (cloud_init_params (conf e) rs))) (\<lambda>_.
      seq (ext e (PveConfigPut (srv_name srv) vmid (hardware_params tier (rs_specs rs)))) (\<lambda>_.
      seq (ext e (PveResizePut (srv_name srv) vmid ''scsi0'' (show_int (sp_disk (rs_specs rs)) @ ''G''))) (\<lambda>_.
      seq (manage_iptables e srv vmid ip ''ADD'') (\<lambda>ok.
      raise_if (\<not> ok) (RuntimeError ''iptables-failed'')))))))))"

text \<open>Steps 9 to 11. The row is marked ready and the owner notified in one commit.\<close>

definition mark_ready :: "user \<Rightarrow> vm \<Rightarrow> int \<Rightarrow> database \<Rightarrow> database" where
  "mark_ready u v t d =
     add_notification (u_id u) ''success'' (''vm-created '' @ vm_name v) t
       (d\<lparr>vms := update_rows (\<lambda>x. vm_id x = vm_id v) (\<lambda>x. x\<lparr>vm_ready := True\<rparr>) (vms d)\<rparr>)"

definition boot_and_finish :: "env \<Rightarrow> user \<Rightarrow> vm_os \<Rightarrow> vm_tier \<Rightarrow> reservation \<Rightarrow> (sys, vm_result) prog" where
  "boot_and_finish e u os tier rs =
     (let v = rs_vm rs; srv = rs_server rs in
      seq (ext e (PvePower (srv_name srv) (vm_vmid v) START)) (\<lambda>_.
      seq now (\<lambda>t.
      seq (gets db) (\<lambda>d.
      seq (commit e (mark_ready u v t d)) (\<lambda>_.
      ret \<lparr>v_message = ''vm-created '' @ vm_name v, v_assigned_node = srv_name srv, v_vmid = vm_vmid v,
           v_name = vm_name v, v_tier = tier, v_internal_ip = opt_str (vm_internal_ip v),
           v_ssh_user = snd (template_of (conf e) os), v_ssh_password = opt_str (vm_password v)\<rparr>)))))"

text \<open>The two \<open>except\<close> branches, with the flags of the point where the exception arose.\<close>

definition fail_creation :: "env \<Rightarrow> reservation \<Rightarrow> bool \<Rightarrow> bool \<Rightarrow> exn \<Rightarrow> (sys, 'a) prog" where
  "fail_creation e rs clone_started iptables_added x =
     seq (cleanup_failed_vm_resources e (rs_server rs) (vm_vmid (rs_vm rs))
            (opt_str (vm_internal_ip (rs_vm rs))) clone_started iptables_added) (\<lambda>_.
     seq (cleanup_vm_db_record e (rs_vm rs)) (\<lambda>_.
     raise (if is_http x then x else Http 500 ''create-failed'')))"

definition provision_vm :: "env \<Rightarrow> user \<Rightarrow> vm_request \<Rightarrow> reservation \<Rightarrow> (sys, vm_result) prog" where
  "provision_vm e u r rs =
     seq (catch (start_clone e (q_os r) rs) (fail_creation e rs False False)) (\<lambda>upid.
     seq (catch (configure_clone e (q_tier r) rs upid) (fail_creation e rs True False)) (\<lambda>_.
     catch (boot_and_finish e u (q_os r) (q_tier r) rs) (fail_creation e rs True True)))"

definition create_vm :: "env \<Rightarrow> user \<Rightarrow> vm_request \<Rightarrow> (sys, vm_result) prog" where
  "create_vm e u r = seq (reserve_vm e u r) (provision_vm e u r)"

section \<open>Frames and logs\<close>

lemma keeps_snippets [keeps_intros]:
  "keeps db (upload_snippet e srv f c)" "keeps db (delete_snippet e srv f)"
  unfolding upload_snippet_def delete_snippet_def by (intro keeps_intros)+

lemma keeps_wait_unlocked [keeps_intros]: "keeps db (wait_unlocked e node vmid n)"
  by (induction n) (auto intro!: keeps_intros)

lemma keeps_remove_clone [keeps_intros]: "keeps db (remove_clone e node vmid)"
  unfolding remove_clone_def by (intro keeps_intros)

lemma keeps_cleanup_failed [keeps_intros]: "keeps db (cleanup_failed_vm_resources e srv v ip cs ia)"
  unfolding cleanup_failed_vm_resources_def by (intro keeps_intros)

lemma keeps_check_node [keeps_intros]: "keeps db (check_node_resources e srv sp cs)"
  unfolding check_node_resources_def by (intro keeps_intros)

lemma keeps_clone_steps [keeps_intros]:
  "keeps db (start_clone e os rs)" "keeps db (configure_clone e tier rs upid)"
  unfolding start_clone_def configure_clone_def Let_def by (intro keeps_intros)+

lemma keeps_plan_pick [keeps_intros]:
  "keeps db (plan_vm e u r)" "keeps db (pick_ids e u r srv)"
  unfolding plan_vm_def pick_ids_def Let_def by (intro keeps_intros)+

lemma undoes_book: "undoes (book_vm e u r plan ids)"
  unfolding book_vm_def Let_def by (intro undoes_intros keeps_intros)

lemma undoes_reserve: "undoes (reserve_vm e u r)"
  unfolding reserve_vm_def by (intro undoes_intros keeps_intros undoes_book)

lemma undoes_boot: "undoes (boot_and_finish e u os tier rs)"
  unfolding boot_and_finish_def Let_def by (intro undoes_intros keeps_intros)

text \<open>The cleanup never raises: whatever a step of it does, the next one is tried.\<close>

lemma wait_unlocked_total: "wp (wait_unlocked e node vmid n) (\<lambda>_ _. True) (\<lambda>_ _. False) s"
  by (induction n arbitrary: s) (simp_all add: wp_simps)

lemma cleanup_failed_total:
  "wp (cleanup_failed_vm_resources e srv vmid ip cs ia) (\<lambda>_ s'. db s' = db s) (\<lambda>_ _. False) s"
proof -
  have "wp (cleanup_failed_vm_resources e srv vmid ip cs ia) (\<lambda>_ _. True) (\<lambda>_ _. False) s"
    by (auto simp: cleanup_failed_vm_resources_def remove_clone_def wp_simps intro!: wp_always
        wp_mono[OF wait_unlocked_total])
  moreover have "wp (cleanup_failed_vm_resources e srv vmid ip cs ia) (\<lambda>_ s'. db s' = db s) (\<lambda>_ s'. db s' = db s) s"
    by (rule keeps_wp[OF keeps_cleanup_failed refl])
  ultimately show ?thesis by (rule wp_mono[OF wp_conj]) auto
qed

definition reserve_calls :: "call set" where
  "reserve_calls = {c. case c of PveConnect _ \<Rightarrow> True | PveNodeStatus _ \<Rightarrow> True | PveStorageList _ \<Rightarrow> True
     | PveNextId _ \<Rightarrow> True | PveQemuList _ \<Rightarrow> True | DbCommit \<Rightarrow> True | _ \<Rightarrow> False}"

lemma vmid_calls_reserve: "vmid_calls \<subseteq> reserve_calls"
  by (auto simp: vmid_calls_def reserve_calls_def split: call.splits)

lemma logs_plan_pick:
  "logs reserve_calls (plan_vm e u r)" "logs reserve_calls (pick_ids e u r srv)"
  unfolding plan_vm_def pick_ids_def check_node_resources_def Let_def
  by (intro logs_intros logs_mono[OF logs_select_vmid vmid_calls_reserve]
      logs_keeps[OF keeps_generate_vm_name(2)] logs_keeps[OF keeps_generate_password(2)];
      auto simp: reserve_calls_def)+

lemma logs_reserve: "logs reserve_calls (reserve_vm e u r)"
  unfolding reserve_vm_def book_vm_def Let_def
  by (intro logs_intros logs_plan_pick logs_keeps[OF keeps_allocate_ip]) (auto simp: reserve_calls_def)

text \<open>A success of the reservation, taken apart.\<close>

definition reserved :: "env \<Rightarrow> user \<Rightarrow> vm_request \<Rightarrow> database \<Rightarrow> reservation \<Rightarrow> database \<Rightarrow> bool" where
  "reserved e u r d rs d' \<longleftrightarrow>
     (\<exists>sp srv name display pw octet t ps vmid.
        check_request (conf e) d u r = Inr (sp, srv) \<and>
        vmid_conflicts_in_db d srv vmid = Inr False \<and>
        calculate_ports (srv_base_port srv) vmid = Inr ps \<and>
        first_free_octet (conf e) d = Some octet \<and> pw_policy pw \<and>
        rs_server rs = srv \<and> rs_specs rs = sp \<and>
        rs_vm rs = (new_vm u srv sp vmid name display (ip_candidate (conf e) octet) pw (q_purpose r) t)
                     \<lparr>vm_id := next_id d\<rparr> \<and>
        d' = add_default_ports (next_id d) ps
               (add_vm (new_vm u srv sp vmid name display (ip_candidate (conf e) octet) pw (q_purpose r) t) d) \<and>
        constraints_ok d')"

lemma select_vmid_free: "select_vmid e srv s = (Inr w, s') \<Longrightarrow> vmid_conflicts_in_db (db s) srv w = Inr False"
proof -
  assume run: "select_vmid e srv s = (Inr w, s')"
  then obtain v t where v: "get_next_vmid e (srv_name srv) s = (Inr v, t)"
    and p: "probe_vmids e srv 50 v t = (Inr w, s')"
    by (auto simp: select_vmid_def seq_Inr_iff MAX_VMID_PROBES_def)
  have "keeps db (get_next_vmid e (srv_name srv))" unfolding get_next_vmid_def by (intro keeps_intros)
  then have "db t = db s" using v by (rule keepsD)
  then show ?thesis using probe_vmids_run[OF p] by simp
qed

lemma generate_password_good: "generate_password e s = (Inr p, s') \<Longrightarrow> pw_policy p"
  using generate_password_rec_run[of e RECURSION_LIMIT 8 s] by (fastforce simp: generate_password_def)

lemma allocate_octet: "allocate_internal_ip e s = (Inr ip, s') \<Longrightarrow>
    \<exists>octet. first_free_octet (conf e) (db s) = Some octet \<and> ip = ip_candidate (conf e) octet"
  by (auto simp: allocate_internal_ip_def prog_defs split: option.splits)

lemma plan_vm_run:
  "plan_vm e u r s = (Inr (sp, srv, storage), s') \<Longrightarrow> check_request (conf e) (db s) u r = Inr (sp, srv)"
  by (auto simp: plan_vm_def Let_def seq_Inr_iff)

lemma pick_ids_run:
  assumes "pick_ids e u r srv s = (Inr (vmid, name, display, pw), s')"
  shows "vmid_conflicts_in_db (db s) srv vmid = Inr False \<and> pw_policy pw"
  using assms by (auto simp: pick_ids_def seq_Inr_iff dest: select_vmid_free generate_password_good)

lemma book_vm_run:
  assumes "book_vm e u r (sp, srv, storage) (vmid, name, display, pw) s = (Inr rs, s')"
  shows "\<exists>octet t ps. calculate_ports (srv_base_port srv) vmid = Inr ps \<and>
     first_free_octet (conf e) (db s) = Some octet \<and>
     rs = \<lparr>rs_vm = (new_vm u srv sp vmid name display (ip_candidate (conf e) octet) pw (q_purpose r) t)
             \<lparr>vm_id := next_id (db s)\<rparr>, rs_server = srv, rs_specs = sp, rs_storage = storage\<rparr> \<and>
     db s' = add_default_ports (next_id (db s)) ps
       (add_vm (new_vm u srv sp vmid name display (ip_candidate (conf e) octet) pw (q_purpose r) t) (db s)) \<and>
     constraints_ok (db s')"
proof -
  from assms obtain ip s1 ps where ip: "allocate_internal_ip e s = (Inr ip, s1)"
    and ps: "calculate_ports (srv_base_port srv) vmid = Inr ps"
    and c: "commit e (add_default_ports (next_id (db s1)) ps
       (add_vm (new_vm u srv sp vmid name display ip pw (q_purpose r) (clk s1)) (db s1))) s1 = (Inr (), s')"
    and rs: "rs = \<lparr>rs_vm = (new_vm u srv sp vmid name display ip pw (q_purpose r) (clk s1))
             \<lparr>vm_id := next_id (db s1)\<rparr>, rs_server = srv, rs_specs = sp, rs_storage = storage\<rparr>"
    by (auto simp: book_vm_def Let_def seq_Inr_iff now_def)
  have s1: "db s1 = db s" using keepsD[OF keeps_allocate_ip ip] .
  show ?thesis using allocate_octet[OF ip] commit_constraints[OF c] ps rs unfolding s1 by blast
qed

lemma reserve_vm_run:
  assumes "reserve_vm e u r s = (Inr rs, s')"
  shows "reserved e u r (db s) rs (db s')"
proof -
  from assms obtain plan s1 ids s2 where p: "plan_vm e u r s = (Inr plan, s1)"
    and i: "pick_ids e u r (fst (snd plan)) s1 = (Inr ids, s2)"
    and b: "book_vm e u r plan ids s2 = (Inr rs, s')"
    by (auto simp: reserve_vm_def seq_Inr_iff)
  obtain sp srv storage where plan: "plan = (sp, srv, storage)" by (cases plan)
  obtain vmid name display pw where ids: "ids = (vmid, name, display, pw)" by (cases ids)
  have d1: "db s1 = db s" using keepsD[OF keeps_plan_pick(1) p] .
  have d2: "db s2 = db s" using keepsD[OF keeps_plan_pick(2) i] d1 by simp
  have i': "pick_ids e u r srv s1 = (Inr (vmid, name, display, pw), s2)" using i plan ids by simp
  note facts = plan_vm_run[OF p[unfolded plan]] pick_ids_run[OF i', unfolded d1]
  obtain octet t ps where *: "calculate_ports (srv_base_port srv) vmid = Inr ps"
     "first_free_octet (conf e) (db s) = Some octet"
     "rs = \<lparr>rs_vm = (new_vm u srv sp vmid name display (ip_candidate (conf e) octet) pw (q_purpose r) t)
             \<lparr>vm_id := next_id (db s)\<rparr>, rs_server = srv, rs_specs = sp, rs_storage = storage\<rparr>"
     "db s' = add_default_ports (next_id (db s)) ps
       (add_vm (new_vm u srv sp vmid name display (ip_candidate (conf e) octet) pw (q_purpose r) t) (db s))"
     "constraints_ok (db s')"
    using book_vm_run[OF b[unfolded plan ids]] unfolding d2 by blast
  show ?thesis unfolding reserved_def
    by (rule exI[of _ sp], rule exI[of _ srv], rule exI[of _ name], rule exI[of _ display], rule exI[of _ pw],
        rule exI[of _ octet], rule exI[of _ t], rule exI[of _ ps], rule exI[of _ vmid])
      (use facts * in simp)
qed

section \<open>Provisioning, taken apart\<close>

definition db_answers :: "env \<Rightarrow> bool" where
  "db_answers e \<longleftrightarrow> (\<forall>h. \<exists>j. answer e h DbCommit = Inr j)"

lemma db_answersD: "db_answers e \<Longrightarrow> answer e h DbCommit \<noteq> Inl x"
  unfolding db_answers_def by (metis Inl_Inr_False)

lemma cleanup_row_run:
  "wp (cleanup_vm_db_record e v)
     (\<lambda>_ s'. (db s' = db s \<or> db s' = drop_vm v (db s)) \<and>
        (db_answers e \<and> constraints_ok (drop_vm v (db s)) \<longrightarrow> db s' = drop_vm v (db s)))
     (\<lambda>_ _. False) s"
  by (auto simp: cleanup_vm_db_record_def wp_simps dest: db_answersD)

lemma fail_creation_run:
  "wp (fail_creation e rs cs ia x) (\<lambda>_ _. False)
     (\<lambda>y s'. is_http y \<and> (db s' = db s \<or> db s' = drop_vm (rs_vm rs) (db s)) \<and>
        (db_answers e \<and> constraints_ok (drop_vm (rs_vm rs) (db s)) \<longrightarrow> db s' = drop_vm (rs_vm rs) (db s))) s"
  unfolding fail_creation_def wp_seq
  by (rule wp_mono[OF cleanup_failed_total], rule wp_mono[OF cleanup_row_run]) (auto simp: wp_raise)

text \<open>A step inside the \<open>try\<close> block: it keeps the tables, or it raises and the cleanup runs.\<close>

lemma try_step:
  assumes k: "keeps db m" and "\<And>x t. db t = db s \<Longrightarrow> wp (n x) Q (\<lambda>y s'. is_http y \<and> P (db s) (db s')) t"
    and "\<And>y (s' :: sys). is_http y \<Longrightarrow> (db s' = db s \<or> db s' = drop_vm (rs_vm rs) (db s)) \<Longrightarrow>
       (db_answers e \<and> constraints_ok (drop_vm (rs_vm rs) (db s)) \<longrightarrow> db s' = drop_vm (rs_vm rs) (db s)) \<Longrightarrow>
       P (db s) (db s')"
  shows "wp (seq (catch m (fail_creation e rs cs ia)) n) Q (\<lambda>y s'. is_http y \<and> P (db s) (db s')) s"
proof -
  have "wp m (\<lambda>x. wp (n x) Q (\<lambda>y s'. is_http y \<and> P (db s) (db s')))
     (\<lambda>x. wp (fail_creation e rs cs ia x) (\<lambda>x. wp (n x) Q (\<lambda>y s'. is_http y \<and> P (db s) (db s')))
        (\<lambda>y s'. is_http y \<and> P (db s) (db s'))) s"
  proof (rule wp_mono[OF keeps_wp[OF k refl]])
    fix x and t :: sys assume "db t = db s"
    then show "wp (n x) Q (\<lambda>y s'. is_http y \<and> P (db s) (db s')) t" by (rule assms(2))
  next
    fix x and t :: sys assume t: "db t = db s"
    show "wp (fail_creation e rs cs ia x) (\<lambda>x. wp (n x) Q (\<lambda>y s'. is_http y \<and> P (db s) (db s')))
        (\<lambda>y s'. is_http y \<and> P (db s) (db s')) t"
      by (rule wp_mono[OF fail_creation_run]) (use t assms(3) in auto)
  qed
  then show ?thesis by (simp only: wp_seq wp_catch)
qed

definition result_of :: "env \<Rightarrow> vm_request \<Rightarrow> reservation \<Rightarrow> vm_result" where
  "result_of e r rs = (let v = rs_vm rs in
     \<lparr>v_message = ''vm-created '' @ vm_name v, v_assigned_node = srv_name (rs_server rs), v_vmid = vm_vmid v,
      v_name = vm_name v, v_tier = q_tier r, v_internal_ip = opt_str (vm_internal_ip v),
      v_ssh_user = snd (template_of (conf e) (q_os r)), v_ssh_password = opt_str (vm_password v)\<rparr>)"

lemma boot_run:
  "wp (boot_and_finish e u os tier rs)
     (\<lambda>res s'. (\<exists>t. db s' = mark_ready u (rs_vm rs) t (db s)) \<and>
        res = \<lparr>v_message = ''vm-created '' @ vm_name (rs_vm rs), v_assigned_node = srv_name (rs_server rs),
           v_vmid = vm_vmid (rs_vm rs), v_name = vm_name (rs_vm rs), v_tier = tier,
           v_internal_ip = opt_str (vm_internal_ip (rs_vm rs)),
           v_ssh_user = snd (template_of (conf e) os), v_ssh_password = opt_str (vm_password (rs_vm rs))\<rparr>)
     (\<lambda>_ s'. db s' = db s) s"
  by (auto simp: boot_and_finish_def Let_def wp_simps)

lemma provision_run:
  "wp (provision_vm e u r rs)
     (\<lambda>res s'. (\<exists>t. db s' = mark_ready u (rs_vm rs) t (db s)) \<and> res = result_of e r rs)
     (\<lambda>y s'. is_http y \<and> (db s' = db s \<or> db s' = drop_vm (rs_vm rs) (db s)) \<and>
        (db_answers e \<and> constraints_ok (drop_vm (rs_vm rs) (db s)) \<longrightarrow> db s' = drop_vm (rs_vm rs) (db s))) s"
proof -
  let ?P = "\<lambda>d d'. (d' = d \<or> d' = drop_vm (rs_vm rs) d) \<and>
     (db_answers e \<and> constraints_ok (drop_vm (rs_vm rs) d) \<longrightarrow> d' = drop_vm (rs_vm rs) d)"
  let ?Q = "\<lambda>res s'. (\<exists>t. db s' = mark_ready u (rs_vm rs) t (db s)) \<and> res = result_of e r rs"
  have last: "wp (catch (boot_and_finish e u (q_os r) (q_tier r) rs) (fail_creation e rs True True)) ?Q
     (\<lambda>y s'. is_http y \<and> ?P (db s) (db s')) t" if t: "db t = db s" for t
    unfolding wp_catch
  proof (rule wp_mono[OF boot_run[of e u "q_os r" "q_tier r" rs t]])
    fix x and t' :: sys assume t': "db t' = db t"
    show "wp (fail_creation e rs True True x) ?Q (\<lambda>y s'. is_http y \<and> ?P (db s) (db s')) t'"
      by (rule wp_mono[OF fail_creation_run]) (use t t' in auto)
  qed (use t in \<open>auto simp: result_of_def Let_def\<close>)
  have mid: "wp (seq (catch (configure_clone e (q_tier r) rs upid) (fail_creation e rs True False)) (\<lambda>_.
      catch (boot_and_finish e u (q_os r) (q_tier r) rs) (fail_creation e rs True True))) ?Q
     (\<lambda>y s'. is_http y \<and> ?P (db t) (db s')) t" if t: "db t = db s" for t upid
    by (rule try_step[where P = ?P]) (use last t in \<open>auto intro: keeps_intros\<close>)
  have "wp (provision_vm e u r rs) ?Q (\<lambda>y s'. is_http y \<and> ?P (db s) (db s')) s"
    unfolding provision_vm_def
    by (rule try_step[where P = ?P], rule keeps_clone_steps) (use mid in auto)
  then show ?thesis by simp
qed

section \<open>The tables before and after\<close>

text \<open>Rows only refer to VMs that exist or have existed.\<close>

definition refs_ok :: "database \<Rightarrow> bool" where
  "refs_ok d \<longleftrightarrow> (\<forall>p \<in> set (vm_ports d). p_vm_id p < next_id d) \<and>
     (\<forall>r \<in> set (https_routes d). r_vm_id r < next_id d)"

lemma add_default_ports_simps [simp]:
  "vms (add_default_ports i ps d) = vms d" "users (add_default_ports i ps d) = users d"
  "servers (add_default_ports i ps d) = servers d" "jobs (add_default_ports i ps d) = jobs d"
  "https_routes (add_default_ports i ps d) = https_routes d"
  "notifications (add_default_ports i ps d) = notifications d"
  "verifications (add_default_ports i ps d) = verifications d" "faqs (add_default_ports i ps d) = faqs d"
  "next_id (add_default_ports i ps d) = next_id d + 3"
  by (simp_all add: add_default_ports_def add_port_def)

lemma add_vm_simps [simp]:
  "vms (add_vm v d) = vms d @ [v\<lparr>vm_id := next_id d\<rparr>]" "users (add_vm v d) = users d"
  "servers (add_vm v d) = servers d" "jobs (add_vm v d) = jobs d" "vm_ports (add_vm v d) = vm_ports d"
  "https_routes (add_vm v d) = https_routes d" "notifications (add_vm v d) = notifications d"
  "verifications (add_vm v d) = verifications d" "faqs (add_vm v d) = faqs d"
  "next_id (add_vm v d) = next_id d + 1"
  by (simp_all add: add_vm_def)

definition default_rows :: "int \<Rightarrow> ports \<Rightarrow> int \<Rightarrow> vm_port list" where
  "default_rows i ps n =
     [(default_port i 22 (ssh_port ps) ''tcp'' ''SSH'')\<lparr>p_id := n\<rparr>,
      (default_port i 80 (svc1_port ps) ''tcp'' ''HTTP'')\<lparr>p_id := n + 1\<rparr>,
      (default_port i 10000 (svc2_port ps) ''tcp/udp'' ''SVC'')\<lparr>p_id := n + 2\<rparr>]"

lemma vm_ports_add_default: "vm_ports (add_default_ports i ps d) = vm_ports d @ default_rows i ps (next_id d)"
  by (simp add: add_default_ports_def add_port_def default_rows_def)

lemma default_rows_vm: "p \<in> set (default_rows i ps n) \<Longrightarrow> p_vm_id p = i"
  by (auto simp: default_rows_def default_port_def)

text \<open>Dropping the reserved rows is the inverse of reserving them, but for the ids used up.\<close>

lemma drop_reserved:
  assumes "ids_ok d" and "refs_ok d"
  shows "drop_vm (v\<lparr>vm_id := next_id d\<rparr>) (add_default_ports (next_id d) ps (add_vm v d)) =
     d\<lparr>next_id := next_id d + 4\<rparr>"
proof -
  have v: "delete_rows (\<lambda>x. vm_id x = next_id d) (vms d @ [v\<lparr>vm_id := next_id d\<rparr>]) = vms d"
    by (rule vm_table.insert_delete) (use assms in \<open>simp add: ids_ok_def\<close>)
  have p: "delete_rows (\<lambda>p. p_vm_id p = next_id d) (vm_ports d @ default_rows (next_id d) ps (next_id d + 1)) = vm_ports d"
  proof -
    have "delete_rows (\<lambda>p. p_vm_id p = next_id d) (vm_ports d) = vm_ports d"
      using assms(2) by (auto simp: refs_ok_def intro!: delete_rows_id)
    moreover have "delete_rows (\<lambda>p. p_vm_id p = next_id d) (default_rows (next_id d) ps (next_id d + 1)) = []"
      by (rule delete_rows_all) (rule default_rows_vm)
    ultimately show ?thesis by simp
  qed
  have r: "delete_rows (\<lambda>r. r_vm_id r = next_id d) (https_routes d) = https_routes d"
    using assms(2) by (auto simp: refs_ok_def intro!: delete_rows_id)
  show ?thesis
    by (rule database.equality)
      (use v p in \<open>simp_all add: drop_vm_def vm_ports_add_default r del: delete_rows_append\<close>)
qed

lemma constraints_reserved:
  "constraints_ok (add_default_ports i ps (add_vm v d)) \<Longrightarrow> constraints_ok (d\<lparr>next_id := n\<rparr>)"
  by (auto simp: constraints_ok_def vm_ports_add_default)

lemma mark_ready_simps [simp]:
  "vms (mark_ready u v t d) = update_rows (\<lambda>x. vm_id x = vm_id v) (\<lambda>x. x\<lparr>vm_ready := True\<rparr>) (vms d)"
  "vm_ports (mark_ready u v t d) = vm_ports d" "servers (mark_ready u v t d) = servers d"
  "users (mark_ready u v t d) = users d" "jobs (mark_ready u v t d) = jobs d"
  "https_routes (mark_ready u v t d) = https_routes d"
  by (simp_all add: mark_ready_def add_notification_def)

lemma check_request_run:
  assumes "check_request c d u r = Inr (sp, srv)"
  shows "(u_role u = USER \<longrightarrow> vms_of d (u_id u) < MAX_VMS_PER_USER c \<and> q_node_name r \<noteq> Some (PROJECT_NODE_NAME c)) \<and>
    (q_tier r = PROJECT_CUSTOM \<longrightarrow> u_role u \<noteq> USER) \<and>
    (\<exists>base. map_of TIER_SPECS (q_tier r) = Some base \<and> custom_specs r base = Inr sp) \<and>
    srv \<in> set (servers d) \<and> srv_is_active srv \<and> Some (srv_name srv) = q_node_name r"
proof -
  obtain base where base: "map_of TIER_SPECS (q_tier r) = Some base" using TIER_SPECS_total by blast
  have first: "\<not> A \<and> R = Inr y" if "(if A then Inl x else R) = Inr y" for A x y and R :: "exn + specs \<times> server"
    using that by (auto split: if_splits)
  note g1 = first[OF assms[unfolded check_request_def]]
  note g2 = first[OF conjunct2[OF g1]]
  note g3 = first[OF conjunct2[OF g2]]
  have g: "\<not> (u_role u = USER \<and> MAX_VMS_PER_USER c \<le> vms_of d (u_id u))"
    "\<not> (q_tier r = PROJECT_CUSTOM \<and> u_role u \<notin> {ADMIN, PROJECT_OWNER})"
    "\<not> (u_role u = USER \<and> q_node_name r = Some (PROJECT_NODE_NAME c))"
    by (rule conjunct1[OF g1], rule conjunct1[OF g2], rule conjunct1[OF g3])
  have body: "andthen (custom_specs r base) (\<lambda>sp.
            case q_node_name r of
              None \<Rightarrow> Inl (Http 400 ''no-node'')
            | Some name \<Rightarrow>
                if name = [] then Inl (Http 400 ''no-node'')
                else (case find_active_node d name of
                    None \<Rightarrow> Inl (Http 404 ''node-not-found'')
                  | Some srv \<Rightarrow> Inr (sp, srv))) = Inr (sp, srv)"
    using conjunct2[OF g3] unfolding base by simp
  then obtain sp' where sp': "custom_specs r base = Inr sp'"
    by (cases "custom_specs r base") simp_all
  from body have node: "(case q_node_name r of
              None \<Rightarrow> Inl (Http 400 ''no-node'')
            | Some name \<Rightarrow>
                if name = [] then Inl (Http 400 ''no-node'')
                else (case find_active_node d name of
                    None \<Rightarrow> Inl (Http 404 ''node-not-found'')
                  | Some srv \<Rightarrow> Inr (sp', srv))) = Inr (sp, srv)"
    unfolding sp' by simp
  then obtain name where name: "q_node_name r = Some name" by (cases "q_node_name r") simp_all
  from node have found: "(case find_active_node d name of None \<Rightarrow> Inl (Http 404 ''node-not-found'')
      | Some srv \<Rightarrow> Inr (sp', srv)) = Inr (sp, srv)"
    unfolding name by (cases "name = []") simp_all
  then have n: "q_node_name r = Some name" "find_active_node d name = Some srv" "custom_specs r base = Inr sp"
    using name sp' by (cases "find_active_node d name"; simp)+
  then have "srv \<in> set (servers d) \<and> srv_is_active srv \<and> srv_name srv = name"
    by (auto simp: find_active_node_def dest!: find_Some_iff_mem)
  then show ?thesis using g n base by (cases "u_role u") auto
qed

section \<open>Properties of create_vm\<close>

lemma create_vm_cases:
  assumes "create_vm e u r s = (res, s')"
  obtains (refused) x where "res = Inl x" "db s' = db s" "reserve_vm e u r s = (Inl x, s')"
    | (failed) x rs s1 where "reserve_vm e u r s = (Inr rs, s1)" "provision_vm e u r rs s1 = (Inl x, s')" "res = Inl x"
    | (created) y rs s1 where "reserve_vm e u r s = (Inr rs, s1)" "provision_vm e u r rs s1 = (Inr y, s')" "res = Inr y"
proof -
  obtain q s1 where q: "reserve_vm e u r s = (q, s1)" by fastforce
  show thesis
  proof (cases q)
    case (Inl x)
    then have "res = Inl x" "s' = s1" using assms q by (auto simp: create_vm_def seq_def)
    then show thesis using refused q Inl undoesD[OF undoes_reserve] by blast
  next
    case (Inr rs)
    then have p: "provision_vm e u r rs s1 = (res, s')" using assms q by (simp add: create_vm_def seq_def)
    show thesis using failed created q Inr p by (cases res) auto
  qed
qed

lemma create_vm_created:
  assumes "ids_ok (db s)" and "create_vm e u r s = (Inr res, s')"
  shows "\<exists>v srv ps.
    vms (db s') = vms (db s) @ [v] \<and> vm_owner_id v = Some (u_id u) \<and> vm_ready v \<and>
    vm_vmid v = v_vmid res \<and> vm_name v = v_name res \<and> vm_internal_ip v = Some (v_internal_ip res) \<and>
    vm_password v = Some (v_ssh_password res) \<and> pw_policy (v_ssh_password res) \<and>
    v_internal_ip res \<notin> used_ips (db s) \<and>
    srv \<in> set (servers (db s)) \<and> srv_is_active srv \<and> Some (srv_name srv) = q_node_name r \<and>
    v_assigned_node res = srv_name srv \<and> vm_server_id v = srv_id srv \<and>
    (vm_expires_at v \<noteq> None \<longleftrightarrow> u_role u = USER) \<and>
    (u_role u = USER \<longrightarrow> vms_of (db s) (u_id u) < MAX_VMS_PER_USER (conf e) \<and>
       (\<exists>t. vm_created_at v = Some t \<and> vm_expires_at v = Some (t + 7 * day))) \<and>
    calculate_ports (srv_base_port srv) (v_vmid res) = Inr ps \<and>
    vm_ports (db s') = vm_ports (db s) @ default_rows (vm_id v) ps (next_id (db s) + 1)"
proof -
  from assms(2) obtain rs s1 where r: "reserve_vm e u r s = (Inr rs, s1)"
    and p: "provision_vm e u r rs s1 = (Inr res, s')"
    by (cases rule: create_vm_cases) auto
  obtain t0 where fin: "db s' = mark_ready u (rs_vm rs) t0 (db s1)" and res: "res = result_of e r rs"
    using wp_result[OF provision_run p] by blast
  from reserve_vm_run[OF r] obtain sp srv name display pw octet t ps vmid where
    ck: "check_request (conf e) (db s) u r = Inr (sp, srv)"
    and ps: "calculate_ports (srv_base_port srv) vmid = Inr ps"
    and oc: "first_free_octet (conf e) (db s) = Some octet" and pw: "pw_policy pw"
    and srv: "rs_server rs = srv"
    and v: "rs_vm rs = (new_vm u srv sp vmid name display (ip_candidate (conf e) octet) pw (q_purpose r) t)
                     \<lparr>vm_id := next_id (db s)\<rparr>"
    and d1: "db s1 = add_default_ports (next_id (db s)) ps
               (add_vm (new_vm u srv sp vmid name display (ip_candidate (conf e) octet) pw (q_purpose r) t) (db s))"
    unfolding reserved_def by blast
  let ?v = "(rs_vm rs)\<lparr>vm_ready := True\<rparr>"
  have old: "update_rows (\<lambda>x. vm_id x = next_id (db s)) (\<lambda>x. x\<lparr>vm_ready := True\<rparr>) (vms (db s)) = vms (db s)"
    using assms(1) by (auto simp: ids_ok_def intro!: update_rows_id)
  have vms: "vms (db s') = vms (db s) @ [?v]"
    using old by (simp add: fin d1 v) (simp add: update_rows_def)
  have free: "ip_candidate (conf e) octet \<notin> used_ips (db s)"
    using find_upto_first[OF oc[unfolded first_free_octet_def]] by (simp add: used_ips_def)
  have node: "srv \<in> set (servers (db s)) \<and> srv_is_active srv \<and> Some (srv_name srv) = q_node_name r"
    and quota: "u_role u = USER \<longrightarrow> vms_of (db s) (u_id u) < MAX_VMS_PER_USER (conf e)"
    using check_request_run[OF ck] by auto
  have ports: "vm_ports (db s') = vm_ports (db s) @ default_rows (vm_id ?v) ps (next_id (db s) + 1)"
    by (simp add: fin d1 v vm_ports_add_default)
  show ?thesis
    by (rule exI[of _ ?v], rule exI[of _ srv], rule exI[of _ ps])
      (use vms free node quota ports ps pw srv in
        \<open>simp add: res result_of_def Let_def v new_vm_def opt_str_def\<close>)
qed


lemma create_vm_failed:
  assumes "ids_ok (db s)" and "refs_ok (db s)" and "db_answers e"
    and "create_vm e u r s = (Inl x, s')"
  shows "db s' = (db s)\<lparr>next_id := next_id (db s')\<rparr>"
  using assms(4)
proof (cases rule: create_vm_cases)
  case (failed y rs s1)
  from reserve_vm_run[OF failed(1)] obtain v ps where
    v: "rs_vm rs = v\<lparr>vm_id := next_id (db s)\<rparr>"
    and d1: "db s1 = add_default_ports (next_id (db s)) ps (add_vm v (db s))" and c: "constraints_ok (db s1)"
    unfolding reserved_def by blast
  have drop: "drop_vm (rs_vm rs) (db s1) = (db s)\<lparr>next_id := next_id (db s) + 4\<rparr>"
    unfolding v d1 by (rule drop_reserved[OF assms(1,2)])
  have "constraints_ok (drop_vm (rs_vm rs) (db s1))"
    unfolding drop using c unfolding d1 by (rule constraints_reserved)
  then have "db s' = drop_vm (rs_vm rs) (db s1)"
    using wp_error[OF provision_run failed(2)] assms(3) by blast
  then show ?thesis unfolding drop by simp
qed simp_all

text \<open>
  C6. A creation that fails leaves no trace in the database. When the database accepts commits, an
  exception of \<open>create_vm\<close> at any step (a refused check, a failed clone, a failed configuration, a failed
  port forwarding, a failed boot) leaves every table as it was; only row ids may have been used up.
\<close>

theorem create_vm_failure_leaves_no_rows:
  assumes "ids_ok (db s)" and "refs_ok (db s)" and "db_answers e"
    and "create_vm e u r s = (Inl x, s')"
  shows "db s' = (db s)\<lparr>next_id := next_id (db s')\<rparr>"
  using assms by (rule create_vm_failed)

section \<open>What create_vm may delete\<close>

definition clone_calls :: "call set" where
  "clone_calls = {c. case c of PveVmDelete _ _ _ \<Rightarrow> False | PveClone _ _ _ \<Rightarrow> False | _ \<Rightarrow> True}"

lemma gateway_calls_clone: "gateway_calls \<subseteq> clone_calls"
  by (auto simp: gateway_calls_def clone_calls_def split: call.splits)

lemma reserve_calls_clone: "reserve_calls \<subseteq> clone_calls"
  by (auto simp: reserve_calls_def clone_calls_def split: call.splits)

lemma logs_configure: "logs clone_calls (configure_clone e tier rs upid)"
  unfolding configure_clone_def upload_snippet_def Let_def
  by (intro logs_intros logs_mono[OF logs_manage_iptables gateway_calls_clone]
      logs_keeps[OF keeps_generate_password(2)]) (auto simp: clone_calls_def)

lemma logs_boot: "logs clone_calls (boot_and_finish e u os tier rs)"
  unfolding boot_and_finish_def Let_def by (intro logs_intros) (auto simp: clone_calls_def)

lemma logs_wait_unlocked: "logs clone_calls (wait_unlocked e node vmid n)"
  by (induction n) (auto simp: clone_calls_def intro!: logs_intros)

lemma logs_fail:
  "logs (insert (PveVmDelete (srv_name (rs_server rs)) (vm_vmid (rs_vm rs)) True) clone_calls)
     (fail_creation e rs cs ia x)"
  "logs clone_calls (fail_creation e rs False ia x)"
  unfolding fail_creation_def cleanup_failed_vm_resources_def remove_clone_def cleanup_vm_db_record_def
    delete_snippet_def
  by (intro logs_intros logs_mono[OF logs_wait_unlocked] logs_mono[OF logs_manage_iptables]
      logs_mono[OF logs_configure]; use gateway_calls_clone in \<open>auto simp: clone_calls_def\<close>)+

lemma fail_creation_raises: "fail_creation e rs cs ia x s = (q, s') \<Longrightarrow> \<exists>y. q = Inl y"
proof (cases q)
  case (Inr y)
  assume "fail_creation e rs cs ia x s = (q, s')"
  then have "False" using wp_result[OF fail_creation_run, of e rs cs ia x s y s'] Inr by simp
  then show ?thesis ..
qed simp

definition clone_call :: "env \<Rightarrow> vm_request \<Rightarrow> reservation \<Rightarrow> call" where
  "clone_call e r rs = PveClone (srv_name (rs_server rs)) (fst (template_of (conf e) (q_os r))) (clone_params rs)"

lemma provision_log:
  assumes "provision_vm e u r rs s = (res, s')"
  shows "\<exists>ys. calls s' = calls s @ clone_call e r rs # ys \<and>
    set ys \<subseteq> insert (PveVmDelete (srv_name (rs_server rs)) (vm_vmid (rs_vm rs)) True) clone_calls \<and>
    ((\<exists>x. answer e (calls s) (clone_call e r rs) = Inl x) \<longrightarrow> set ys \<subseteq> clone_calls)"
proof -
  let ?c = "clone_call e r rs"
  let ?A = "insert (PveVmDelete (srv_name (rs_server rs)) (vm_vmid (rs_vm rs)) True) clone_calls"
  let ?k = "\<lambda>upid. seq (catch (configure_clone e (q_tier r) rs upid) (fail_creation e rs True False)) (\<lambda>_.
      catch (boot_and_finish e u (q_os r) (q_tier r) rs) (fail_creation e rs True True))"
  have start: "start_clone e (q_os r) rs s = (answer e (calls s) ?c, called e ?c s)"
    by (simp add: start_clone_def ext_eq clone_call_def)
  have sub: "clone_calls \<subseteq> ?A" by blast
  have k: "logs ?A (?k upid)" for upid
    by (intro logs_intros logs_mono[OF logs_configure sub] logs_mono[OF logs_boot sub] logs_fail(1))
  show ?thesis
  proof (cases "answer e (calls s) ?c")
    case (Inl x)
    obtain q t where F: "fail_creation e rs False False x (called e ?c s) = (q :: exn + json, t)" by fastforce
    then obtain y where q: "q = Inl y" using fail_creation_raises by blast
    have "catch (start_clone e (q_os r) rs) (fail_creation e rs False False) s = (Inl y, t)"
      by (simp add: catch_def start Inl F q)
    then have "s' = t" using assms by (simp add: provision_vm_def seq_def[of "catch (start_clone _ _ _) _"])
    then obtain ys where "calls s' = (calls s @ [?c]) @ ys" "set ys \<subseteq> clone_calls"
      using logsD[OF logs_fail(2) F] by auto
    then show ?thesis using sub by (intro exI[of _ ys]) auto
  next
    case (Inr j)
    then have "?k j (called e ?c s) = (res, s')"
    proof -
      have "catch (start_clone e (q_os r) rs) (fail_creation e rs False False) s = (Inr j, called e ?c s)"
        by (simp add: catch_def start Inr)
      then show ?thesis using assms by (simp add: provision_vm_def seq_def[of "catch (start_clone _ _ _) _"])
    qed
    from logsD[OF k this] obtain ys where "calls s' = (calls s @ [?c]) @ ys" "set ys \<subseteq> ?A" by auto
    then show ?thesis using Inr by (intro exI[of _ ys]) auto
  qed
qed

lemma new_id_param: "map_of (clone_params rs) ''newid'' = Some (JInt (vm_vmid (rs_vm rs)))"
  by (simp add: clone_params_def)

lemma reserve_log:
  assumes "reserve_vm e u r s = (Inr rs, s')"
  shows "\<exists>xs. calls s' = calls s @ xs \<and> set xs \<subseteq> reserve_calls \<and> DbCommit \<in> set xs"
proof -
  from assms obtain plan s1 ids s2 where p: "plan_vm e u r s = (Inr plan, s1)"
    and i: "pick_ids e u r (fst (snd plan)) s1 = (Inr ids, s2)"
    and b: "book_vm e u r plan ids s2 = (Inr rs, s')"
    by (auto simp: reserve_vm_def seq_Inr_iff)
  have ip: "keeps calls (allocate_internal_ip e)" by (rule keeps_allocate_ip)
  have "calls s' = calls s2 @ [DbCommit]"
    using b by (auto simp: book_vm_def Let_def seq_Inr_iff now_def commit_def ext_eq
        dest!: keepsD[OF ip] split: prod.splits if_splits)
  then show ?thesis
    using logsD[OF logs_plan_pick(1) p] logsD[OF logs_plan_pick(2) i] logsD[OF logs_reserve assms] by auto
qed

text \<open>
  C7. \<open>create_vm\<close> never deletes a VM it did not make. If it asks Proxmox to delete a VM, it has before that
  asked for a clone with this id on this node and Proxmox has accepted, and the id is not the id of any VM
  of that server in the database; and the clone was requested only after the reservation was committed.
\<close>

theorem create_vm_deletes_only_its_clone:
  assumes "create_vm e u r s = (res, s')" and "calls s' = calls s @ new"
    and "PveVmDelete node vmid purge \<in> set new"
  shows "\<exists>pre post tmpl params j srv. new = pre @ PveClone node tmpl params # post \<and>
     PveVmDelete node vmid purge \<in> set post \<and> DbCommit \<in> set pre \<and>
     map_of params ''newid'' = Some (JInt vmid) \<and>
     answer e (calls s @ pre) (PveClone node tmpl params) = Inr j \<and>
     srv \<in> set (servers (db s)) \<and> srv_name srv = node \<and>
     (\<forall>v \<in> set (vms (db s)). vm_server_id v = srv_id srv \<longrightarrow> vm_vmid v \<noteq> vmid)"
proof -
  have no: "PveVmDelete node vmid purge \<notin> reserve_calls" "PveVmDelete node vmid purge \<notin> clone_calls"
    by (auto simp: reserve_calls_def clone_calls_def)
  have "\<exists>rs s1. reserve_vm e u r s = (Inr rs, s1) \<and> provision_vm e u r rs s1 = (res, s')"
    using assms(1)
  proof (cases rule: create_vm_cases)
    case (refused x)
    from logsD[OF logs_reserve refused(3)] show ?thesis using assms(2,3) no by auto
  qed auto
  then obtain rs s1 where r: "reserve_vm e u r s = (Inr rs, s1)" and p: "provision_vm e u r rs s1 = (res, s')"
    by blast
  obtain xs where xs: "calls s1 = calls s @ xs" "set xs \<subseteq> reserve_calls" "DbCommit \<in> set xs"
    using reserve_log[OF r] by blast
  obtain ys where ys: "calls s' = calls s1 @ clone_call e r rs # ys"
    "set ys \<subseteq> insert (PveVmDelete (srv_name (rs_server rs)) (vm_vmid (rs_vm rs)) True) clone_calls"
    "(\<exists>x. answer e (calls s1) (clone_call e r rs) = Inl x) \<longrightarrow> set ys \<subseteq> clone_calls"
    using provision_log[OF p] by blast
  have new: "new = xs @ clone_call e r rs # ys" using assms(2) xs(1) ys(1) by simp
  have "PveVmDelete node vmid purge \<noteq> clone_call e r rs" by (simp add: clone_call_def)
  then have d: "PveVmDelete node vmid purge \<in> set ys" using assms(3) xs(2) no new by auto
  then have eqs: "node = srv_name (rs_server rs)" "vmid = vm_vmid (rs_vm rs)" using ys(2) no by auto
  obtain j where j: "answer e (calls s1) (clone_call e r rs) = Inr j"
    using ys(3) d no by (cases "answer e (calls s1) (clone_call e r rs)") auto
  have srv: "rs_server rs \<in> set (servers (db s)) \<and>
      (\<forall>v \<in> set (vms (db s)). vm_server_id v = srv_id (rs_server rs) \<longrightarrow> vm_vmid v \<noteq> vmid)"
    using reserve_vm_run[OF r] unfolding reserved_def eqs conflicts_False
    by (auto simp: new_vm_def dest!: check_request_run)
  show ?thesis
    by (rule exI[of _ xs], rule exI[of _ ys], rule exI[of _ "fst (template_of (conf e) (q_os r))"],
        rule exI[of _ "clone_params rs"], rule exI[of _ j], rule exI[of _ "rs_server rs"])
      (use new d xs(1,3) j srv in \<open>simp add: eqs new_id_param clone_call_def\<close>)
qed

section \<open>Witnesses of create_vm\<close>

text \<open>
  A Proxmox, a gateway and a database that work. Every check of a gateway rule finds it installed, so
  no rule has to be added.
\<close>

definition working :: "call list \<Rightarrow> call \<Rightarrow> exn + json" where
  "working hist c = (case c of
       PveNodeStatus _ \<Rightarrow> Inr (JObj [(''memory'', JObj [(''total'', JInt 64000000000), (''used'', JInt 8000000000)]), (''cpu'', JInt 0)])
     | PveStorageList _ \<Rightarrow> Inr (JList [])
     | PveNextId None \<Rightarrow> Inr (JInt 105)
     | PveClone _ _ _ \<Rightarrow> Inr (JStr ''UPID'')
     | PveTaskStatus _ _ \<Rightarrow> Inr (JObj [(''status'', JStr ''stopped''), (''exitstatus'', JStr ''OK'')])
     | PveVmConfig _ _ \<Rightarrow> Inr (JObj [])
     | SshExec _ _ \<Rightarrow> Inr (JInt 0)
     | _ \<Rightarrow> Inr JNull)"

definition create_env :: env where
  "create_env = (sample_env working)
     \<lparr>conf := sample_settings\<lparr>VM_ROOT_PASSWORD := ''root-pw''\<rparr>,
      entropy := (\<lambda>n. if n = 0 then 0 else if n = 1 then 62 else 52)\<rparr>"

definition create_start :: "string option \<Rightarrow> sys" where
  "create_start account = sample_state (empty_database
     \<lparr>servers := [sample_server\<lparr>srv_ssh_user := account\<rparr>], vms := [sample_vm 1 (Some 9)], next_id := 10\<rparr>)"

definition sample_request :: vm_request where
  "sample_request = \<lparr>q_tier = BASIC, q_os = UBUNTU2204, q_node_name = Some ''node1'', q_name = Some ''web'',
     q_purpose = ''class'', q_cores = None, q_memory = None, q_disk = None\<rparr>"

definition sample_create :: "string option \<Rightarrow> (exn + vm_result) \<times> sys" where
  "sample_create account = create_vm create_env (sample_user 7 USER) sample_request (create_start account)"

lemma create_start_ok: "ids_ok (db (create_start a))" "refs_ok (db (create_start a))"
  by (simp_all add: ids_ok_def refs_ok_def create_start_def sample_defs)

lemma create_db_answers: "db_answers create_env"
  by (simp add: db_answers_def create_env_def sample_env_def working_def)

lemma create_env_simps [simp]:
  "answer create_env h c = working h c" "latency create_env h = 0"
  "conf create_env = sample_settings\<lparr>VM_ROOT_PASSWORD := ''root-pw''\<rparr>"
  by (simp_all add: create_env_def sample_env_def)

lemma working_simps [simp]:
  "working h (SshExec g c) = Inr (JInt 0)" "working h DbCommit = Inr JNull" "working h (SshConnect a b) = Inr JNull"
  "working h (SftpWrite a b d) = Inr JNull" "working h (SshRead g c) = Inr JNull"
  "working h (PveConfigPut n v ps) = Inr JNull" "working h (PveResizePut n v x y) = Inr JNull"
  "working h (PvePower n v act) = Inr JNull" "working h (PveClone n v ps) = Inr (JStr ''UPID'')"
  "working h (PveTaskStatus n j) = Inr (JObj [(''status'', JStr ''stopped''), (''exitstatus'', JStr ''OK'')])"
  "working h (PveVmConfig n v) = Inr (JObj [])"
  by (simp_all add: working_def)

lemma working_inspect:
  "\<forall>r \<in> set rs. plain_rule r \<Longrightarrow>
   wp (inspect_rules create_env h (map add_command_of rs)) (\<lambda>p _. p = Some []) (\<lambda>_ _. False) s"
proof (induction rs arbitrary: s)
  case (Cons r rs)
  then have r: "plain_rule r" by simp
  show ?case using Cons.IH Cons.prems
    by (simp add: wp_simps exec_status_def split_add_command[OF r])
qed (simp add: wp_simps)

lemma working_iptables:
  assumes "validate_ip ip = Inr ip" and "gateway_of srv = Some (h, a)"
    and "calculate_ports (srv_base_port srv) vmid = Inr ps"
    and "1 \<le> srv_base_port srv" "0 \<le> vmid"
  shows "wp (manage_iptables create_env srv vmid ip ''ADD'') (\<lambda>ok _. ok) (\<lambda>_ _. False) s"
proof -
  have g: "validate_ip ''1.2.3.4'' = Inr ''1.2.3.4''" by code_simp
  have pub: "GATEWAY_PUBLIC_IP (conf create_env) = ''1.2.3.4''" by (simp add: sample_settings_def)
  have ps: "ps = \<lparr>ssh_port = srv_base_port srv + vmid, svc1_port = srv_base_port srv + 1000 + vmid,
      svc2_port = srv_base_port srv + 2000 + vmid\<rparr>" "srv_base_port srv + 2000 + vmid \<le> 65535"
    using assms(3) by (auto simp: calculate_ports_Inr)
  obtain cs where cs: "mapping_commands ''ADD'' ''1.2.3.4'' ip (port_mapping ps) = Inr cs"
    using ps(2) assms(4,5) by (simp add: port_mapping_def ps(1) port_commands_ADD validate_port_def)
  obtain ds where ds: "mapping_commands ''DELETE'' ''1.2.3.4'' ip (port_mapping ps) = Inr ds" "length ds = length cs"
    using mapping_commands_DELETE[OF cs] by blast
  have cs': "cs = map add_command_of (vm_rules create_env ps ip)"
    unfolding vm_rules_def pub by (rule mapping_commands_ADD[OF cs])
  have plain: "\<forall>r \<in> set (vm_rules create_env ps ip). plain_rule r"
    by (rule vm_rules_plain[OF assms(1)]) (simp only: pub g)
  have run: "wp (run_iptables_commands create_env h cs (Some ds)) (\<lambda>ok _. ok) (\<lambda>_ _. False) t" for t
    unfolding run_iptables_commands_def
    using ds(2) vm_rules_nonempty[of create_env ps ip]
    by (auto simp: cs' wp_simps roll_back_def intro!: wp_mono[OF working_inspect[OF plain]])
  have "wp (with_gateway create_env h a cs (Some ds)) (\<lambda>ok _. ok) (\<lambda>_ _. False) s"
    unfolding with_gateway_def backup_iptables_def
    by (auto simp: wp_simps intro!: wp_mono[OF run])
  then show ?thesis
    by (simp add: manage_iptables_def wp_simps pub g assms(1,2,3) cs ds(1) del: create_env_simps(3))
qed

lemma working_wait: "wp (wait_for_clone create_env node vmid (JStr ''UPID'')) (\<lambda>_ _. True) (\<lambda>_ _. False) s"
  by (simp add: wait_for_clone_def Let_def wp_def seq_def now_def gets_def poll_task.simps poll_lock.simps
      CLONE_TIMEOUT_def second_def task_verdict_def json_is_def unlocked_def called_def)

lemma working_provision:
  assumes "validate_ip (opt_str (vm_internal_ip (rs_vm rs))) = Inr (opt_str (vm_internal_ip (rs_vm rs)))"
    and "gateway_of (rs_server rs) = Some (h, a)" and "ssh_account (rs_server rs) = Some acc"
    and "calculate_ports (srv_base_port (rs_server rs)) (vm_vmid (rs_vm rs)) = Inr ps"
    and "1 \<le> srv_base_port (rs_server rs)" and "0 \<le> vm_vmid (rs_vm rs)"
    and "constraints_ok (db s)"
  shows "\<exists>res s'. provision_vm create_env u r rs s = (Inr res, s')"
proof -
  note ipt = working_iptables[OF assms(1,2,4,5,6)]
  have root: "VM_ROOT_PASSWORD (conf create_env) \<noteq> []" by (simp add: sample_settings_def)
  have "wp (configure_clone create_env (q_tier r) rs (JStr ''UPID'')) (\<lambda>_ _. True) (\<lambda>_ _. False) t" for t
    unfolding configure_clone_def Let_def upload_snippet_def assms(3)
    by (simp add: wp_simps root del: create_env_simps(3))
      (auto intro!: wp_mono[OF working_wait] wp_mono[OF ipt] simp: wp_simps)
  then have conf: "wp (configure_clone create_env (q_tier r) rs (JStr ''UPID''))
      (\<lambda>_ t'. db t' = db t) (\<lambda>_ _. False) t" for t
    by (rule wp_mono[OF wp_conj[OF keeps_wp[OF keeps_clone_steps(2) refl]]]) auto
  have ok: "constraints_ok (mark_ready u v t d) = constraints_ok d" for v t d
    by (simp add: constraints_ok_def)
  have "wp (provision_vm create_env u r rs) (\<lambda>_ _. True) (\<lambda>_ _. False) s"
    unfolding provision_vm_def start_clone_def wp_seq wp_catch wp_ext
    by (auto intro!: wp_mono[OF conf] simp: boot_and_finish_def Let_def wp_simps ok assms(7) simp del: create_env_simps(3))
  then show ?thesis
    by (cases "provision_vm create_env u r rs s"; cases "fst (provision_vm create_env u r rs s)") (auto simp: wp_def)
qed

text \<open>The reservation of the witnesses, evaluated once.\<close>

definition sample_reserve :: "string option \<Rightarrow> (exn + reservation) \<times> sys" where
  "sample_reserve account = reserve_vm create_env (sample_user 7 USER) sample_request (create_start account)"

definition reserve_facts :: "string option \<Rightarrow> reservation \<Rightarrow> bool" where
  "reserve_facts account rs \<longleftrightarrow>
     srv_ssh_user (rs_server rs) = account \<and> srv_base_port (rs_server rs) = 21000 \<and>
     srv_gateway_ip (rs_server rs) = Some ''10.0.0.1'' \<and> srv_gateway_user (rs_server rs) = Some ''gw'' \<and>
     vm_vmid (rs_vm rs) = 105 \<and> vm_internal_ip (rs_vm rs) = Some ''10.0.0.101''"

lemma sample_reserve_ok:
  "case fst (sample_reserve (Some ''root'')) of Inr rs \<Rightarrow> reserve_facts (Some ''root'') rs | Inl _ \<Rightarrow> False"
  by code_simp

lemma sample_create_ok: "\<exists>res s'. create_vm create_env (sample_user 7 USER) sample_request (create_start (Some ''root'')) = (Inr res, s')"
proof -
  obtain rs s1 where r: "sample_reserve (Some ''root'') = (Inr rs, s1)" and f: "reserve_facts (Some ''root'') rs"
    using sample_reserve_ok by (cases "sample_reserve (Some ''root'')") (auto split: sum.splits)
  have c: "constraints_ok (db s1)"
    using reserve_vm_run[OF r[unfolded sample_reserve_def]] by (auto simp: reserved_def)
  have ip: "validate_ip ''10.0.0.101'' = Inr ''10.0.0.101''" by code_simp
  have "\<exists>res s'. provision_vm create_env (sample_user 7 USER) sample_request rs s1 = (Inr res, s')"
    by (rule working_provision[where h = "''10.0.0.1''" and a = "''gw''" and acc = "''root''"])
      (use f ip c in \<open>auto simp: reserve_facts_def opt_str_def gateway_of_def ssh_account_def calculate_ports_Inr\<close>)
  then show ?thesis using r by (simp add: create_vm_def seq_def sample_reserve_def)
qed


text \<open>Without an SSH account the snippet cannot be written, after the clone has been made.\<close>

lemma sample_create_fails:
  "fst (create_vm create_env (sample_user 7 USER) sample_request (create_start None)) = Inl (Http 500 ''create-failed'') \<and>
   PveVmDelete ''node1'' 105 True \<in> set (calls (snd (create_vm create_env (sample_user 7 USER) sample_request (create_start None))))"
proof -
  have "case create_vm create_env (sample_user 7 USER) sample_request (create_start None) of (r, s') \<Rightarrow>
      r = Inl (Http 500 ''create-failed'') \<and> PveVmDelete ''node1'' 105 True \<in> set (calls s')"
    by code_simp
  then show ?thesis by (simp only: case_prod_beta)
qed

lemma create_vm_failure_leaves_no_rows_witness:
  "vms (db (snd (create_vm create_env (sample_user 7 USER) sample_request (create_start None)))) = [sample_vm 1 (Some 9)]"
proof -
  let ?r = "create_vm create_env (sample_user 7 USER) sample_request (create_start None)"
  have run: "?r = (Inl (Http 500 ''create-failed''), snd ?r)" using sample_create_fails by (metis prod.collapse)
  have "vms (db (snd ?r)) = vms (db (create_start None))"
    using create_vm_failure_leaves_no_rows[OF create_start_ok create_db_answers run]
    by (metis database.select_convs(3) database.surjective database.update_convs(10))
  then show ?thesis by (simp add: create_start_def sample_state_def)
qed

lemma create_vm_deletes_only_its_clone_witness:
  "\<exists>tmpl params. PveClone ''node1'' tmpl params
       \<in> set (calls (snd (create_vm create_env (sample_user 7 USER) sample_request (create_start None)))) \<and>
     map_of params ''newid'' = Some (JInt 105)"
proof -
  let ?r = "create_vm create_env (sample_user 7 USER) sample_request (create_start None)"
  have run: "?r = (fst ?r, snd ?r)" by simp
  have "calls (snd ?r) = calls (create_start None) @ calls (snd ?r)"
    by (simp add: create_start_def sample_state_def)
  from create_vm_deletes_only_its_clone[OF run this conjunct2[OF sample_create_fails]]
  obtain pre post tmpl params where "calls (snd ?r) = pre @ PveClone ''node1'' tmpl params # post"
    "map_of params ''newid'' = Some (JInt 105)" by blast
  then show ?thesis by (intro exI[of _ tmpl] exI[of _ params]) simp
qed

end
