(* ===== verification/DeleteVm.thy ===== *)
theory DeleteVm
  imports CreateVm
begin

text \<open>
  Deleting a VM (\<open>services/vm_service.py\<close>, \<open>delete_vm\<close>): stop it, delete it on the node, take its
  forwarding rules and its Caddy routes away, drop its rows and notify the owner.
\<close>

section \<open>delete_vm\<close>

definition protocols_of :: "string \<Rightarrow> string list" where
  "protocols_of p = (if p = ''tcp/udp'' then [''tcp'', ''udp''] else [p])"

definition stop_if_running :: "env \<Rightarrow> string \<Rightarrow> int \<Rightarrow> (sys, unit) prog" where
  "stop_if_running e node vmid =
     catch
       (seq (ext e (PveVmStatus node vmid)) (\<lambda>j.
        seq (lift (obj_get j ''status'' JNull)) (\<lambda>st.
        if json_is st ''running''
        then seq (ext e (PvePower node vmid STOP)) (\<lambda>_. sleep (3 * second))
        else ret ())))
       (\<lambda>_. ret ())"

definition remove_port_rules :: "env \<Rightarrow> server \<Rightarrow> string \<Rightarrow> vm_port \<Rightarrow> (sys, unit) prog" where
  "remove_port_rules e srv ip p =
     for_each (protocols_of (p_protocol p)) (\<lambda>proto.
       seq (manage_custom_iptables e srv ip (p_internal_port p) (p_external_port p) proto ''DELETE'' (p_source p))
         (\<lambda>_. ret ()))"

definition ports_of :: "database \<Rightarrow> vm \<Rightarrow> vm_port list" where
  "ports_of d v = filter (\<lambda>p. p_vm_id p = vm_id v) (vm_ports d)"

definition delete_vm_rows :: "vm \<Rightarrow> int \<Rightarrow> database \<Rightarrow> database" where
  "delete_vm_rows v t d =
     (case vm_owner_id v of
        None \<Rightarrow> drop_vm v d
      | Some i \<Rightarrow> if i = 0 then drop_vm v d
                 else add_notification i ''success'' (''vm-deleted '' @ vm_name v) t (drop_vm v d))"

text \<open>The rules of the stored ports; without default ports among them, the computed default rules too.\<close>

definition remove_rules :: "env \<Rightarrow> server \<Rightarrow> vm \<Rightarrow> database \<Rightarrow> (sys, unit) prog" where
  "remove_rules e srv v d =
     (if opt_truthy (vm_internal_ip v)
      then seq (for_each (ports_of d v) (remove_port_rules e srv (opt_str (vm_internal_ip v)))) (\<lambda>_.
           if \<not> list_ex p_is_default (ports_of d v)
           then seq (manage_iptables e srv (vm_vmid v) (opt_str (vm_internal_ip v)) ''DELETE'') (\<lambda>_. ret ())
           else ret ())
      else ret ())"

definition remove_routes :: "env \<Rightarrow> vm \<Rightarrow> database \<Rightarrow> (sys, unit) prog" where
  "remove_routes e v d =
     for_each (filter (\<lambda>r. r_vm_id r = vm_id v) (https_routes d))
       (\<lambda>r. seq (delete_route e (r_subdomain r)) (\<lambda>_. ret ()))"

definition delete_vm :: "env \<Rightarrow> vm \<Rightarrow> bool \<Rightarrow> (sys, unit) prog" where
  "delete_vm e v purge =
     seq (gets db) (\<lambda>d0.
     case find (\<lambda>r. srv_id r = vm_server_id v) (servers d0) of
       None \<Rightarrow> raise AttributeError
     | Some srv \<Rightarrow>
         seq (get_proxmox_for_server e srv) (\<lambda>_.
         catch
           (seq (stop_if_running e (srv_name srv) (vm_vmid v)) (\<lambda>_.
            seq (ext e (PveVmDelete (srv_name srv) (vm_vmid v) purge)) (\<lambda>_.
            seq (gets db) (\<lambda>d.
            seq (remove_rules e srv v d) (\<lambda>_.
            seq (remove_routes e v d) (\<lambda>_.
            seq now (\<lambda>t.
            seq (gets db) (\<lambda>d'.
            commit e (delete_vm_rows v t d')))))))))
           (\<lambda>_. raise (Http 500 ''delete-failed''))))"

section \<open>Properties of delete_vm\<close>

lemma keeps_delete_parts [keeps_intros]:
  "keeps db (stop_if_running e n vmid)" "keeps db (remove_port_rules e srv ip p)"
  "keeps db (remove_rules e srv v d)" "keeps db (remove_routes e v d)"
  unfolding stop_if_running_def remove_port_rules_def remove_rules_def remove_routes_def
  by (intro keeps_intros)+

lemma undoes_delete_vm [undoes_intros]: "undoes (delete_vm e v purge)"
  unfolding delete_vm_def by (intro undoes_intros keeps_intros)

lemma delete_vm_run:
  "wp (delete_vm e v purge)
     (\<lambda>_ s'. \<exists>srv t h j. find (\<lambda>r. srv_id r = vm_server_id v) (servers (db s)) = Some srv \<and>
        db s' = delete_vm_rows v t (db s) \<and> answer e h (PveVmDelete (srv_name srv) (vm_vmid v) purge) = Inr j)
     (\<lambda>_ s'. True) s"
proof (cases "find (\<lambda>r. srv_id r = vm_server_id v) (servers (db s))")
  case None
  then show ?thesis by (simp add: delete_vm_def wp_simps)
next
  case (Some srv)
  let ?Q = "\<lambda>_ s'. \<exists>srv t h j. find (\<lambda>r. srv_id r = vm_server_id v) (servers (db s)) = Some srv \<and>
        db s' = delete_vm_rows v t (db s) \<and> answer e h (PveVmDelete (srv_name srv) (vm_vmid v) purge) = Inr j"
  have tail: "wp (seq (remove_rules e srv v d) (\<lambda>_. seq (remove_routes e v d) (\<lambda>_. seq now (\<lambda>t.
      seq (gets db) (\<lambda>d'. commit e (delete_vm_rows v t d')))))) ?Q (\<lambda>_ _. True) t"
    if "db t = db s" and "answer e h (PveVmDelete (srv_name srv) (vm_vmid v) purge) = Inr j" for d t h j
  proof (rule wp_keeps_step[OF keeps_delete_parts(3)], rule wp_keeps_step[OF keeps_delete_parts(4)])
    fix t1 t2 :: sys assume "db t1 = db t" "db t2 = db t1"
    then have "db t2 = db s" using that(1) by simp
    then show "wp (seq now (\<lambda>t. seq (gets db) (\<lambda>d'. commit e (delete_vm_rows v t d')))) ?Q (\<lambda>_ _. True) t2"
      using Some that(2) by (auto simp: wp_simps)
  qed simp_all
  have body: "wp (seq (stop_if_running e (srv_name srv) (vm_vmid v)) (\<lambda>_.
            seq (ext e (PveVmDelete (srv_name srv) (vm_vmid v) purge)) (\<lambda>_.
            seq (gets db) (\<lambda>d.
            seq (remove_rules e srv v d) (\<lambda>_.
            seq (remove_routes e v d) (\<lambda>_.
            seq now (\<lambda>t.
            seq (gets db) (\<lambda>d'.
            commit e (delete_vm_rows v t d')))))))))  ?Q (\<lambda>_ _. True) t" if t: "db t = db s" for t
  proof (rule wp_keeps_step[OF keeps_delete_parts(1)])
    fix t1 :: sys assume "db t1 = db t"
    then have "db t1 = db s" using t by simp
    then show "wp (seq (ext e (PveVmDelete (srv_name srv) (vm_vmid v) purge)) (\<lambda>_.
            seq (gets db) (\<lambda>d.
            seq (remove_rules e srv v d) (\<lambda>_.
            seq (remove_routes e v d) (\<lambda>_.
            seq now (\<lambda>t.
            seq (gets db) (\<lambda>d'.
            commit e (delete_vm_rows v t d')))))))) ?Q (\<lambda>_ _. True) t1"
      using tail by (auto simp: wp_seq[of "ext _ _"] wp_ext wp_seq[of "gets _"] wp_gets)
  qed simp
  have "wp (seq (get_proxmox_for_server e srv) (\<lambda>_.
         catch
           (seq (stop_if_running e (srv_name srv) (vm_vmid v)) (\<lambda>_.
            seq (ext e (PveVmDelete (srv_name srv) (vm_vmid v) purge)) (\<lambda>_.
            seq (gets db) (\<lambda>d.
            seq (remove_rules e srv v d) (\<lambda>_.
            seq (remove_routes e v d) (\<lambda>_.
            seq now (\<lambda>t.
            seq (gets db) (\<lambda>d'.
            commit e (delete_vm_rows v t d')))))))))
           (\<lambda>_. raise (Http 500 ''delete-failed'')))) ?Q (\<lambda>_ _. True) s"
    by (rule wp_keeps_step[OF keeps_get_proxmox]; (simp only: wp_catch)?; (rule wp_mono[OF body])?)
      (auto simp: wp_raise)
  then show ?thesis using Some unfolding delete_vm_def by (simp add: wp_seq[of "gets _"] wp_gets)
qed

text \<open>
  C8. Deleting a VM deletes it everywhere or nowhere in the database. When \<open>delete_vm\<close> returns, Proxmox has
  accepted the deletion, the VM, all its ports and all its HTTPS routes are gone, every other VM, port and
  route is still there, and nothing was added but one notification to the owner. When it raises, the
  tables are what they were.
\<close>

theorem delete_vm_all_or_nothing:
  assumes "delete_vm e v purge s = (r, s')"
  shows "case r of
      Inl _ \<Rightarrow> db s' = db s
    | Inr _ \<Rightarrow>
        (\<exists>srv h j. srv \<in> set (servers (db s)) \<and> srv_id srv = vm_server_id v \<and>
           answer e h (PveVmDelete (srv_name srv) (vm_vmid v) purge) = Inr j) \<and>
        set (vms (db s')) = {x \<in> set (vms (db s)). vm_id x \<noteq> vm_id v} \<and>
        set (vm_ports (db s')) = {p \<in> set (vm_ports (db s)). p_vm_id p \<noteq> vm_id v} \<and>
        set (https_routes (db s')) = {x \<in> set (https_routes (db s)). r_vm_id x \<noteq> vm_id v} \<and>
        users (db s') = users (db s) \<and> servers (db s') = servers (db s) \<and> jobs (db s') = jobs (db s) \<and>
        (notifications (db s') = notifications (db s) \<or>
         (\<exists>n. notifications (db s') = notifications (db s) @ [n] \<and> vm_owner_id v = Some (n_user_id n)))"
proof (cases r)
  case (Inl x)
  then show ?thesis using undoesD[OF undoes_delete_vm] assms by auto
next
  case (Inr u)
  from wp_result[OF delete_vm_run assms[unfolded Inr]] obtain srv t h j where
    srv: "find (\<lambda>r. srv_id r = vm_server_id v) (servers (db s)) = Some srv"
    and d: "db s' = delete_vm_rows v t (db s)"
    and a: "answer e h (PveVmDelete (srv_name srv) (vm_vmid v) purge) = Inr j" by blast
  have "srv \<in> set (servers (db s)) \<and> srv_id srv = vm_server_id v" using find_Some_iff_mem[OF srv] by simp
  then show ?thesis using a
    by (auto simp: Inr d delete_vm_rows_def drop_vm_def add_notification_def split: option.splits)
qed

definition stored_routes :: database where
  "stored_routes = empty_database
     \<lparr>servers := [sample_server],
      vms := [sample_vm 1 (Some 7)\<lparr>vm_internal_ip := None\<rparr>, sample_vm 2 (Some 8)],
      https_routes := [\<lparr>r_id = 3, r_vm_id = 1, r_subdomain = ''app'', r_internal_port = 80, r_caddy_synced = True\<rparr>]\<rparr>"

lemma delete_vm_all_or_nothing_witness:
  "let r = delete_vm create_env (sample_vm 1 (Some 7)\<lparr>vm_internal_ip := None\<rparr>) False (sample_state stored_routes)
   in fst r = Inr () \<and> set (vms (db (snd r))) = {sample_vm 2 (Some 8)} \<and> https_routes (db (snd r)) = []"
proof -
  let ?v = "sample_vm 1 (Some 7)\<lparr>vm_internal_ip := None\<rparr>"
  let ?r = "delete_vm create_env ?v False (sample_state stored_routes)"
  have ok: "case ?r of (r, s') \<Rightarrow> r = Inr ()" by code_simp
  then have run: "?r = (Inr (), snd ?r)" by (auto split: prod.splits)
  have d: "vms (db (sample_state stored_routes)) = [?v, sample_vm 2 (Some 8)]"
    "\<And>x. x \<in> set (https_routes (db (sample_state stored_routes))) \<Longrightarrow> r_vm_id x = 1"
    and v: "vm_id ?v = 1" "vm_id (sample_vm 2 (Some 8)) = 2"
    by (simp_all add: stored_routes_def sample_state_def sample_vm_def)
  from delete_vm_all_or_nothing[OF run]
  have "set (vms (db (snd ?r))) = {x \<in> set (vms (db (sample_state stored_routes))). vm_id x \<noteq> vm_id ?v}"
    "set (https_routes (db (snd ?r))) = {x \<in> set (https_routes (db (sample_state stored_routes))). r_vm_id x \<noteq> vm_id ?v}"
    by simp_all
  then have "set (vms (db (snd ?r))) = {sample_vm 2 (Some 8)}" "set (https_routes (db (snd ?r))) = {}"
    using d(2) unfolding d(1) v by (auto simp: v)
  then have "set (vms (db (snd ?r))) = {sample_vm 2 (Some 8)}" "https_routes (db (snd ?r)) = []" by simp_all
  then show ?thesis using run unfolding Let_def by (metis fst_conv)
qed

end
