(* ===== verification/JobQueue.thy ===== *)
theory JobQueue
  imports CreateVm
begin

text \<open>
  The queue of VM creations (\<open>services/vm_creation_queue.py\<close>): a table of jobs in the database, a FIFO of
  job ids in the memory of the process, and one worker thread that takes an id, claims its job by a
  conditional update and runs \<open>create_vm\<close>. The interleavings of the handlers, the worker and the crashes
  of the process are in \<open>QueueMachine\<close>, over the same row functions.
\<close>

section \<open>The process\<close>

text \<open>
  \<open>world\<close> is the database and the outside; \<open>fifo\<close> is \<open>_vm_creation_queue\<close>, where \<open>None\<close> is the stop sentinel;
  \<open>counter\<close> and \<open>pid\<close> make job ids unique; \<open>stop_event\<close> and \<open>alive\<close> are the state of the worker thread.
\<close>

record proc =
  world :: sys
  fifo :: "string option list"
  counter :: nat
  pid :: nat
  stop_event :: bool
  alive :: bool

definition at_world :: "(sys, 'a) prog \<Rightarrow> (proc, 'a) prog" where
  "at_world m = (\<lambda>p. case m (world p) of (r, s') \<Rightarrow> (r, p\<lparr>world := s'\<rparr>))"

definition put :: "string option \<Rightarrow> (proc, unit) prog" where
  "put x = modify (\<lambda>p. p\<lparr>fifo := fifo p @ [x]\<rparr>)"

section \<open>Ids, answers and positions\<close>

definition zero_pad :: "nat \<Rightarrow> string \<Rightarrow> string" where
  "zero_pad n s = replicate (n - length s) (CHR ''0'') @ s"

definition job_id_text :: "int \<Rightarrow> nat \<Rightarrow> nat \<Rightarrow> string" where
  "job_id_text time_ns process n =
     zero_pad 19 (show_int time_ns) @ ''-'' @ zero_pad 5 (show_nat process) @ ''-'' @ zero_pad 6 (show_nat n)"

definition next_job_id :: "(proc, string) prog" where
  "next_job_id = (\<lambda>p.
     (Inr (job_id_text (clk (world p) * 1000) (pid p) (counter p)), p\<lparr>counter := counter p + 1\<rparr>))"

record job_response =
  jr_job_id :: string
  jr_status :: job_status
  jr_position :: "int option"
  jr_requested_at :: int
  jr_started_at :: "int option"
  jr_finished_at :: "int option"
  jr_vmid :: "int option"
  jr_node_name :: "string option"
  jr_message :: "string option"
  jr_error_message :: "string option"
  jr_result :: "vm_result option"

definition serialize_job :: "vm_job \<Rightarrow> int option \<Rightarrow> job_response" where
  "serialize_job j position =
     \<lparr>jr_job_id = j_id j, jr_status = j_status j, jr_position = position, jr_requested_at = j_queued_at j,
      jr_started_at = j_started_at j, jr_finished_at = j_finished_at j, jr_vmid = j_vmid j,
      jr_node_name = j_node_name j, jr_message = j_message j, jr_error_message = j_error_message j,
      jr_result = j_result j\<rparr>"

definition not_after :: "vm_job \<Rightarrow> vm_job \<Rightarrow> bool" where
  "not_after job x \<longleftrightarrow> j_status x = QUEUED \<and>
     (j_queued_at x < j_queued_at job \<or> (j_queued_at x = j_queued_at job \<and> j_id x \<le> j_id job))"

definition get_queue_position :: "database \<Rightarrow> vm_job \<Rightarrow> int option" where
  "get_queue_position d job =
     (if j_status job \<noteq> QUEUED then None else Some (count_rows (not_after job) (jobs d)))"

section \<open>Rows\<close>

definition pending :: "vm_job \<Rightarrow> bool" where
  "pending j \<longleftrightarrow> j_status j \<in> {QUEUED, RUNNING}"

definition job_key_of :: "vm_job \<Rightarrow> job_key" where
  "job_key_of j = Job_Key (j_queued_at j) (j_id j)"

definition pending_jobs :: "database \<Rightarrow> vm_job list" where
  "pending_jobs d = sort_key job_key_of (filter pending (jobs d))"

definition requeue_row :: "vm_job \<Rightarrow> vm_job" where
  "requeue_row j =
     (if j_status j = RUNNING
      then j\<lparr>j_status := QUEUED, j_started_at := None, j_attempts := j_attempts j + 1\<rparr> else j)"

definition requeue_rows :: "database \<Rightarrow> database" where
  "requeue_rows d = d\<lparr>jobs := update_rows pending requeue_row (jobs d)\<rparr>"

definition claimable :: "string \<Rightarrow> vm_job \<Rightarrow> bool" where
  "claimable i j \<longleftrightarrow> j_id j = i \<and> j_status j = QUEUED"

definition claim_row :: "int \<Rightarrow> vm_job \<Rightarrow> vm_job" where
  "claim_row t j = j\<lparr>j_status := RUNNING, j_started_at := Some t, j_attempts := j_attempts j + 1\<rparr>"

definition claim_rows :: "string \<Rightarrow> int \<Rightarrow> database \<Rightarrow> database" where
  "claim_rows i t d = d\<lparr>jobs := update_rows (claimable i) (claim_row t) (jobs d)\<rparr>"

definition set_job :: "string \<Rightarrow> (vm_job \<Rightarrow> vm_job) \<Rightarrow> database \<Rightarrow> database" where
  "set_job i f d = d\<lparr>jobs := update_rows (\<lambda>j. j_id j = i) f (jobs d)\<rparr>"

definition duplicate_row :: "int \<Rightarrow> vm_job \<Rightarrow> vm_job" where
  "duplicate_row t j = j\<lparr>j_status := COMPLETED, j_finished_at := Some t\<rparr>"

definition complete_row :: "int \<Rightarrow> vm_result \<Rightarrow> vm_job \<Rightarrow> vm_job" where
  "complete_row t res j = j
     \<lparr>j_status := COMPLETED, j_finished_at := Some t, j_vmid := Some (v_vmid res),
      j_node_name := (if v_assigned_node res = [] then j_node_name j else Some (v_assigned_node res)),
      j_message := Some (v_message res), j_result := Some res, j_error_message := None\<rparr>"

definition error_text :: "exn \<Rightarrow> string" where
  "error_text x = (case x of Http _ detail \<Rightarrow> detail | _ \<Rightarrow> ''create-failed-retry'')"

definition fail_row :: "int \<Rightarrow> exn \<Rightarrow> vm_job \<Rightarrow> vm_job" where
  "fail_row t x j = j
     \<lparr>j_status := FAILED, j_finished_at := Some t, j_error_message := Some (error_text x),
      j_message := Some ''create-failed''\<rparr>"

definition find_job :: "database \<Rightarrow> string \<Rightarrow> vm_job option" where
  "find_job d i = find (\<lambda>j. j_id j = i) (jobs d)"

section \<open>Requests\<close>

definition active_jobs :: "database \<Rightarrow> int \<Rightarrow> int" where
  "active_jobs d uid = count_rows (\<lambda>j. j_user_id j = uid \<and> pending j) (jobs d)"

definition validate_vm_creation_request :: "settings \<Rightarrow> database \<Rightarrow> user \<Rightarrow> vm_request \<Rightarrow> exn + server" where
  "validate_vm_creation_request c d u r =
     (if \<not> opt_truthy (q_node_name r) then Inl (Http 400 ''no-node'')
      else if u_role u = USER \<and> q_node_name r = Some (PROJECT_NODE_NAME c) then Inl (Http 403 ''project-node'')
      else if q_tier r = PROJECT_CUSTOM \<and> u_role u \<notin> {ADMIN, PROJECT_OWNER} then Inl (Http 403 ''project-tier'')
      else if u_role u = USER \<and> MAX_VMS_PER_USER c \<le> vms_of d (u_id u) + active_jobs d (u_id u)
      then Inl (Http 409 ''vm-limit'')
      else case find_active_node d (opt_str (q_node_name r)) of
          None \<Rightarrow> Inl (Http 404 ''node-not-found'')
        | Some srv \<Rightarrow> Inr srv)"

definition new_job :: "string \<Rightarrow> user \<Rightarrow> vm_request \<Rightarrow> int \<Rightarrow> vm_job" where
  "new_job i u r t =
     \<lparr>j_id = i, j_user_id = u_id u, j_status = QUEUED, j_node_name = q_node_name r,
      j_requested_name = q_name r, j_payload = r, j_queued_at = t, j_started_at = None,
      j_finished_at = None, j_vmid = None, j_attempts = 0, j_result = None, j_message = None,
      j_error_message = None\<rparr>"

definition enqueue_vm_creation :: "env \<Rightarrow> user \<Rightarrow> vm_request \<Rightarrow> (proc, job_response) prog" where
  "enqueue_vm_creation e u r =
     seq (gets (\<lambda>p. db (world p))) (\<lambda>d0.
     seq (lift (validate_vm_creation_request (conf e) d0 u r)) (\<lambda>_.
     seq next_job_id (\<lambda>i.
     seq (at_world now) (\<lambda>t.
     seq (gets (\<lambda>p. db (world p))) (\<lambda>d.
     let job = new_job i u r t in
     seq (at_world (commit e (d\<lparr>jobs := jobs d @ [job]\<rparr>))) (\<lambda>_.
     seq (put (Some i)) (\<lambda>_.
     seq (gets (\<lambda>p. db (world p))) (\<lambda>d'.
     ret (serialize_job job (get_queue_position d' job))))))))))"

definition get_vm_creation_job :: "string \<Rightarrow> user \<Rightarrow> (proc, job_response) prog" where
  "get_vm_creation_job i u =
     seq (gets (\<lambda>p. db (world p))) (\<lambda>d.
     case find_job d i of
       None \<Rightarrow> raise (Http 404 ''job-not-found'')
     | Some job \<Rightarrow>
         if u_role u \<noteq> ADMIN \<and> j_user_id job \<noteq> u_id u then raise (Http 404 ''job-not-found'')
         else ret (serialize_job job (get_queue_position d job)))"

section \<open>The worker\<close>

text \<open>The conditional update: False when no row was queued under the id any more.\<close>

definition claim_job :: "env \<Rightarrow> string \<Rightarrow> (sys, bool) prog" where
  "claim_job e i =
     seq now (\<lambda>t.
     seq (gets db) (\<lambda>d.
     if count_rows (claimable i) (jobs d) = 0 then ret False
     else seq (commit e (claim_rows i t d)) (\<lambda>_. ret True)))"

text \<open>A changed row is written at the commit; a row deleted meanwhile makes the flush fail.\<close>

definition save_job :: "env \<Rightarrow> string \<Rightarrow> (vm_job \<Rightarrow> vm_job) \<Rightarrow> (sys, unit) prog" where
  "save_job e i f =
     seq (gets db) (\<lambda>d.
     if find_job d i = None then raise DatabaseError else commit e (set_job i f d))"

definition run_claimed :: "env \<Rightarrow> string \<Rightarrow> (sys, unit) prog" where
  "run_claimed e i =
     seq (gets db) (\<lambda>d.
     case find_job d i of
       None \<Rightarrow> ret ()
     | Some job \<Rightarrow>
         if j_vmid job \<noteq> None then seq now (\<lambda>t. save_job e i (duplicate_row t))
         else (case find (\<lambda>u. u_id u = j_user_id job) (users d) of
             None \<Rightarrow> raise (RuntimeError ''no-user'')
           | Some u \<Rightarrow>
               seq (create_vm e u (j_payload job)) (\<lambda>res.
               seq now (\<lambda>t. save_job e i (complete_row t res)))))"

definition record_failure :: "env \<Rightarrow> string \<Rightarrow> exn \<Rightarrow> (sys, unit) prog" where
  "record_failure e i x =
     catch
       (seq (gets db) (\<lambda>d.
        if find_job d i = None then ret ()
        else seq now (\<lambda>t. save_job e i (fail_row t x))))
       (\<lambda>_. ret ())"

definition process_vm_creation_job :: "env \<Rightarrow> string \<Rightarrow> (sys, unit) prog" where
  "process_vm_creation_job e i =
     catch
       (seq (claim_job e i) (\<lambda>claimed. if \<not> claimed then ret () else run_claimed e i))
       (record_failure e i)"

text \<open>One turn of \<open>_worker_loop\<close>, and the loop for at most \<open>n\<close> turns.\<close>

definition worker_turn :: "env \<Rightarrow> proc \<Rightarrow> proc" where
  "worker_turn e p =
     (if stop_event p then p\<lparr>alive := False\<rparr>
      else case fifo p of
          [] \<Rightarrow> p\<lparr>world := (world p)\<lparr>clk := clk (world p) + second\<rparr>\<rparr>
        | None # q \<Rightarrow> p\<lparr>fifo := q, alive := False\<rparr>
        | Some i # q \<Rightarrow> p\<lparr>fifo := q, world := snd (process_vm_creation_job e i (world p))\<rparr>)"

fun worker_loop :: "env \<Rightarrow> nat \<Rightarrow> proc \<Rightarrow> proc" where
  "worker_loop e 0 p = p"
| "worker_loop e (Suc n) p = (if alive p then worker_loop e n (worker_turn e p) else p)"

text \<open>Recovery at start: the ids go into the FIFO in the order of the jobs before the rows are committed.\<close>

definition recover_pending_jobs :: "env \<Rightarrow> (proc, vm_job list) prog" where
  "recover_pending_jobs e =
     seq (gets (\<lambda>p. db (world p))) (\<lambda>d.
     seq (for_each (pending_jobs d) (\<lambda>j. put (Some (j_id j)))) (\<lambda>_.
     seq (if pending_jobs d \<noteq> [] then at_world (commit e (requeue_rows d)) else ret ()) (\<lambda>_.
     ret (pending_jobs d))))"

definition start_vm_creation_worker :: "env \<Rightarrow> (proc, unit) prog" where
  "start_vm_creation_worker e =
     seq (gets alive) (\<lambda>a.
     if a then ret ()
     else seq (modify (\<lambda>p. p\<lparr>stop_event := False\<rparr>)) (\<lambda>_.
          seq (catch (seq (recover_pending_jobs e) (\<lambda>_. ret ())) (\<lambda>_. ret ())) (\<lambda>_.
          modify (\<lambda>p. p\<lparr>alive := True\<rparr>))))"

text \<open>\<open>joined\<close>: the thread ended within the five seconds that \<open>join\<close> waits.\<close>

definition stop_vm_creation_worker :: "bool \<Rightarrow> (proc, unit) prog" where
  "stop_vm_creation_worker joined =
     seq (gets alive) (\<lambda>a.
     if \<not> a then ret ()
     else seq (modify (\<lambda>p. p\<lparr>stop_event := True\<rparr>)) (\<lambda>_.
          seq (put None) (\<lambda>_.
          if joined then modify (\<lambda>p. p\<lparr>alive := False\<rparr>) else ret ())))"


section \<open>Positions\<close>

lemma rank_in_sorted:
  fixes k :: "'a \<Rightarrow> 'b :: linorder"
  assumes "sorted_wrt (<) (map k q)" and "n < length q"
  shows "length (filter (\<lambda>x. k x \<le> k (q ! n)) q) = Suc n"
proof -
  have less: "k (q ! i) < k (q ! j)" if "i < j" "j < length q" for i j
    using sorted_wrt_nth_less[OF assms(1), of i j] that by simp
  have "i < length q \<and> k (q ! i) \<le> k (q ! n) \<longleftrightarrow> i \<le> n" for i
    using less[of n i] less[of i n] assms(2) by (cases i n rule: linorder_cases) auto
  then have "{i. i < length q \<and> k (q ! i) \<le> k (q ! n)} = {..n}" by auto
  then show ?thesis by (simp add: length_filter_conv_card)
qed

lemma not_after_key: "not_after job x \<longleftrightarrow> j_status x = QUEUED \<and> job_key_of x \<le> job_key_of job"
  by (simp add: not_after_def job_key_of_def less_eq_job_key_def)

definition queued_in_order :: "database \<Rightarrow> vm_job list" where
  "queued_in_order d = sort_key job_key_of (filter (\<lambda>j. j_status j = QUEUED) (jobs d))"

lemma distinct_keys:
  assumes "distinct (map j_id js)"
  shows "distinct (map job_key_of js)"
proof -
  have "map j_id js = map key_id (map job_key_of js)" by (simp add: job_key_of_def)
  with assms have "distinct (map key_id (map job_key_of js))" by simp
  then show ?thesis unfolding distinct_map by (rule conjunct1)
qed

lemma queued_in_order_strict:
  assumes "distinct (map j_id (jobs d))"
  shows "sorted_wrt (<) (map job_key_of (queued_in_order d))"
proof -
  have "distinct (map job_key_of (filter (\<lambda>j. j_status j = QUEUED) (jobs d)))"
    using distinct_keys[OF assms] by (rule distinct_map_filter)
  then have "distinct (map job_key_of (queued_in_order d))"
    by (simp add: queued_in_order_def distinct_map)
  then show ?thesis by (simp add: queued_in_order_def strict_sorted_iff)
qed

text \<open>
  C40. The position shown to a user is the place in the queue: the waiting jobs in the order in which they
  are served, by time and then by id, have the positions 1, 2, 3, ...; a job that does not wait has none.
\<close>

theorem queue_positions_are_ranks:
  assumes "distinct (map j_id (jobs d))"
  shows "map (get_queue_position d) (queued_in_order d) =
      map (\<lambda>n. Some (int n + 1)) [0..<length (queued_in_order d)] \<and>
    (\<forall>j. j_status j \<noteq> QUEUED \<longrightarrow> get_queue_position d j = None)"
proof -
  let ?q = "queued_in_order d"
  have m: "mset ?q = mset (filter (\<lambda>j. j_status j = QUEUED) (jobs d))" by (simp add: queued_in_order_def)
  have "get_queue_position d (?q ! n) = Some (int n + 1)" if n: "n < length ?q" for n
  proof -
    have "?q ! n \<in> set ?q" using n by simp
    then have st: "j_status (?q ! n) = QUEUED" by (simp add: queued_in_order_def)
    have "filter (not_after (?q ! n)) (jobs d) =
        filter (\<lambda>x. job_key_of x \<le> job_key_of (?q ! n)) (filter (\<lambda>j. j_status j = QUEUED) (jobs d))"
      by (simp add: not_after_key cong: filter_cong)
    then have "mset (filter (not_after (?q ! n)) (jobs d)) = mset (filter (\<lambda>x. job_key_of x \<le> job_key_of (?q ! n)) ?q)"
      by (simp only: mset_filter[of _ ?q] m mset_filter[of _ "filter (\<lambda>j. j_status j = QUEUED) (jobs d)"])
    then have "length (filter (not_after (?q ! n)) (jobs d)) = Suc n"
      using rank_in_sorted[OF queued_in_order_strict[OF assms] n] by (metis size_mset)
    then show ?thesis by (simp add: get_queue_position_def count_rows_def st)
  qed
  then have "map (get_queue_position d) ?q = map (\<lambda>n. Some (int n + 1)) [0..<length ?q]"
    by (intro nth_equalityI) simp_all
  then show ?thesis by (simp add: get_queue_position_def)
qed


text \<open>Two waiting jobs and a finished one.\<close>

definition sample_job :: "string \<Rightarrow> job_status \<Rightarrow> int \<Rightarrow> vm_job" where
  "sample_job i st t = (new_job i (sample_user 7 USER) sample_request t)\<lparr>j_status := st\<rparr>"

definition sample_queue :: database where
  "sample_queue = empty_database
     \<lparr>jobs := [sample_job ''c'' QUEUED 5, sample_job ''a'' COMPLETED 1, sample_job ''b'' QUEUED 5]\<rparr>"

lemma sample_queue_order: "queued_in_order sample_queue = [sample_job ''b'' QUEUED 5, sample_job ''c'' QUEUED 5]"
  by code_simp

lemma queue_positions_are_ranks_witness:
  "get_queue_position sample_queue (sample_job ''b'' QUEUED 5) = Some 1 \<and>
   get_queue_position sample_queue (sample_job ''c'' QUEUED 5) = Some 2"
proof -
  have "distinct (map j_id (jobs sample_queue))" by code_simp
  from queue_positions_are_ranks[OF this] show ?thesis
    unfolding sample_queue_order by (simp add: upt_rec)
qed

section \<open>Requests\<close>

lemma validate_request_Inr:
  assumes "validate_vm_creation_request c d u r = Inr srv"
  shows "(u_role u = USER \<longrightarrow> vms_of d (u_id u) + active_jobs d (u_id u) < MAX_VMS_PER_USER c \<and>
        q_node_name r \<noteq> Some (PROJECT_NODE_NAME c)) \<and>
    (q_tier r = PROJECT_CUSTOM \<longrightarrow> u_role u \<noteq> USER) \<and>
    srv \<in> set (servers d) \<and> srv_is_active srv \<and> q_node_name r = Some (srv_name srv)"
  using assms
  by (cases "q_node_name r"; cases "u_role u")
    (auto simp: validate_vm_creation_request_def opt_truthy_def opt_str_def find_active_node_def
      split: if_splits option.splits dest!: find_Some_iff_mem)

text \<open>
  C13. A request is accepted into the queue only within the quota. When \<open>enqueue_vm_creation\<close> answers, one
  job has been added at the end of the table and its id at the end of the FIFO: it waits, belongs to
  the caller, carries the request, names an active node, and for a plain user the VMs and unfinished jobs,
  the new one included, are within the limit and the node is not the project node. When it raises,
  neither the database nor the FIFO has changed.
\<close>

theorem enqueue_within_quota:
  assumes "enqueue_vm_creation e u r p = (res, p')"
  shows "case res of
      Inl x \<Rightarrow> db (world p') = db (world p) \<and> fifo p' = fifo p
    | Inr resp \<Rightarrow> \<exists>job srv.
        db (world p') = (db (world p))\<lparr>jobs := jobs (db (world p)) @ [job]\<rparr> \<and>
        fifo p' = fifo p @ [Some (j_id job)] \<and>
        j_status job = QUEUED \<and> j_user_id job = u_id u \<and> j_payload job = r \<and>
        jr_job_id resp = j_id job \<and> jr_position resp = get_queue_position (db (world p')) job \<and>
        srv \<in> set (servers (db (world p))) \<and> srv_is_active srv \<and> q_node_name r = Some (srv_name srv) \<and>
        (u_role u = USER \<longrightarrow>
           vms_of (db (world p')) (u_id u) + active_jobs (db (world p')) (u_id u) \<le> MAX_VMS_PER_USER (conf e) \<and>
           srv_name srv \<noteq> PROJECT_NODE_NAME (conf e) \<and> q_tier r \<noteq> PROJECT_CUSTOM)"
proof -
  let ?d = "db (world p)"
  let ?i = "job_id_text (clk (world p) * 1000) (pid p) (counter p)"
  let ?job = "new_job ?i u r (clk (world p))"
  let ?d' = "?d\<lparr>jobs := jobs ?d @ [?job]\<rparr>"
  show ?thesis
  proof (cases "validate_vm_creation_request (conf e) ?d u r")
    case (Inl x)
    then show ?thesis using assms by (auto simp: enqueue_vm_creation_def seq_def gets_def lift_def)
  next
    case (Inr srv)
    obtain c s1 where c: "commit e ?d' (world p) = (c, s1)" by fastforce
    show ?thesis
    proof (cases c)
      case (Inl x)
      then show ?thesis using assms Inr c commit_failed[of e ?d' "world p" x s1]
        by (auto simp: enqueue_vm_creation_def seq_def gets_def lift_def next_job_id_def at_world_def now_def Let_def)
    next
      case (Inr ok)
      have d1: "db s1 = ?d'" using commit_constraints c Inr by blast
      have p': "p' = p\<lparr>counter := counter p + 1, world := s1, fifo := fifo p @ [Some ?i]\<rparr>"
        "res = Inr (serialize_job ?job (get_queue_position ?d' ?job))"
        using assms \<open>validate_vm_creation_request (conf e) ?d u r = Inr srv\<close> c Inr d1
        by (auto simp: enqueue_vm_creation_def seq_def gets_def lift_def next_job_id_def at_world_def now_def
            Let_def put_def modify_def ret_def)
      have act: "active_jobs ?d' (u_id u) = active_jobs ?d (u_id u) + 1"
        by (simp add: active_jobs_def new_job_def pending_def)
      have own: "vms_of ?d' (u_id u) = vms_of ?d (u_id u)" by (simp add: vms_of_def)
      have job: "j_id ?job = ?i" "j_status ?job = QUEUED" "j_user_id ?job = u_id u" "j_payload ?job = r"
        by (simp_all add: new_job_def)
      have resp: "jr_job_id (serialize_job ?job pos) = ?i" "jr_position (serialize_job ?job pos) = pos" for pos
        by (simp_all add: serialize_job_def new_job_def)
      have d2: "db (world p') = ?d'" "fifo p' = fifo p @ [Some ?i]" by (simp_all add: p' d1)
      show ?thesis
        unfolding p'(2) sum.case d2
        by (rule exI[of _ ?job], rule exI[of _ srv])
          (use validate_request_Inr[OF \<open>validate_vm_creation_request (conf e) ?d u r = Inr srv\<close>] in
            \<open>auto simp only: job resp act own\<close>)
    qed
  qed
qed


definition sample_proc :: "vm_job list \<Rightarrow> proc" where
  "sample_proc js =
     \<lparr>world = sample_state (empty_database\<lparr>servers := [sample_server], users := [sample_user 7 USER], jobs := js, next_id := 10\<rparr>),
      fifo = [], counter = 0, pid = 77, stop_event = False, alive = True\<rparr>"

text \<open>The second request is taken, the third is over the limit of two.\<close>

lemma enqueue_within_quota_witness:
  "(let p = sample_proc [sample_job ''a'' RUNNING 0]
    in active_jobs (db (world (snd (enqueue_vm_creation create_env (sample_user 7 USER) sample_request p)))) 7 = 2) \<and>
   (let p = sample_proc [sample_job ''a'' RUNNING 0, sample_job ''b'' QUEUED 0]
    in fst (enqueue_vm_creation create_env (sample_user 7 USER) sample_request p) = Inl (Http 409 ''vm-limit'') \<and>
       fifo (snd (enqueue_vm_creation create_env (sample_user 7 USER) sample_request p)) = [])"
proof -
  let ?run = "enqueue_vm_creation create_env (sample_user 7 USER) sample_request"
  let ?p = "sample_proc [sample_job ''a'' RUNNING 0]"
  let ?q = "sample_proc [sample_job ''a'' RUNNING 0, sample_job ''b'' QUEUED 0]"
  have "case ?run ?p of (res, p') \<Rightarrow> (case res of Inl _ \<Rightarrow> False | Inr _ \<Rightarrow> True)" by code_simp
  then obtain resp p' where p: "?run ?p = (Inr resp, p')" by (auto split: prod.splits sum.splits)
  have "active_jobs (db (world p')) 7 = 2"
  proof -
    from enqueue_within_quota[OF p] obtain job where
      "db (world p') = (db (world ?p))\<lparr>jobs := jobs (db (world ?p)) @ [job]\<rparr>" "j_status job = QUEUED" "j_user_id job = 7"
      by (auto simp: sample_user_def)
    then show ?thesis
      by (simp add: active_jobs_def pending_def sample_proc_def sample_state_def sample_job_def new_job_def sample_user_def)
  qed
  moreover have "case ?run ?q of (res, q') \<Rightarrow> res = Inl (Http 409 ''vm-limit'')" by code_simp
  then obtain q' where q: "?run ?q = (Inl (Http 409 ''vm-limit''), q')" by (auto split: prod.splits)
  moreover have "fifo q' = []" using enqueue_within_quota[OF q] by (simp add: sample_proc_def)
  ultimately show ?thesis unfolding Let_def p q by simp
qed

section \<open>The worker\<close>

lemma create_vm_frame:
  assumes "create_vm e u r s = (res, s')"
  shows "jobs (db s') = jobs (db s)" "users (db s') = users (db s)"
proof -
  have *: "jobs (db s') = jobs (db s) \<and> users (db s') = users (db s)"
    using assms
  proof (cases rule: create_vm_cases)
    case (failed x rs s1)
    then show ?thesis using reserve_vm_run[OF failed(1)] wp_error[OF provision_run failed(2)]
      by (auto simp: reserved_def drop_vm_def)
  next
    case (created y rs s1)
    then show ?thesis using reserve_vm_run[OF created(1)] wp_result[OF provision_run created(2)]
      by (auto simp: reserved_def)
  qed simp
  then show "jobs (db s') = jobs (db s)" "users (db s') = users (db s)" by simp_all
qed

lemma create_vm_commits:
  assumes "create_vm e u r s = (Inr res, s')"
  shows "constraints_ok (db s')"
  using assms
proof (cases rule: create_vm_cases)
  case (created y rs s1)
  have "constraints_ok (mark_ready w v t d) = constraints_ok d" for w v t d by (simp add: constraints_ok_def)
  then show ?thesis using reserve_vm_run[OF created(1)] wp_result[OF provision_run created(2)]
    by (auto simp: reserved_def)
qed simp_all

lemma j_id_rows [simp]:
  "j_id (claim_row t j) = j_id j" "j_id (duplicate_row t j) = j_id j" "j_id (complete_row t res j) = j_id j"
  "j_id (fail_row t x j) = j_id j" "j_id (requeue_row j) = j_id j"
  by (simp_all add: claim_row_def duplicate_row_def complete_row_def fail_row_def requeue_row_def)

lemma set_job_frame [simp]:
  "vms (set_job i f d) = vms d" "users (set_job i f d) = users d" "servers (set_job i f d) = servers d"
  "vms (claim_rows i t d) = vms d" "users (claim_rows i t d) = users d" "servers (claim_rows i t d) = servers d"
  by (simp_all add: set_job_def claim_rows_def)

lemma filter_update_rows:
  "(\<And>j. k (f j) = k j) \<Longrightarrow> (\<And>j. p j \<Longrightarrow> k j = i) \<Longrightarrow>
   filter (\<lambda>j. k j \<noteq> i) (update_rows p f rows) = filter (\<lambda>j. k j \<noteq> i) rows"
  by (induction rows) (auto simp: update_rows_def)


lemma find_job_set: "(\<And>j. j_id (f j) = j_id j) \<Longrightarrow> find_job (set_job i f d) i = map_option f (find_job d i)"
proof -
  assume f: "\<And>j. j_id (f j) = j_id j"
  have "find (\<lambda>j. j_id j = i) (update_rows (\<lambda>j. j_id j = i) f js) = map_option f (find (\<lambda>j. j_id j = i) js)" for js
    by (induction js) (auto simp: update_rows_def f)
  then show ?thesis by (simp add: find_job_def set_job_def)
qed

lemma find_job_claim:
  "find_job (claim_rows i t d) i = map_option (\<lambda>j. if j_status j = QUEUED then claim_row t j else j) (find_job d i)"
proof -
  have "find (\<lambda>j. j_id j = i) (update_rows (claimable i) (claim_row t) js) =
      map_option (\<lambda>j. if j_status j = QUEUED then claim_row t j else j) (find (\<lambda>j. j_id j = i) js)" for js
    by (induction js) (auto simp: update_rows_def claimable_def)
  then show ?thesis by (simp add: find_job_def claim_rows_def)
qed

lemma find_job_next_id [simp]: "find_job (d\<lparr>next_id := n\<rparr>) i = find_job d i"
  by (simp add: find_job_def)

lemma claimable_none:
  assumes "distinct (map j_id (jobs d))"
  shows "count_rows (claimable i) (jobs d) = 0 \<longleftrightarrow> (\<forall>j. find_job d i = Some j \<longrightarrow> j_status j \<noteq> QUEUED)"
proof (cases "find_job d i")
  case None
  then have "\<forall>j \<in> set (jobs d). j_id j \<noteq> i" by (simp add: find_job_def find_None_all)
  then show ?thesis using None by (auto simp: count_rows_0_iff claimable_def)
next
  case (Some j)
  then have j: "j \<in> set (jobs d)" "j_id j = i" by (auto simp: find_job_def dest: find_Some_iff_mem)
  have "x = j" if "x \<in> set (jobs d)" "j_id x = i" for x
    using that j assms by (metis distinct_map inj_onD)
  then have "(\<forall>x \<in> set (jobs d). \<not> claimable i x) \<longleftrightarrow> j_status j \<noteq> QUEUED"
    unfolding claimable_def using j by blast
  then show ?thesis unfolding count_rows_0_iff using Some by simp
qed

lemma constraints_set_job [simp]:
  "(\<And>j. j_id (f j) = j_id j) \<Longrightarrow> constraints_ok (set_job i f d) = constraints_ok d"
  "constraints_ok (claim_rows i t d) = constraints_ok d"
  "constraints_ok (d\<lparr>next_id := n\<rparr>) = constraints_ok d"
  by (simp_all add: constraints_ok_def set_job_def claim_rows_def map_update_rows)

lemma ids_claim_rows [simp]:
  "ids_ok (claim_rows i t d) = ids_ok d" "refs_ok (claim_rows i t d) = refs_ok d"
  by (simp_all add: ids_ok_def refs_ok_def claim_rows_def)

lemma commit_ok:
  assumes "db_answers e" and "constraints_ok d"
  shows "\<exists>s'. commit e d s = (Inr (), s') \<and> db s' = d"
proof -
  obtain j where "answer e (calls s) DbCommit = Inr j" using assms(1) unfolding db_answers_def by blast
  then show ?thesis using assms(2) by (simp add: commit_def seq_def ext_def modify_def)
qed

lemma save_job_ok:
  assumes "db_answers e" and "constraints_ok (db s)" and "find_job (db s) i \<noteq> None" and "\<And>j. j_id (f j) = j_id j"
  shows "\<exists>s'. save_job e i f s = (Inr (), s') \<and> db s' = set_job i f (db s)"
  using commit_ok[OF assms(1), of "set_job i f (db s)" s] assms
  by (auto simp: save_job_def seq_def gets_def)

lemma record_failure_ok:
  assumes "db_answers e" and "constraints_ok (db s)" and "find_job (db s) i \<noteq> None"
  shows "\<exists>s' t. record_failure e i x s = (Inr (), s') \<and> db s' = set_job i (fail_row t x) (db s)"
  using save_job_ok[OF assms, of "fail_row (clk s) x"] assms(3)
  by (auto simp: record_failure_def catch_def seq_def gets_def now_def)

lemma process_total: "\<exists>s'. process_vm_creation_job e i s = (Inr (), s')"
proof -
  have "\<exists>s'. record_failure e i x t = (Inr (), s')" for x t
    by (auto simp: record_failure_def catch_def ret_def split: prod.split sum.split)
  then show ?thesis
    by (auto simp: process_vm_creation_job_def catch_def split: prod.split sum.split)
qed

text \<open>How the claimed job ends when the database takes every commit.\<close>

definition ended :: "vm_job \<Rightarrow> database \<Rightarrow> database \<Rightarrow> bool" where
  "ended job d d' \<longleftrightarrow> (\<exists>job'. find_job d' (j_id job) = Some job' \<and>
     j_attempts job' = j_attempts job + 1 \<and> j_started_at job' \<noteq> None \<and> j_finished_at job' \<noteq> None \<and>
     (j_status job' = COMPLETED \<and> j_error_message job' = None \<and>
        (\<exists>v. vms d' = vms d @ [v] \<and> j_vmid job' = Some (vm_vmid v) \<and>
             vm_owner_id v = Some (j_user_id job) \<and> vm_ready v) \<or>
      j_status job' = FAILED \<and> j_vmid job' = None \<and> j_error_message job' \<noteq> None \<and> vms d' = vms d))"

lemma ended_fail:
  assumes "find_job d2 (j_id job) = Some (claim_row t job)" and "vms d2 = vms d" and "j_vmid job = None"
  shows "ended job d (set_job (j_id job) (fail_row t' x) d2)"
  using assms by (simp add: ended_def find_job_set fail_row_def claim_row_def)

lemma run_claimed_ends:
  assumes "db_answers e" and "constraints_ok (db s)" and "ids_ok (db s)" and "refs_ok (db s)"
    and "find_job (db s) (j_id job) = Some (claim_row t job)" and "j_vmid job = None"
  shows "\<exists>s'. catch (run_claimed e (j_id job)) (record_failure e (j_id job)) s = (Inr (), s') \<and>
    ended job (db s) (db s') \<and>
    filter (\<lambda>j. j_id j \<noteq> j_id job) (jobs (db s')) = filter (\<lambda>j. j_id j \<noteq> j_id job) (jobs (db s))"
proof -
  let ?i = "j_id job"
  have fail: ?thesis if run: "run_claimed e ?i s = (Inl x, s2)" and d2: "db s2 = (db s)\<lparr>next_id := n\<rparr>" for x s2 n
  proof -
    have "constraints_ok (db s2)" "find_job (db s2) ?i = Some (claim_row t job)" using assms(2,5) d2 by simp_all
    then obtain s3 t3 where "record_failure e ?i x s2 = (Inr (), s3)" "db s3 = set_job ?i (fail_row t3 x) (db s2)"
      using record_failure_ok[OF assms(1)] by blast
    moreover have "ended job (db s) (set_job ?i (fail_row t3 x) (db s2))"
      by (rule ended_fail) (use d2 assms(5,6) in simp_all)
    ultimately show ?thesis
      by (simp add: catch_def run d2 set_job_def filter_update_rows)
  qed
  have job: "j_vmid (claim_row t job) = None" "j_user_id (claim_row t job) = j_user_id job"
    "j_payload (claim_row t job) = j_payload job" using assms(6) by (simp_all add: claim_row_def)
  show ?thesis
  proof (cases "find (\<lambda>u. u_id u = j_user_id job) (users (db s))")
    case None
    then have "run_claimed e ?i s = (Inl (RuntimeError ''no-user''), s)"
      by (simp add: run_claimed_def seq_def gets_def assms(5) job raise_def)
    then show ?thesis by (rule fail[of _ _ "next_id (db s)"]) simp
  next
    case (Some u)
    then have u: "u_id u = j_user_id job" by (auto dest: find_Some_iff_mem)
    obtain r s1 where c: "create_vm e u (j_payload job) s = (r, s1)" by fastforce
    have run: "run_claimed e ?i s = seq (\<lambda>_. (r, s1)) (\<lambda>res. seq now (\<lambda>t. save_job e ?i (complete_row t res))) s"
      by (simp add: run_claimed_def seq_def gets_def assms(5) job Some c)
    show ?thesis
    proof (cases r)
      case (Inl x)
      show ?thesis
        by (rule fail[of x s1 "next_id (db s1)"])
          (use create_vm_failed[OF assms(3,4,1) c[unfolded Inl]] in \<open>simp_all add: run Inl seq_def\<close>)
    next
      case (Inr res)
      from create_vm_created[OF assms(3) c[unfolded Inr]] obtain v where
        v: "vms (db s1) = vms (db s) @ [v]" "vm_owner_id v = Some (u_id u)" "vm_ready v" "vm_vmid v = v_vmid res"
        by blast
      have f: "find_job (db s1) ?i = Some (claim_row t job)"
        using create_vm_frame(1)[OF c] assms(5) by (simp add: find_job_def)
      obtain s2 where s2: "save_job e ?i (complete_row (clk s1) res) s1 = (Inr (), s2)"
        "db s2 = set_job ?i (complete_row (clk s1) res) (db s1)"
        using save_job_ok[OF assms(1) create_vm_commits[OF c[unfolded Inr]], of ?i "complete_row (clk s1) res"] f by auto
      have "catch (run_claimed e ?i) (record_failure e ?i) s = (Inr (), s2)"
        by (simp add: catch_def run Inr seq_def now_def gets_def s2(1))
      moreover have "ended job (db s) (db s2)"
        unfolding ended_def s2(2)
        using v u by (auto simp: find_job_set f complete_row_def claim_row_def)
      moreover have "filter (\<lambda>j. j_id j \<noteq> ?i) (jobs (db s2)) = filter (\<lambda>j. j_id j \<noteq> ?i) (jobs (db s))"
        by (simp add: s2(2) set_job_def filter_update_rows create_vm_frame(1)[OF c])
      ultimately show ?thesis by blast
    qed
  qed
qed


lemma process_outcome:
  assumes "db_answers e" and "constraints_ok (db s)" and "ids_ok (db s)" and "refs_ok (db s)"
    and "\<And>j. j \<in> set (jobs (db s)) \<Longrightarrow> j_status j = QUEUED \<Longrightarrow> j_vmid j = None"
    and "process_vm_creation_job e i s = (r, s')"
  shows "r = Inr () \<and>
    filter (\<lambda>j. j_id j \<noteq> i) (jobs (db s')) = filter (\<lambda>j. j_id j \<noteq> i) (jobs (db s)) \<and>
    (case find_job (db s) i of
       None \<Rightarrow> db s' = db s
     | Some job \<Rightarrow> if j_status job = QUEUED then ended job (db s) (db s') else db s' = db s)"
proof -
  have dist: "distinct (map j_id (jobs (db s)))" using assms(2) by (simp add: constraints_ok_def)
  show ?thesis
  proof (cases "\<exists>job. find_job (db s) i = Some job \<and> j_status job = QUEUED")
    case False
    then have "count_rows (claimable i) (jobs (db s)) = 0" using claimable_none[OF dist] by blast
    then have "process_vm_creation_job e i s = (Inr (), s)"
      by (simp add: process_vm_creation_job_def claim_job_def catch_def seq_def now_def gets_def ret_def)
    then show ?thesis using assms(6) False by (auto split: option.split)
  next
    case True
    then obtain job where job: "find_job (db s) i = Some job" "j_status job = QUEUED" by blast
    then have i: "i = j_id job" and mem: "job \<in> set (jobs (db s))" by (auto simp: find_job_def dest: find_Some_iff_mem)
    obtain s1 where s1: "commit e (claim_rows i (clk s) (db s)) s = (Inr (), s1)" "db s1 = claim_rows i (clk s) (db s)"
      using commit_ok[OF assms(1)] assms(2) by (metis constraints_set_job(2))
    have "count_rows (claimable i) (jobs (db s)) \<noteq> 0" using claimable_none[OF dist, of i] job by simp
    then have claim: "claim_job e i s = (Inr True, s1)"
      by (simp add: claim_job_def seq_def now_def gets_def s1 ret_def)
    have f: "find_job (db s1) i = Some (claim_row (clk s) job)" by (simp add: s1 find_job_claim job)
    from run_claimed_ends[OF assms(1), of s1 job "clk s"] obtain s2 where
      s2: "catch (run_claimed e i) (record_failure e i) s1 = (Inr (), s2)" "ended job (db s1) (db s2)"
        "filter (\<lambda>j. j_id j \<noteq> i) (jobs (db s2)) = filter (\<lambda>j. j_id j \<noteq> i) (jobs (db s1))"
      using assms(2,3,4) assms(5)[OF mem job(2)] f by (auto simp: s1 i)
    have "process_vm_creation_job e i s = catch (run_claimed e i) (record_failure e i) s1"
      by (simp add: process_vm_creation_job_def catch_def seq_def claim)
    then have "r = Inr ()" "s' = s2" using assms(6) s2(1) by simp_all
    moreover have "ended job (db s) (db s2)" using s2(2) by (simp add: ended_def s1)
    moreover have "filter (\<lambda>j. j_id j \<noteq> i) (jobs (db s1)) = filter (\<lambda>j. j_id j \<noteq> i) (jobs (db s))"
      using filter_update_rows[of j_id "claim_row (clk s)" "claimable i" i "jobs (db s)"]
      by (simp add: s1 claim_rows_def claimable_def)
    ultimately show ?thesis using s2(3) job by simp
  qed
qed

text \<open>
  C12. What the worker does with a job it takes from the FIFO, on a database that takes every commit. A job
  that is no longer waiting is left alone: nothing is created twice. A waiting job is claimed once and
  ends: completed, with one new VM that is ready, owned by the user of the job and named by its VMID in
  the job, or failed, with a message and no new VM. No other job changes, and no exception leaves the
  worker.
\<close>

theorem process_job_outcome:
  assumes "db_answers e" and "constraints_ok (db s)" and "ids_ok (db s)" and "refs_ok (db s)"
    and "\<And>j. j \<in> set (jobs (db s)) \<Longrightarrow> j_status j = QUEUED \<Longrightarrow> j_vmid j = None"
    and "process_vm_creation_job e i s = (r, s')"
  shows "r = Inr () \<and>
    filter (\<lambda>j. j_id j \<noteq> i) (jobs (db s')) = filter (\<lambda>j. j_id j \<noteq> i) (jobs (db s)) \<and>
    (case find_job (db s) i of
       None \<Rightarrow> db s' = db s
     | Some job \<Rightarrow> if j_status job = QUEUED then ended job (db s) (db s') else db s' = db s)"
  using assms by (rule process_outcome)


section \<open>The tables stay well formed\<close>

definition tables_ok :: "database \<Rightarrow> bool" where
  "tables_ok d \<longleftrightarrow> constraints_ok d \<and> ids_ok d \<and> refs_ok d \<and>
     (\<forall>j \<in> set (jobs d). j_status j = QUEUED \<longrightarrow> j_vmid j = None)"

lemma ids_ok_ops:
  "ids_ok d \<Longrightarrow> ids_ok (add_vm v d)" "ids_ok d \<Longrightarrow> ids_ok (add_port p d)"
  "ids_ok d \<Longrightarrow> ids_ok (add_notification i ty msg t d)" "ids_ok d \<Longrightarrow> ids_ok (drop_vm v d)"
  "ids_ok d \<Longrightarrow> ids_ok (d\<lparr>vms := update_rows q (\<lambda>x. x\<lparr>vm_ready := b\<rparr>) (vms d)\<rparr>)"
  by (force simp: ids_ok_def add_vm_def add_port_def add_notification_def drop_vm_def map_update_rows
      set_update_rows intro: distinct_map_delete_rows)+

lemma refs_ok_ops:
  "refs_ok d \<Longrightarrow> refs_ok (add_vm v d)" "refs_ok d \<Longrightarrow> p_vm_id p < next_id d \<Longrightarrow> refs_ok (add_port p d)"
  "refs_ok d \<Longrightarrow> refs_ok (add_notification i ty msg t d)" "refs_ok d \<Longrightarrow> refs_ok (drop_vm v d)"
  "refs_ok (d\<lparr>vms := vs\<rparr>) = refs_ok d"
  by (force simp: refs_ok_def add_vm_def add_port_def add_notification_def drop_vm_def)+

lemma ids_reserved:
  assumes "ids_ok d" and "refs_ok d"
  shows "ids_ok (add_default_ports (next_id d) ps (add_vm v d)) \<and> refs_ok (add_default_ports (next_id d) ps (add_vm v d))"
proof -
  have "p_vm_id (default_port i ip xp pr de) = i" for i ip xp pr de by (simp add: default_port_def)
  then show ?thesis unfolding add_default_ports_def
    by (intro conjI ids_ok_ops refs_ok_ops assms) (simp_all add: add_vm_def add_port_def)
qed

lemma create_vm_keeps_ids:
  assumes "ids_ok (db s)" and "refs_ok (db s)" and "create_vm e u r s = (res, s')"
  shows "ids_ok (db s') \<and> refs_ok (db s')"
  using assms(3)
proof (cases rule: create_vm_cases)
  case refused
  then show ?thesis using assms by simp
next
  case (failed x rs s1)
  have "ids_ok (db s1) \<and> refs_ok (db s1)"
    using reserve_vm_run[OF failed(1)] ids_reserved[OF assms(1,2)] by (auto simp: reserved_def)
  then show ?thesis using wp_error[OF provision_run failed(2)] by (auto intro: ids_ok_ops refs_ok_ops)
next
  case (created y rs s1)
  have "ids_ok (db s1) \<and> refs_ok (db s1)"
    using reserve_vm_run[OF created(1)] ids_reserved[OF assms(1,2)] by (auto simp: reserved_def)
  then show ?thesis using wp_result[OF provision_run created(2)]
    by (auto simp: mark_ready_def refs_ok_ops(5) intro!: ids_ok_ops refs_ok_ops)
qed

lemma ids_set_job [simp]: "ids_ok (set_job i f d) = ids_ok d" "refs_ok (set_job i f d) = refs_ok d"
  by (simp_all add: ids_ok_def refs_ok_def set_job_def)

text \<open>What the row operations keep is kept by the whole of \<open>process_vm_creation_job\<close>.\<close>

lemma process_keeps:
  assumes set: "\<And>i f d. P d \<Longrightarrow> (\<And>j. j_id (f j) = j_id j) \<Longrightarrow> (\<And>j. \<not> pending (f j)) \<Longrightarrow> P (set_job i f d)"
    and claim: "\<And>i t d. P d \<Longrightarrow> P (claim_rows i t d)"
    and create: "\<And>u r. db_inv P (create_vm e u r)"
  shows "db_inv P (process_vm_creation_job e i)"
proof -
  have rows: "\<And>d t. P d \<Longrightarrow> P (set_job i (duplicate_row t) d)" "\<And>d t res. P d \<Longrightarrow> P (set_job i (complete_row t res) d)"
    "\<And>d t x. P d \<Longrightarrow> P (set_job i (fail_row t x) d)"
    by (rule set; simp add: duplicate_row_def complete_row_def fail_row_def pending_def)+
  have save: "db_inv P (save_job e i f)" if "\<And>d. P d \<Longrightarrow> P (set_job i f d)" for f
    unfolding save_job_def by (intro db_inv_read db_inv_cases db_inv_basic db_inv_commit that)
  show ?thesis
    unfolding process_vm_creation_job_def claim_job_def run_claimed_def record_failure_def
    by (intro db_inv_read db_inv_seq db_inv_catch db_inv_cases db_inv_basic db_inv_commit create save rows claim)
qed

lemma create_vm_tables_ok: "db_inv tables_ok (create_vm e u r)"
  unfolding db_inv_def
proof (intro allI impI)
  fix s :: sys assume ok: "tables_ok (db s)"
  obtain res s' where run: "create_vm e u r s = (res, s')" by fastforce
  have "constraints_ok (db s')"
  proof (cases res)
    case (Inr y)
    then show ?thesis using run create_vm_commits by blast
  next
    case (Inl x)
    show ?thesis using run
    proof (cases rule: create_vm_cases)
      case (failed x rs s1)
      have "constraints_ok (db s1)" using reserve_vm_run[OF failed(1)] by (auto simp: reserved_def)
      moreover have "constraints_ok d \<Longrightarrow> constraints_ok (drop_vm v d)" for d v
        by (auto simp: constraints_ok_def drop_vm_def intro: distinct_map_delete_rows)
      ultimately show ?thesis using wp_error[OF provision_run failed(2)] by auto
    qed (use ok Inl in \<open>auto simp: tables_ok_def\<close>)
  qed
  then show "tables_ok (db (snd (create_vm e u r s)))"
    using ok create_vm_keeps_ids[OF _ _ run] create_vm_frame(1)[OF run] by (simp add: run tables_ok_def)
qed

lemma process_tables_ok: "db_inv tables_ok (process_vm_creation_job e i)"
proof (rule process_keeps)
  fix i and f :: "vm_job \<Rightarrow> vm_job" and d assume "tables_ok d" "\<And>j. j_id (f j) = j_id j" "\<And>j. \<not> pending (f j)"
  then show "tables_ok (set_job i f d)"
    by (auto simp: tables_ok_def pending_def) (auto simp: set_job_def set_update_rows split: if_splits)
next
  fix i t d assume "tables_ok d"
  then show "tables_ok (claim_rows i t d)"
    by (auto simp: tables_ok_def) (auto simp: claim_rows_def claim_row_def set_update_rows split: if_splits)
qed (rule create_vm_tables_ok)

text \<open>
  The worker never breaks the tables. Whatever the outside answers, and whether a step fails or not,
  processing a job keeps the constraints of the database, the uniqueness and bounds of its ids, the
  references of ports and routes to VMs that exist or have existed, and the rule that a waiting job has
  no VMID, which is what makes the duplicate guard of \<open>process_vm_creation_job\<close> unreachable.
\<close>

theorem process_job_keeps_tables:
  assumes "tables_ok (db s)"
  shows "tables_ok (db (snd (process_vm_creation_job e i s)))"
  using process_tables_ok assms unfolding db_inv_def by blast


section \<open>The worker loop\<close>

lemma find_others:
  assumes "filter (\<lambda>j. j_id j \<noteq> i) (jobs d') = filter (\<lambda>j. j_id j \<noteq> i) (jobs d)" and "k \<noteq> i"
  shows "find_job d' k = find_job d k"
proof -
  have "find (\<lambda>j. j_id j = k) js = find (\<lambda>j. j_id j = k) (filter (\<lambda>j. j_id j \<noteq> i) js)" for js
    using assms(2) by (induction js) auto
  then show ?thesis unfolding find_job_def using assms(1) by metis
qed

definition settled :: "vm_job \<Rightarrow> vm_job \<Rightarrow> bool" where
  "settled job job' \<longleftrightarrow> j_status job' \<in> {COMPLETED, FAILED} \<and> j_attempts job' = j_attempts job + 1"

lemma process_find:
  assumes "db_answers e" and "tables_ok (db s)" and "find_job (db s) k = Some job"
  shows "\<exists>job'. find_job (db (snd (process_vm_creation_job e i s))) k = Some job' \<and>
    (if i = k \<and> j_status job = QUEUED then settled job job' else job' = job)"
proof -
  obtain r s' where run: "process_vm_creation_job e i s = (r, s')" by fastforce
  have ok: "constraints_ok (db s)" "ids_ok (db s)" "refs_ok (db s)"
    "\<And>j. j \<in> set (jobs (db s)) \<Longrightarrow> j_status j = QUEUED \<Longrightarrow> j_vmid j = None"
    using assms(2) by (auto simp: tables_ok_def)
  note out = process_outcome[OF assms(1) ok run]
  show ?thesis
  proof (cases "i = k")
    case False
    then show ?thesis using find_others[of i "db s'" "db s" k] out assms(3) by (simp add: run)
  next
    case True
    have "j_id job = k" using assms(3) by (auto simp: find_job_def dest: find_Some_iff_mem)
    then show ?thesis unfolding run snd_conv
      using out assms(3) True by (auto simp: ended_def settled_def split: if_splits)
  qed
qed

lemma worker_loop_run:
  assumes "db_answers e" and "tables_ok (db (world p))" and "alive p" and "\<not> stop_event p"
    and "None \<notin> set (fifo p)" and "length (fifo p) \<le> n"
  shows "fifo (worker_loop e n p) = [] \<and> alive (worker_loop e n p) \<and>
    (\<forall>k job. find_job (db (world p)) k = Some job \<longrightarrow>
       (\<exists>job'. find_job (db (world (worker_loop e n p))) k = Some job' \<and>
          (if Some k \<in> set (fifo p) \<and> j_status job = QUEUED then settled job job' else job' = job)))"
  using assms(2-)
proof (induction n arbitrary: p)
  case (Suc n)
  show ?case
  proof (cases "fifo p")
    case Nil
    then have turn: "worker_turn e p = p\<lparr>world := (world p)\<lparr>clk := clk (world p) + second\<rparr>\<rparr>"
      using Suc.prems(3) by (simp add: worker_turn_def)
    show ?thesis using Suc.IH[of "worker_turn e p"] Suc.prems Nil by (simp add: turn)
  next
    case (Cons x q)
    then obtain i where x: "x = Some i" using Suc.prems(4) by (cases x) auto
    let ?p = "p\<lparr>fifo := q, world := snd (process_vm_creation_job e i (world p))\<rparr>"
    have turn: "worker_turn e p = ?p" using Suc.prems(3) Cons x by (simp add: worker_turn_def)
    have ok: "tables_ok (db (world ?p))"
      using process_tables_ok Suc.prems(1) by (auto simp: db_inv_def)
    have IH: "fifo (worker_loop e n ?p) = [] \<and> alive (worker_loop e n ?p) \<and>
      (\<forall>k job. find_job (db (world ?p)) k = Some job \<longrightarrow>
       (\<exists>job'. find_job (db (world (worker_loop e n ?p))) k = Some job' \<and>
          (if Some k \<in> set q \<and> j_status job = QUEUED then settled job job' else job' = job)))"
      using Suc.IH[of ?p] ok Suc.prems(2-5) Cons by auto
    have "\<exists>job'. find_job (db (world (worker_loop e n ?p))) k = Some job' \<and>
          (if Some k \<in> set (fifo p) \<and> j_status job = QUEUED then settled job job' else job' = job)"
      if job: "find_job (db (world p)) k = Some job" for k job
    proof -
      from process_find[OF assms(1) Suc.prems(1) job, of i] obtain j1 where
        j1: "find_job (db (world ?p)) k = Some j1" "if i = k \<and> j_status job = QUEUED then settled job j1 else j1 = job"
        by auto
      from IH j1(1) obtain j2 where
        j2: "find_job (db (world (worker_loop e n ?p))) k = Some j2"
          "if Some k \<in> set q \<and> j_status j1 = QUEUED then settled j1 j2 else j2 = j1" by blast
      show ?thesis using j1 j2 Cons x by (auto simp: settled_def split: if_splits)
    qed
    then show ?thesis using IH Suc.prems(2) by (simp add: turn)
  qed
qed (use assms(3) in auto)



text \<open>Two ids of the same job and one of a finished one.\<close>

definition sample_backlog :: proc where
  "sample_backlog = (sample_proc [sample_job ''a'' COMPLETED 0, sample_job ''b'' QUEUED 1])
     \<lparr>fifo := [Some ''b'', Some ''a'', Some ''b'']\<rparr>"

lemma sample_backlog_ok: "tables_ok (db (world sample_backlog))"
  by (simp add: tables_ok_def constraints_ok_def ids_ok_def refs_ok_def sample_backlog_def sample_proc_def
      sample_defs sample_job_def new_job_def)

definition backlog_state :: sys where "backlog_state = world sample_backlog"

lemma backlog_state_ok: "tables_ok (db backlog_state)" "constraints_ok (db backlog_state)" "ids_ok (db backlog_state)"
  "refs_ok (db backlog_state)" "find_job (db backlog_state) ''b'' = Some (sample_job ''b'' QUEUED 1)"
  using sample_backlog_ok
  by (simp_all add: tables_ok_def backlog_state_def sample_backlog_def sample_proc_def sample_state_def
      find_job_def sample_job_def new_job_def)

lemma process_job_keeps_tables_witness:
  "tables_ok (db (snd (process_vm_creation_job create_env ''b'' backlog_state)))"
  by (rule process_job_keeps_tables) (rule backlog_state_ok)

lemma process_job_outcome_witness:
  "ended (sample_job ''b'' QUEUED 1) (db backlog_state)
     (db (snd (process_vm_creation_job create_env ''b'' backlog_state)))"
proof -
  have q: "\<And>j. j \<in> set (jobs (db backlog_state)) \<Longrightarrow> j_status j = QUEUED \<Longrightarrow> j_vmid j = None"
    using backlog_state_ok(1) by (simp add: tables_ok_def)
  show ?thesis
    using process_job_outcome[OF create_db_answers backlog_state_ok(2,3,4) q prod.collapse[symmetric], of "''b''"]
    by (simp add: backlog_state_ok(5)) (simp add: sample_job_def)
qed


end
