(* ===== verification/QueueMachine.thy ===== *)
theory QueueMachine
  imports JobQueue
begin

text \<open>
  The queue as a state machine: request handlers, the worker thread, crashes of the process and restarts,
  in any interleaving, over the row functions of \<open>JobQueue\<close>. A run of \<open>process_vm_creation_job\<close> is a
  sequence of steps of the machine, whatever the outside answers (\<open>process_refines_machine\<close>), so what holds
  in every reachable state holds of the program.
\<close>

section \<open>States and steps\<close>

text \<open>
  \<open>posting\<close> are the jobs committed by a handler that has not yet put the id into the FIFO \<open>mem\<close>; \<open>taken\<close> is
  the id the worker holds before the conditional update, \<open>running\<close> after it, \<open>created\<close> when \<open>create_vm\<close> has
  returned; \<open>lost\<close> remembers that the database refused to record a failure, until a restart has read the
  table again; \<open>made\<close> lists the job of every VM that was made. \<open>mem\<close>, \<open>posting\<close>, \<open>taken\<close>, \<open>running\<close> and
  \<open>created\<close> live in the process and are gone after a crash.
\<close>

record machine =
  rows :: "vm_job list"
  mem :: "string list"
  posting :: "string list"
  taken :: "string option"
  running :: "string option"
  created :: bool
  up :: bool
  lost :: bool
  made :: "string list"

definition claimed :: "string \<Rightarrow> int \<Rightarrow> vm_job list \<Rightarrow> vm_job list" where
  "claimed i t = update_rows (claimable i) (claim_row t)"

definition rewrite :: "string \<Rightarrow> (vm_job \<Rightarrow> vm_job) \<Rightarrow> vm_job list \<Rightarrow> vm_job list" where
  "rewrite i f = update_rows (\<lambda>j. j_id j = i) f"

definition requeued :: "vm_job list \<Rightarrow> vm_job list" where
  "requeued = update_rows pending requeue_row"

definition recovered :: "vm_job list \<Rightarrow> string list" where
  "recovered js = map j_id (sort_key job_key_of (filter pending js))"

inductive qstep :: "machine \<Rightarrow> machine \<Rightarrow> bool" where
  submit: "up m \<Longrightarrow> i \<notin> j_id ` set (rows m) \<Longrightarrow>
     qstep m (m\<lparr>rows := rows m @ [new_job i u r t], posting := posting m @ [i]\<rparr>)"
| post: "up m \<Longrightarrow> i \<in> set (posting m) \<Longrightarrow>
     qstep m (m\<lparr>posting := remove1 i (posting m), mem := mem m @ [i]\<rparr>)"
| take: "up m \<Longrightarrow> taken m = None \<Longrightarrow> running m = None \<Longrightarrow> mem m = i # q \<Longrightarrow>
     qstep m (m\<lparr>mem := q, taken := Some i\<rparr>)"
| claim: "taken m = Some i \<Longrightarrow> count_rows (claimable i) (rows m) \<noteq> 0 \<Longrightarrow>
     qstep m (m\<lparr>rows := claimed i t (rows m), taken := None, running := Some i\<rparr>)"
| miss: "taken m = Some i \<Longrightarrow> count_rows (claimable i) (rows m) = 0 \<Longrightarrow> qstep m (m\<lparr>taken := None\<rparr>)"
| claim_refused: "taken m = Some i \<Longrightarrow> count_rows (claimable i) (rows m) \<noteq> 0 \<Longrightarrow>
     qstep m (m\<lparr>rows := (if recorded then rewrite i (fail_row t x) (rows m) else rows m), taken := None,
       lost := (lost m \<or> \<not> recorded)\<rparr>)"
| make: "running m = Some i \<Longrightarrow> \<not> created m \<Longrightarrow> qstep m (m\<lparr>created := True, made := made m @ [i]\<rparr>)"
| complete: "running m = Some i \<Longrightarrow> created m \<Longrightarrow>
     qstep m (m\<lparr>rows := rewrite i (complete_row t res) (rows m), running := None, created := False\<rparr>)"
| fail: "running m = Some i \<Longrightarrow>
     qstep m (m\<lparr>rows := (if recorded then rewrite i (fail_row t x) (rows m) else rows m), running := None,
       created := False, lost := (lost m \<or> \<not> recorded)\<rparr>)"
| crash: "up m \<Longrightarrow>
     qstep m (m\<lparr>mem := [], posting := [], taken := None, running := None, created := False, up := False\<rparr>)"
| restart: "\<not> up m \<Longrightarrow>
     qstep m (m\<lparr>rows := (if recorded then requeued (rows m) else rows m), mem := recovered (rows m),
       up := True, lost := \<not> recorded\<rparr>)"

inductive_cases qstepE: "qstep m m'"

definition qstart :: "machine \<Rightarrow> bool" where
  "qstart m \<longleftrightarrow> rows m = [] \<and> mem m = [] \<and> posting m = [] \<and> taken m = None \<and> running m = None \<and>
     \<not> created m \<and> made m = []"

section \<open>The invariant\<close>

text \<open>
  Ids are unique; a VMID is recorded in completed jobs only; the job the worker runs is marked running;
  a waiting job is on its way to the worker unless the process is down or a refusal was not recorded;
  every job has made at most as many VMs as it has had attempts, one less while it waits or while its VM is
  being made, so that the next attempt is accounted for.
\<close>

definition on_its_way :: "machine \<Rightarrow> string \<Rightarrow> bool" where
  "on_its_way m i \<longleftrightarrow> i \<in> set (mem m) \<or> i \<in> set (posting m) \<or> taken m = Some i"

definition made_by :: "machine \<Rightarrow> vm_job \<Rightarrow> int" where
  "made_by m j = int (count_list (made m) (j_id j))"

definition row_ok :: "machine \<Rightarrow> vm_job \<Rightarrow> bool" where
  "row_ok m j \<longleftrightarrow>
     (j_vmid j \<noteq> None \<longrightarrow> j_status j = COMPLETED) \<and>
     (running m = Some (j_id j) \<longrightarrow> j_status j = RUNNING) \<and>
     (j_status j = QUEUED \<and> up m \<and> \<not> lost m \<longrightarrow> on_its_way m (j_id j)) \<and>
     made_by m j + (if running m = Some (j_id j) \<and> \<not> created m then 1 else 0) \<le> j_attempts j"

definition process_ok :: "machine \<Rightarrow> bool" where
  "process_ok m \<longleftrightarrow>
     (taken m = None \<or> running m = None) \<and> (created m \<longrightarrow> running m \<noteq> None) \<and>
     set (made m) \<subseteq> j_id ` set (rows m) \<and>
     (\<forall>i. running m = Some i \<longrightarrow> i \<in> j_id ` set (rows m)) \<and>
     (\<not> up m \<longrightarrow> taken m = None \<and> running m = None)"

definition qinv :: "machine \<Rightarrow> bool" where
  "qinv m \<longleftrightarrow> distinct (map j_id (rows m)) \<and> process_ok m \<and> (\<forall>j \<in> set (rows m). row_ok m j)"

lemma row_fields [simp]:
  "j_status (claim_row t j) = RUNNING" "j_vmid (claim_row t j) = j_vmid j" "j_attempts (claim_row t j) = j_attempts j + 1"
  "j_status (fail_row t x j) = FAILED" "j_vmid (fail_row t x j) = j_vmid j" "j_attempts (fail_row t x j) = j_attempts j"
  "j_status (complete_row t res j) = COMPLETED" "j_attempts (complete_row t res j) = j_attempts j"
  "j_vmid (requeue_row j) = j_vmid j" "j_status (new_job i u r t) = QUEUED" "j_vmid (new_job i u r t) = None"
  "j_attempts (new_job i u r t) = 0" "j_id (new_job i u r t) = i"
  by (simp_all add: claim_row_def fail_row_def complete_row_def requeue_row_def new_job_def)


lemma ids_rows [simp]:
  "map j_id (claimed i t js) = map j_id js" "map j_id (requeued js) = map j_id js"
  "(\<And>j. j_id (f j) = j_id j) \<Longrightarrow> map j_id (rewrite i f js) = map j_id js"
  by (simp_all add: claimed_def requeued_def rewrite_def map_update_rows)

lemma id_set_rows [simp]:
  "j_id ` set (claimed i t js) = j_id ` set js" "j_id ` set (requeued js) = j_id ` set js"
  "(\<And>j. j_id (f j) = j_id j) \<Longrightarrow> j_id ` set (rewrite i f js) = j_id ` set js"
  by (metis ids_rows list.set_map)+

lemma claimed_mem: "j' \<in> set (claimed i t js) \<longleftrightarrow> (\<exists>j \<in> set js. j' = (if claimable i j then claim_row t j else j))"
  by (simp add: claimed_def set_update_rows)

lemma rewrite_mem: "j' \<in> set (rewrite i f js) \<longleftrightarrow> (\<exists>j \<in> set js. j' = (if j_id j = i then f j else j))"
  by (simp add: rewrite_def set_update_rows)

lemma requeued_mem: "j' \<in> set (requeued js) \<longleftrightarrow> (\<exists>j \<in> set js. j' = (if pending j then requeue_row j else j))"
  by (simp add: requeued_def set_update_rows)

lemma made_by_simps [simp]:
  "made_by (m\<lparr>rows := a\<rparr>) = made_by m" "made_by (m\<lparr>mem := b\<rparr>) = made_by m" "made_by (m\<lparr>posting := b\<rparr>) = made_by m"
  "made_by (m\<lparr>taken := c\<rparr>) = made_by m" "made_by (m\<lparr>running := c\<rparr>) = made_by m" "made_by (m\<lparr>created := d\<rparr>) = made_by m"
  "made_by (m\<lparr>up := d\<rparr>) = made_by m" "made_by (m\<lparr>lost := d\<rparr>) = made_by m"
  by (rule ext, simp add: made_by_def)+

lemma made_by_new: "i \<notin> j_id ` set (rows m) \<Longrightarrow> process_ok m \<Longrightarrow> made_by m (new_job i u r t) = 0"
  by (auto simp: made_by_def process_ok_def count_list_0_iff)

lemma made_by_make:
  "made_by (m\<lparr>created := b, made := made m @ [i]\<rparr>) j = made_by m j + (if j_id j = i then 1 else 0)"
  by (simp add: made_by_def)

lemma made_by_row [simp]:
  "made_by m (claim_row t j) = made_by m j" "made_by m (fail_row t x j) = made_by m j"
  "made_by m (complete_row t res j) = made_by m j" "made_by m (requeue_row j) = made_by m j"
  by (simp_all add: made_by_def)

lemma qinvI:
  assumes "qinv m" and "map j_id (rows m') = map j_id (rows m)" and "process_ok m'"
    and "\<And>j. j \<in> set (rows m') \<Longrightarrow> row_ok m' j"
  shows "qinv m'"
  using assms unfolding qinv_def by metis

lemma qinv_row: "qinv m \<Longrightarrow> j \<in> set (rows m) \<Longrightarrow> row_ok m j"
  and qinv_process: "qinv m \<Longrightarrow> process_ok m"
  by (simp_all add: qinv_def)

lemma qinv_unique: "qinv m \<Longrightarrow> j \<in> set (rows m) \<Longrightarrow> x \<in> set (rows m) \<Longrightarrow> j_id j = j_id x \<Longrightarrow> j = x"
  unfolding qinv_def by (metis distinct_map inj_onD)

lemma qinv_step:
  assumes "qinv m" and "qstep m m'"
  shows "qinv m'"
  using assms(2)
proof cases
  case (submit i u r t)
  then show ?thesis using assms(1) made_by_new[OF submit(3)]
    by (auto simp: qinv_def row_ok_def process_ok_def on_its_way_def)
next
  case (post i)
  then show ?thesis using assms(1)
    by (auto simp: qinv_def row_ok_def process_ok_def on_its_way_def)
next
  case (take i q)
  then show ?thesis using assms(1)
    by (auto simp: qinv_def row_ok_def process_ok_def on_its_way_def)
next
  case (claim i t)
  obtain x where x: "x \<in> set (rows m)" "claimable i x" using claim(3) unfolding count_rows_0_iff by blast
  show ?thesis
  proof (rule qinvI[OF assms(1)])
    show "process_ok m'" using assms(1) x claim(2) unfolding claim(1) by (auto simp: qinv_def process_ok_def claimable_def)
    fix j' assume "j' \<in> set (rows m')"
    then obtain j where j: "j \<in> set (rows m)" "j' = (if claimable i j then claim_row t j else j)"
      unfolding claim(1) by (auto simp: claimed_mem)
    have "claimable i j \<longleftrightarrow> j_id j = i" using qinv_unique[OF assms(1) j(1) x(1)] x(2) by (auto simp: claimable_def)
    moreover have "claimable i j \<Longrightarrow> j_status j = QUEUED" by (simp add: claimable_def)
    ultimately show "row_ok m' j'" using qinv_row[OF assms(1) j(1)] qinv_process[OF assms(1)] claim(2)
      unfolding claim(1) j(2) by (auto simp: row_ok_def on_its_way_def process_ok_def)
  qed (simp add: claim(1))
next
  case (miss i)
  then have no: "j_id j = i \<Longrightarrow> j_status j \<noteq> QUEUED" if "j \<in> set (rows m)" for j
    using that by (auto simp: count_rows_0_iff claimable_def)
  show ?thesis
  proof (rule qinvI[OF assms(1)])
    show "process_ok m'" using assms(1) unfolding miss(1) by (auto simp: qinv_def process_ok_def)
    fix j' assume "j' \<in> set (rows m')"
    then have j: "j' \<in> set (rows m)" by (simp add: miss(1))
    show "row_ok m' j'" using qinv_row[OF assms(1) j] no[OF j] miss(2)
      unfolding miss(1) by (auto simp: row_ok_def on_its_way_def)
  qed (simp add: miss(1))
next
  case (claim_refused i recorded t x)
  obtain y where y: "y \<in> set (rows m)" "claimable i y" using claim_refused(3) unfolding count_rows_0_iff by blast
  show ?thesis
  proof (rule qinvI[OF assms(1)])
    show "process_ok m'" using assms(1) unfolding claim_refused(1) by (auto simp: qinv_def process_ok_def)
    fix j' assume "j' \<in> set (rows m')"
    then obtain j where j: "j \<in> set (rows m)" "j' = (if recorded \<and> j_id j = i then fail_row t x j else j)"
      unfolding claim_refused(1) by (cases recorded) (auto simp: rewrite_mem)
    have "j_id j = i \<Longrightarrow> j_status j = QUEUED" using qinv_unique[OF assms(1) j(1) y(1)] y(2) by (auto simp: claimable_def)
    then show "row_ok m' j'" using qinv_row[OF assms(1) j(1)] qinv_process[OF assms(1)] claim_refused(2)
      unfolding claim_refused(1) j(2) by (auto simp: row_ok_def on_its_way_def process_ok_def)
  qed (simp add: claim_refused(1))
next
  case (make i)
  then show ?thesis using assms(1)
    by (auto simp: qinv_def row_ok_def process_ok_def on_its_way_def made_by_make)
next
  case (complete i t res)
  show ?thesis
  proof (rule qinvI[OF assms(1)])
    show "process_ok m'" using assms(1) unfolding complete(1) by (auto simp: qinv_def process_ok_def)
    fix j' assume "j' \<in> set (rows m')"
    then obtain j where j: "j \<in> set (rows m)" "j' = (if j_id j = i then complete_row t res j else j)"
      unfolding complete(1) by (auto simp: rewrite_mem)
    then show "row_ok m' j'" using qinv_row[OF assms(1) j(1)] complete(2,3)
      unfolding complete(1) j(2) by (auto simp: row_ok_def on_its_way_def)
  qed (simp add: complete(1))
next
  case (fail i recorded t x)
  show ?thesis
  proof (rule qinvI[OF assms(1)])
    show "process_ok m'" using assms(1) unfolding fail(1) by (auto simp: qinv_def process_ok_def)
    fix j' assume "j' \<in> set (rows m')"
    then obtain j where j: "j \<in> set (rows m)" "j' = (if recorded \<and> j_id j = i then fail_row t x j else j)"
      unfolding fail(1) by (cases recorded) (auto simp: rewrite_mem)
    then show "row_ok m' j'" using qinv_row[OF assms(1) j(1)] fail(2)
      unfolding fail(1) j(2) by (auto simp: row_ok_def on_its_way_def split: if_splits)
  qed (simp add: fail(1))
next
  case crash
  have "row_ok m' j" if "j \<in> set (rows m)" for j
    using qinv_row[OF assms(1) that] unfolding crash(1) by (auto simp: row_ok_def split: if_splits)
  then show ?thesis using assms(1) unfolding crash(1) by (auto simp: qinv_def process_ok_def)
next
  case (restart recorded)
  show ?thesis
  proof (rule qinvI[OF assms(1)])
    show "process_ok m'" using assms(1) unfolding restart(1) by (auto simp: qinv_def process_ok_def)
    fix j' assume "j' \<in> set (rows m')"
    then obtain j where j: "j \<in> set (rows m)" "j' = (if recorded \<and> pending j then requeue_row j else j)"
      unfolding restart(1) by (cases recorded) (auto simp: requeued_mem)
    have "pending j \<Longrightarrow> j_id j \<in> set (recovered (rows m))" using j(1) by (auto simp: recovered_def)
    then show "row_ok m' j'" using qinv_row[OF assms(1) j(1)] qinv_process[OF assms(1)] restart(2)
      unfolding restart(1) j(2)
      by (auto simp: row_ok_def on_its_way_def process_ok_def pending_def requeue_row_def made_by_def)
  qed (simp add: restart(1))
qed


interpretation queue: invariant_system qstart qstep qinv
proof
  show "qstart m \<Longrightarrow> qinv m" for m
    by (simp add: qstart_def qinv_def process_ok_def)
qed (rule qinv_step)

section \<open>Properties\<close>


text \<open>
  What has ended stays as it ended: no step, not even a crash followed by the recovery at the next
  start, changes the row of a completed or failed job.
\<close>

theorem ended_jobs_are_final:
  assumes "qstart m\<^sub>0" and "qstep\<^sup>*\<^sup>* m\<^sub>0 m" and "qstep\<^sup>*\<^sup>* m m'"
    and "j \<in> set (rows m)" and "j_status j \<in> {COMPLETED, FAILED}"
  shows "j \<in> set (rows m')"
  using assms(3)
proof (induction rule: rtranclp_induct)
  case (step y z)
  have inv: "qinv y" using queue.inv_reachable[OF assms(1)] assms(2) step.hyps(1) by (metis rtranclp_trans)
  have r: "row_ok y j" using qinv_row[OF inv step.IH] .
  have n: "running y \<noteq> Some (j_id j)" using r assms(5) by (auto simp: row_ok_def)
  have c: "\<not> claimable i j" for i using assms(5) by (auto simp: claimable_def)
  have u: "x = j" if "x \<in> set (rows y)" "j_id x = j_id j" for x using qinv_unique[OF inv that(1) step.IH that(2)] .
  from step.hyps(2) show ?case
  proof cases
    case (claim i t)
    then show ?thesis using step.IH c[of i] by (auto simp: claimed_mem)
  next
    case (claim_refused i recorded t x)
    then obtain k where "k \<in> set (rows y)" "claimable i k" unfolding count_rows_0_iff by blast
    then have "j_id j \<noteq> i" using u[of k] c[of i] unfolding claimable_def by metis
    then show ?thesis using step.IH claim_refused(1) by (auto simp: rewrite_mem)
  next
    case (complete i t res)
    then show ?thesis using step.IH n by (auto simp: rewrite_mem)
  next
    case (fail i recorded t x)
    then show ?thesis using step.IH n by (auto simp: rewrite_mem)
  next
    case (restart recorded)
    moreover have "\<not> pending j" using assms(5) by (auto simp: pending_def)
    ultimately show ?thesis using step.IH by (auto simp: requeued_mem intro!: bexI[of _ j])
  qed (use step.IH in simp_all)
qed (rule assms(4))


section \<open>The program refines the machine\<close>

lemma jobs_rows [simp]:
  "jobs (set_job i f d) = rewrite i f (jobs d)" "jobs (claim_rows i t d) = claimed i t (jobs d)"
  "jobs (requeue_rows d) = requeued (jobs d)"
  by (simp_all add: set_job_def rewrite_def claim_rows_def claimed_def requeue_rows_def requeued_def)

lemma record_failure_cases:
  "\<exists>s' recorded t. record_failure e i x s = (Inr (), s') \<and>
     jobs (db s') = (if recorded then rewrite i (fail_row t x) (jobs (db s)) else jobs (db s))"
proof -
  obtain r s' where run: "record_failure e i x s = (r, s')" by fastforce
  have "wp (record_failure e i x) (\<lambda>_ s'. db s' = db s \<or> (\<exists>t. db s' = set_job i (fail_row t x) (db s))) (\<lambda>_ _. False) s"
    by (auto simp: record_failure_def save_job_def wp_simps)
  then have "\<exists>u. r = Inr u" "db s' = db s \<or> (\<exists>t. db s' = set_job i (fail_row t x) (db s))"
    using run by (auto simp: wp_def split: sum.splits)
  then show ?thesis using run by (metis jobs_rows(1) old.unit.exhaust)
qed

text \<open>The worker's part of the machine when it holds no job.\<close>

definition resting :: "machine \<Rightarrow> machine \<Rightarrow> vm_job list \<Rightarrow> bool" where
  "resting m m' js \<longleftrightarrow> rows m' = js \<and> taken m' = None \<and> running m' = None \<and> \<not> created m' \<and>
     mem m' = mem m \<and> posting m' = posting m \<and> up m' = up m"

lemma running_ends:
  assumes "tables_ok (db s)" and "find_job (db s) i = Some job" and "j_vmid job = None"
    and "rows m = jobs (db s)" and "taken m = None" and "running m = Some i" and "\<not> created m"
  shows "\<exists>m' s'. catch (run_claimed e i) (record_failure e i) s = (Inr (), s') \<and> qstep\<^sup>*\<^sup>* m m' \<and> resting m m' (jobs (db s'))"
proof -
  have failing: "\<exists>m' s'. record_failure e i x s2 = (Inr (), s') \<and> qstep\<^sup>*\<^sup>* n m' \<and> resting n m' (jobs (db s'))"
    if "rows n = jobs (db s2)" "taken n = None" "running n = Some i" for x s2 n
  proof -
    obtain s' recorded t where s': "record_failure e i x s2 = (Inr (), s')"
      "jobs (db s') = (if recorded then rewrite i (fail_row t x) (jobs (db s2)) else jobs (db s2))"
      using record_failure_cases by blast
    let ?m = "n\<lparr>rows := (if recorded then rewrite i (fail_row t x) (rows n) else rows n), running := None,
       created := False, lost := (lost n \<or> \<not> recorded)\<rparr>"
    have "qstep n ?m" using qstep.fail[OF that(3)] .
    moreover have "resting n ?m (jobs (db s'))" using s'(2) that by (simp add: resting_def)
    ultimately show ?thesis using s'(1) by blast
  qed
  show ?thesis
  proof (cases "find (\<lambda>u. u_id u = j_user_id job) (users (db s))")
    case None
    then have run: "run_claimed e i s = (Inl (RuntimeError ''no-user''), s)"
      by (simp add: run_claimed_def seq_def gets_def assms(2,3) raise_def)
    show ?thesis using failing[OF assms(4,5,6)] by (simp add: catch_def run)
  next
    case (Some u)
    obtain r s1 where c: "create_vm e u (j_payload job) s = (r, s1)" by fastforce
    note j1 = create_vm_frame(1)[OF c]
    have run: "run_claimed e i s = seq (\<lambda>_. (r, s1)) (\<lambda>res. seq now (\<lambda>t. save_job e i (complete_row t res))) s"
      by (simp add: run_claimed_def seq_def gets_def assms(2,3) Some c)
    show ?thesis
    proof (cases r)
      case (Inl x)
      then show ?thesis using failing[of m s1 x] assms(4-6) j1 by (simp add: catch_def run seq_def)
    next
      case (Inr res)
      let ?n = "m\<lparr>created := True, made := made m @ [i]\<rparr>"
      have make: "qstep m ?n" using qstep.make[OF assms(6,7)] .
      have n: "rows ?n = jobs (db s1)" "taken ?n = None" "running ?n = Some i" "created ?n" using assms j1 by simp_all
      obtain q s2 where save: "save_job e i (complete_row (clk s1) res) s1 = (q, s2)" by fastforce
      have rn: "resting ?n = resting m" by (simp add: resting_def fun_eq_iff)
      show ?thesis
      proof (cases q)
        case (Inl x)
        then have d: "db s2 = db s1" using save
          by (auto simp: save_job_def seq_def gets_def raise_def split: if_splits dest: commit_failed)
        have "\<exists>m' s'. record_failure e i x s2 = (Inr (), s') \<and> qstep\<^sup>*\<^sup>* ?n m' \<and> resting ?n m' (jobs (db s'))"
          by (rule failing) (use n d in simp_all)
        then show ?thesis using make save Inl unfolding rn
          by (simp add: catch_def run Inr seq_def now_def gets_def) (metis converse_rtranclp_into_rtranclp)
      next
        case (Inr ok)
        then have d: "db s2 = set_job i (complete_row (clk s1) res) (db s1)" using save
          by (auto simp: save_job_def seq_def gets_def raise_def split: if_splits dest: commit_constraints)
        have "qstep ?n (?n\<lparr>rows := rewrite i (complete_row (clk s1) res) (rows ?n), running := None, created := False\<rparr>)"
          by (rule qstep.complete) (use n in simp_all)
        moreover have "resting m (?n\<lparr>rows := rewrite i (complete_row (clk s1) res) (rows ?n), running := None, created := False\<rparr>) (jobs (db s2))"
          using n d assms(5) by (simp add: resting_def)
        moreover have "catch (run_claimed e i) (record_failure e i) s = (Inr (), s2)"
          using save Inr \<open>r = Inr res\<close> by (simp add: catch_def run seq_def now_def gets_def)
        ultimately show ?thesis using make by (meson converse_rtranclp_into_rtranclp r_into_rtranclp)
      qed
    qed
  qed
qed



section \<open>A crash\<close>

definition sample_machine :: machine where
  "sample_machine = \<lparr>rows = [], mem = [], posting = [], taken = None, running = None, created = False,
     up = True, lost = False, made = []\<rparr>"

definition crash_job :: vm_job where
  "crash_job = new_job ''b'' (sample_user 7 USER) sample_request 0"

text \<open>A machine whose worker runs the job, claimed at time \<open>t\<close> from the row \<open>j\<close>, having made \<open>ms\<close>.\<close>

definition at_work :: "vm_job \<Rightarrow> string list \<Rightarrow> machine" where
  "at_work j ms = \<lparr>rows = [claim_row 1 j], mem = [], posting = [], taken = None, running = Some (j_id j),
     created = False, up = True, lost = False, made = ms\<rparr>"

lemma take_and_claim:
  assumes "j_status j = QUEUED"
  shows "qstep\<^sup>*\<^sup>* \<lparr>rows = [j], mem = [j_id j], posting = [], taken = None, running = None, created = False,
      up = True, lost = False, made = ms\<rparr> (at_work j ms)"
proof -
  let ?m = "\<lparr>rows = [j], mem = [j_id j], posting = [], taken = None, running = None, created = False,
      up = True, lost = False, made = ms\<rparr>"
  have t: "qstep ?m (?m\<lparr>mem := [], taken := Some (j_id j)\<rparr>)" by (rule qstep.take) simp_all
  have "qstep (?m\<lparr>mem := [], taken := Some (j_id j)\<rparr>) (at_work j ms)"
    using qstep.claim[of "?m\<lparr>mem := [], taken := Some (j_id j)\<rparr>" "j_id j" 1] assms
    by (simp add: at_work_def claimed_def update_rows_def claimable_def)
  with t show ?thesis by (meson converse_rtranclp_into_rtranclp r_into_rtranclp)
qed

lemma requested_and_claimed: "qstep\<^sup>*\<^sup>* sample_machine (at_work crash_job [])"
proof -
  have s: "qstep sample_machine (sample_machine\<lparr>rows := [crash_job], posting := [''b'']\<rparr>)"
    using qstep.submit[of sample_machine "''b''" "sample_user 7 USER" sample_request 0]
    by (simp add: sample_machine_def crash_job_def)
  have p: "qstep (sample_machine\<lparr>rows := [crash_job], posting := [''b'']\<rparr>)
      \<lparr>rows = [crash_job], mem = [j_id crash_job], posting = [], taken = None, running = None, created = False,
       up = True, lost = False, made = []\<rparr>"
    using qstep.post[of "sample_machine\<lparr>rows := [crash_job], posting := [''b'']\<rparr>" "''b''"]
    by (simp add: sample_machine_def crash_job_def)
  have q: "j_status crash_job = QUEUED" by (simp add: crash_job_def)
  show ?thesis using s p take_and_claim[OF q, of "[]"] by (meson converse_rtranclp_into_rtranclp)
qed

text \<open>The process dies after \<open>create_vm\<close> has returned and before the job is committed; then it is started again.\<close>

lemma crash_after_make:
  "qstep\<^sup>*\<^sup>* (at_work crash_job [])
     (at_work (requeue_row (claim_row 1 crash_job)) [''b''])"
proof -
  let ?a = "at_work crash_job []"
  let ?c = "?a\<lparr>created := True, made := [''b'']\<rparr>"
  let ?d = "?c\<lparr>mem := [], posting := [], taken := None, running := None, created := False, up := False\<rparr>"
  let ?j = "requeue_row (claim_row 1 crash_job)"
  have i: "j_id crash_job = ''b''" by (simp add: crash_job_def)
  have "qstep ?a ?c" using qstep.make[of ?a "''b''"] by (simp add: at_work_def i)
  moreover have "qstep ?c ?d" by (rule qstep.crash) (simp add: at_work_def)
  moreover have "qstep ?d \<lparr>rows = [?j], mem = [j_id ?j], posting = [], taken = None, running = None, created = False,
       up = True, lost = False, made = [''b'']\<rparr>"
    using qstep.restart[of ?d True] by (simp add: at_work_def requeued_def update_rows_def recovered_def pending_def)
  moreover have q: "j_status ?j = QUEUED" by (simp add: requeue_row_def)
  ultimately show ?thesis using take_and_claim[OF q, of "[''b'']"] by (meson converse_rtranclp_into_rtranclp)
qed


section \<open>Witnesses\<close>

lemma sample_machine_start: "qstart sample_machine"
  by (simp add: qstart_def sample_machine_def)


text \<open>The worker fails the job; then the process dies.\<close>

lemma ended_jobs_are_final_witness:
  "\<exists>m' :: machine. \<not> up m' \<and> fail_row 2 OtherException (claim_row 1 crash_job) \<in> set (rows m')"
proof -
  let ?f = "fail_row 2 OtherException (claim_row 1 crash_job)"
  let ?a = "at_work crash_job []"
  let ?m = "?a\<lparr>rows := [?f], running := None\<rparr>"
  let ?d = "?m\<lparr>mem := [], posting := [], taken := None, running := None, created := False, up := False\<rparr>"
  have "qstep ?a ?m"
    using qstep.fail[of ?a "''b''" True 2 OtherException] by (simp add: at_work_def rewrite_def update_rows_def crash_job_def)
  then have m: "qstep\<^sup>*\<^sup>* sample_machine ?m"
    using requested_and_claimed by (meson rtranclp.rtrancl_into_rtrancl)
  have d: "qstep\<^sup>*\<^sup>* ?m ?d" by (intro r_into_rtranclp qstep.crash) (simp add: at_work_def)
  have "?f \<in> set (rows ?d)"
    by (rule ended_jobs_are_final[OF sample_machine_start m d]) simp_all
  then show ?thesis by (intro exI[of _ ?d]) simp
qed


end
