(* ===== verification/Codec.thy ===== *)
theory Codec
  imports World
begin

text \<open>
  The decoders of Python's standard library that the backend applies to replies of the guest agent:
  \<open>base64.b64decode\<close> in its lenient mode, and \<open>bytes.decode(errors="ignore")\<close>; and the encoder
  \<open>base64.urlsafe_b64encode\<close> that PKCE and the key derivation use. Bytes are \<open>char\<close>s.
\<close>

section \<open>base64\<close>

definition b64_alphabet :: string where
  "b64_alphabet = ascii_uppercase @ ascii_lowercase @ digits @ ''+/''"

definition url_alphabet :: string where
  "url_alphabet = ascii_uppercase @ ascii_lowercase @ digits @ ''-_''"

definition sextet_of :: "string \<Rightarrow> char \<Rightarrow> nat option" where
  "sextet_of alphabet c = map_of (zip alphabet [0..<64]) c"

text \<open>
  \<open>binascii.a2b_base64\<close>: \<open>quad\<close> counts the characters of the current group, \<open>left\<close> holds the bits not yet
  written, \<open>pads\<close> the padding seen. A character outside the alphabet is skipped; enough padding ends the
  input; an unfinished group at the end is an error (None).
\<close>

fun b64_scan :: "nat \<Rightarrow> nat \<Rightarrow> nat \<Rightarrow> string \<Rightarrow> string option" where
  "b64_scan quad left pads [] = (if quad = 0 then Some [] else None)"
| "b64_scan quad left pads (c # cs) =
     (if c = CHR ''='' then
        (if 2 \<le> quad then (if 4 \<le> quad + (pads + 1) then Some [] else b64_scan quad left (pads + 1) cs)
         else b64_scan quad left pads cs)
      else case sextet_of b64_alphabet c of
        None \<Rightarrow> b64_scan quad left pads cs
      | Some v \<Rightarrow>
          if quad = 0 then b64_scan 1 v 0 cs
          else if quad = 1 then map_option (Cons (char_of (left * 4 + v div 16))) (b64_scan 2 (v mod 16) 0 cs)
          else if quad = 2 then map_option (Cons (char_of (left * 16 + v div 4))) (b64_scan 3 (v mod 4) 0 cs)
          else map_option (Cons (char_of (left * 64 + v))) (b64_scan 0 0 0 cs))"

text \<open>A \<open>str\<close> argument has to be ASCII, or \<open>ValueError\<close> is raised.\<close>

definition b64decode :: "string \<Rightarrow> exn + string" where
  "b64decode s =
     (if \<not> list_all (\<lambda>c. (of_char c :: nat) < 128) s then Inl (ValueError ''ascii'')
      else case b64_scan 0 0 0 s of None \<Rightarrow> Inl (ValueError ''base64'') | Some bs \<Rightarrow> Inr bs)"

fun b64_groups :: "string \<Rightarrow> string \<Rightarrow> string" where
  "b64_groups alphabet (a # b # c # cs) =
     (let x = (of_char a :: nat); y = (of_char b :: nat); z = (of_char c :: nat)
      in alphabet ! (x div 4) # alphabet ! (x mod 4 * 16 + y div 16) #
         alphabet ! (y mod 16 * 4 + z div 64) # alphabet ! (z mod 64) # b64_groups alphabet cs)"
| "b64_groups alphabet [a, b] =
     (let x = (of_char a :: nat); y = (of_char b :: nat)
      in [alphabet ! (x div 4), alphabet ! (x mod 4 * 16 + y div 16), alphabet ! (y mod 16 * 4), CHR ''=''])"
| "b64_groups alphabet [a] =
     (let x = (of_char a :: nat) in [alphabet ! (x div 4), alphabet ! (x mod 4 * 16), CHR ''='', CHR ''=''])"
| "b64_groups alphabet [] = []"

definition b64encode :: "string \<Rightarrow> string" where
  "b64encode = b64_groups b64_alphabet"

definition urlsafe_b64encode :: "string \<Rightarrow> string" where
  "urlsafe_b64encode = b64_groups url_alphabet"

subsection \<open>Decoding what was encoded\<close>

lemma b64_alphabet_facts: "length b64_alphabet = 64" "distinct b64_alphabet" "CHR ''='' \<notin> set b64_alphabet"
  "list_all (\<lambda>c. (of_char c :: nat) < 128) b64_alphabet"
  by code_simp+

lemma pad_step [simp]:
  "b64_scan 2 l 0 ''=='' = Some []" "b64_scan 3 l 0 ''='' = Some []"
  by simp_all

lemma sextet_nth [simp]: "i < 64 \<Longrightarrow> sextet_of b64_alphabet (b64_alphabet ! i) = Some i"
  using map_of_zip_nth[of b64_alphabet "[0..<64]" i] b64_alphabet_facts(1,2) by (simp add: sextet_of_def)

lemma nth_not_pad [simp]: "i < 64 \<Longrightarrow> b64_alphabet ! i \<noteq> CHR ''=''"
  by (metis b64_alphabet_facts(1,3) nth_mem)

lemma scan_step [simp]:
  assumes "v < 64"
  shows "b64_scan 0 l p (b64_alphabet ! v # cs) = b64_scan 1 v 0 cs"
    "b64_scan (Suc 0) l p (b64_alphabet ! v # cs) = map_option (Cons (char_of (l * 4 + v div 16))) (b64_scan 2 (v mod 16) 0 cs)"
    "b64_scan 2 l p (b64_alphabet ! v # cs) = map_option (Cons (char_of (l * 16 + v div 4))) (b64_scan 3 (v mod 4) 0 cs)"
    "b64_scan 3 l p (b64_alphabet ! v # cs) = map_option (Cons (char_of (l * 64 + v))) (b64_scan 0 0 0 cs)"
  using assms by simp_all

text \<open>The bits of three bytes, as the four sextets and back.\<close>

lemma byte_split:
  fixes x y z :: nat
  assumes "x < 256" "y < 256" "z < 256"
  shows "x div 4 < 64" "x mod 4 * 16 + y div 16 < 64" "y mod 16 * 4 + z div 64 < 64" "z mod 64 < 64"
    "x mod 4 * 16 < 64" "y mod 16 * 4 < 64"
    "x div 4 * 4 + (x mod 4 * 16 + y div 16) div 16 = x"
    "(x mod 4 * 16 + y div 16) mod 16 * 16 + (y mod 16 * 4 + z div 64) div 4 = y"
    "(y mod 16 * 4 + z div 64) mod 4 * 64 + z mod 64 = z"
    "x div 4 * 4 + (x mod 4 * 16) div 16 = x"
    "(x mod 4 * 16 + y div 16) mod 16 * 16 + (y mod 16 * 4) div 4 = y"
proof -
  have small: "y div 16 < 16" "z div 64 < 4" "x mod 4 < 4" "y mod 16 < 16" using assms by auto
  show "x div 4 < 64" "z mod 64 < 64" using assms by auto
  show "x mod 4 * 16 + y div 16 < 64" "y mod 16 * 4 + z div 64 < 64" "x mod 4 * 16 < 64" "y mod 16 * 4 < 64"
    using small by linarith+
  show "x div 4 * 4 + (x mod 4 * 16 + y div 16) div 16 = x"
    "(x mod 4 * 16 + y div 16) mod 16 * 16 + (y mod 16 * 4 + z div 64) div 4 = y"
    "(y mod 16 * 4 + z div 64) mod 4 * 64 + z mod 64 = z"
    "x div 4 * 4 + (x mod 4 * 16) div 16 = x"
    "(x mod 4 * 16 + y div 16) mod 16 * 16 + (y mod 16 * 4) div 4 = y"
    using small by simp_all
qed

lemma char_byte [simp]: "(of_char c :: nat) < 256"
  by (rule nat_of_char_less_256)

lemma b64_roundtrip: "b64_scan 0 0 p (b64encode bs) = Some bs"
  unfolding b64encode_def
proof (induction b64_alphabet bs arbitrary: p rule: b64_groups.induct)
  case (1 a b c cs)
  let ?x = "of_char a :: nat" let ?y = "of_char b :: nat" let ?z = "of_char c :: nat"
  note f = byte_split[of ?x ?y ?z, OF char_byte char_byte char_byte]
  have small: "?y div 16 < 16" "?z div 64 < 4" using char_byte[of b] char_byte[of c] by linarith+
  show ?case using 1[OF refl refl refl, of 0] small by (simp add: Let_def f del: b64_scan.simps(2))
next
  case (2 a b)
  let ?x = "of_char a :: nat" let ?y = "of_char b :: nat"
  note f = byte_split[of ?x ?y ?y, OF char_byte char_byte char_byte]
  have small: "?y div 16 < 16" using char_byte[of b] by linarith
  show ?case using small by (simp add: Let_def f del: b64_scan.simps(2))
next
  case (3 a)
  let ?x = "of_char a :: nat"
  note f = byte_split[of ?x ?x ?x, OF char_byte char_byte char_byte]
  show ?case by (simp add: Let_def f del: b64_scan.simps(2))
qed simp

lemma b64_groups_set: "\<forall>i < 64. P (alphabet ! i) \<Longrightarrow> P (CHR ''='') \<Longrightarrow> list_all P (b64_groups alphabet bs)"
proof (induction alphabet bs rule: b64_groups.induct)
  case (1 alphabet a b c cs)
  note f = byte_split[of "of_char a" "of_char b" "of_char c", OF char_byte char_byte char_byte]
  show ?case using 1 f by (simp add: Let_def)
next
  case (2 alphabet a b)
  note f = byte_split[of "of_char a" "of_char b" "of_char b", OF char_byte char_byte char_byte]
  show ?case using 2 f by (simp add: Let_def)
next
  case (3 alphabet a)
  note f = byte_split[of "of_char a" "of_char a" "of_char a", OF char_byte char_byte char_byte]
  show ?case using 3 f by (simp add: Let_def)
qed simp

lemma b64encode_ascii: "list_all (\<lambda>c. (of_char c :: nat) < 128) (b64encode bs)"
  unfolding b64encode_def
  by (rule b64_groups_set) (use b64_alphabet_facts(1,4) in \<open>auto simp: list_all_length\<close>)

section \<open>Lenient UTF-8\<close>

text \<open>
  \<open>bs.decode(errors="ignore")\<close>: the length a lead byte announces (0: not a lead byte), the range its first
  continuation byte has to be in, and how many of the following bytes continue it. An ill-formed sequence
  is dropped up to the first byte that does not fit.
\<close>

definition lead_length :: "char \<Rightarrow> nat" where
  "lead_length c = (let n = (of_char c :: nat)
     in if n < 0x80 then 1 else if n < 0xC2 then 0 else if n < 0xE0 then 2 else if n < 0xF0 then 3
        else if n < 0xF5 then 4 else 0)"

definition second_ok :: "char \<Rightarrow> char \<Rightarrow> bool" where
  "second_ok lead c = (let l = (of_char lead :: nat); n = (of_char c :: nat)
     in if l = 0xE0 then 0xA0 \<le> n \<and> n < 0xC0
        else if l = 0xED then 0x80 \<le> n \<and> n < 0xA0
        else if l = 0xF0 then 0x90 \<le> n \<and> n < 0xC0
        else if l = 0xF4 then 0x80 \<le> n \<and> n < 0x90
        else is_continuation c)"

definition continued :: "char \<Rightarrow> string \<Rightarrow> nat" where
  "continued lead cs = (case take (lead_length lead - 1) cs of
       [] \<Rightarrow> 0
     | c # r \<Rightarrow> if second_ok lead c then 1 + length (takeWhile is_continuation r) else 0)"

function utf8_ignore :: "string \<Rightarrow> string" where
  "utf8_ignore [] = []"
| "utf8_ignore (c # cs) =
     (let n = lead_length c; k = continued c cs
      in if n \<noteq> 0 \<and> k = n - 1 then c # take k cs @ utf8_ignore (drop k cs)
         else utf8_ignore (drop k cs))"
  by pat_completeness auto
termination by (relation "measure length") auto

lemma utf8_ignore_ascii: "list_all (\<lambda>c. (of_char c :: nat) < 128) s \<Longrightarrow> utf8_ignore s = s"
  by (induction s) (simp_all add: Let_def lead_length_def continued_def)

end
