(* ===== verification/VmQueries.thy ===== *)
theory VmQueries
  imports Codec Monitor Access Sample
begin

text \<open>
  The reading half of \<open>api/routes/vmcontrol.py\<close>: nodes and their resources, the VM lists, the state of one
  VM with its cloud-init check, metrics and snapshot lists. None of them writes to the database. Responses
  are JSON values; a date is its time, where the source answers its text.
\<close>

section \<open>Shared steps\<close>

text \<open>\<open>vm.server\<close>: a relationship without a row is None, whose attributes raise \<open>AttributeError\<close>.\<close>

definition vm_server :: "vm \<Rightarrow> (sys, server) prog" where
  "vm_server v =
     seq (gets db) (\<lambda>d.
     case find (\<lambda>r. srv_id r = vm_server_id v) (servers d) of
       None \<Rightarrow> raise AttributeError
     | Some srv \<Rightarrow> ret srv)"

definition with_vm ::
  "env \<Rightarrow> int \<Rightarrow> user \<Rightarrow> string \<Rightarrow> (vm \<Rightarrow> server \<Rightarrow> (sys, 'a) prog) \<Rightarrow> (sys, 'a) prog" where
  "with_vm e vmid u node k =
     seq (get_vm_with_owner_check vmid u (Some node)) (\<lambda>v.
     seq (vm_server v) (\<lambda>srv.
     seq (get_proxmox_for_server e srv) (\<lambda>_. k v srv)))"

text \<open>\<open>except Exception as e: raise_proxmox_http_exception(e, default_detail)\<close>.\<close>

definition pve_try :: "string \<Rightarrow> (sys, 'a) prog \<Rightarrow> (sys, 'a) prog" where
  "pve_try dflt m = catch m (\<lambda>x. raise (proxmox_http_exception x dflt))"

definition opt_time :: "int option \<Rightarrow> json" where
  "opt_time t = (case t of None \<Rightarrow> JNull | Some i \<Rightarrow> JInt i)"

text \<open>\<open>d.get(k, 0)\<close> and \<open>d.get(k, n) or n\<close>, used as numbers.\<close>

definition num_get :: "json \<Rightarrow> string \<Rightarrow> exn + rat" where
  "num_get d k = andthen (obj_get d k (JInt 0)) as_num"

definition num_get_or :: "json \<Rightarrow> string \<Rightarrow> int \<Rightarrow> exn + rat" where
  "num_get_or d k n = andthen (obj_get d k (JInt n)) (\<lambda>v. as_num (json_or v (JInt n)))"

text \<open>\<open>v in s\<close> for a set of integers: numbers compare by value, a list or dict is not hashable.\<close>

definition in_int_set :: "json \<Rightarrow> int list \<Rightarrow> exn + bool" where
  "in_int_set v is =
     (if \<not> hashable v then Inl TypeError
      else Inr (case as_num v of Inl _ \<Rightarrow> False | Inr r \<Rightarrow> list_ex (\<lambda>i. r = of_int i) is))"

section \<open>Nodes\<close>

definition node_entry :: "env \<Rightarrow> server \<Rightarrow> (sys, json) prog" where
  "node_entry e srv =
     catch
       (seq (get_proxmox_for_server e srv) (\<lambda>_.
        seq (ext e (PveNodeStatus (srv_name srv))) (\<lambda>st.
        ret (JObj [(''name'', JStr (srv_name srv)), (''status'', JStr ''online''), (''detail'', st)]))))
       (\<lambda>_. ret (JObj [(''name'', JStr (srv_name srv)), (''status'', JStr ''offline''), (''detail'', JNull)]))"

definition get_nodes :: "env \<Rightarrow> user \<Rightarrow> (sys, json) prog" where
  "get_nodes e u =
     seq (lift (get_current_active_admin u)) (\<lambda>_.
     seq (gets db) (\<lambda>d.
     seq (map_each (filter srv_is_active (servers d)) (node_entry e)) (\<lambda>rs.
     ret (JObj [(''nodes'', JList rs)]))))"

definition gib :: "rat \<Rightarrow> rat" where
  "gib b = round1 (b / 1024 ^ 3)"

text \<open>The sum over the lvm-thin storages: the first value that is no number ends it.\<close>

fun sum_thin :: "rat \<times> rat \<Rightarrow> json list \<Rightarrow> rat \<times> rat" where
  "sum_thin (used, tot) [] = (used, tot)"
| "sum_thin (used, tot) (st # sts) =
     (case obj_get st ''type'' JNull of
        Inl _ \<Rightarrow> (used, tot)
      | Inr ty \<Rightarrow>
          if json_is ty ''lvmthin'' then
            (case num_get st ''used'' of
               Inl _ \<Rightarrow> (used, tot)
             | Inr u \<Rightarrow> (case num_get st ''total'' of
                 Inl _ \<Rightarrow> (used + u, tot)
               | Inr t \<Rightarrow> sum_thin (used + u, tot + t) sts))
          else sum_thin (used, tot) sts)"

definition node_numbers :: "json \<Rightarrow> exn + (rat \<times> rat \<times> rat)" where
  "node_numbers st =
     andthen (num_get st ''cpu'') (\<lambda>cpu.
     andthen (obj_get st ''memory'' (JObj [])) (\<lambda>mem.
     andthen (num_get mem ''used'') (\<lambda>used.
     andthen (num_get mem ''total'') (\<lambda>total.
     Inr (round1 (cpu * 100), gib used, gib total)))))"

definition node_resources :: "env \<Rightarrow> server \<Rightarrow> (sys, string \<times> json) prog" where
  "node_resources e srv =
     catch
       (seq (get_proxmox_for_server e srv) (\<lambda>_.
        seq (ext e (PveNodeStatus (srv_name srv))) (\<lambda>st.
        seq (lift (node_numbers st)) (\<lambda>(cpu, used, total).
        seq (catch
              (seq (ext e (PveStorageList (srv_name srv))) (\<lambda>j.
               seq (lift (as_list j)) (\<lambda>sts. ret (sum_thin (0, 0) sts))))
              (\<lambda>_. ret (0, 0))) (\<lambda>(disk_used, disk_total).
        ret (srv_name srv,
             JObj [(''online'', JBool True), (''cpu_percent'', JFloat cpu), (''mem_used_gb'', JFloat used),
                   (''mem_total_gb'', JFloat total), (''disk_used_gb'', JFloat (gib disk_used)),
                   (''disk_total_gb'', JFloat (gib disk_total))]))))))
       (\<lambda>_. ret (srv_name srv, JObj [(''online'', JBool False)]))"

definition get_nodes_resources :: "env \<Rightarrow> (sys, json) prog" where
  "get_nodes_resources e =
     seq (gets db) (\<lambda>d.
     seq (map_each (filter srv_is_active (servers d)) (node_resources e)) (\<lambda>rs. ret (JObj rs)))"

section \<open>VM lists\<close>

text \<open>\<open>[vm for vm in all_vms if vm.get('vmid') in user_vmid_set]\<close>.\<close>

fun keep_owned :: "int list \<Rightarrow> json list \<Rightarrow> exn + json list" where
  "keep_owned ids [] = Inr []"
| "keep_owned ids (x # xs) =
     andthen (obj_get x ''vmid'' JNull) (\<lambda>v.
     andthen (in_int_set v ids) (\<lambda>b.
     andthen (keep_owned ids xs) (\<lambda>ys. Inr (if b then x # ys else ys))))"

definition vms_of :: "database \<Rightarrow> user \<Rightarrow> vm list" where
  "vms_of d u = filter (\<lambda>v. vm_owner_id v = Some (u_id u)) (vms d)"

definition get_vms :: "env \<Rightarrow> string \<Rightarrow> user \<Rightarrow> (sys, json) prog" where
  "get_vms e node u =
     seq (gets db) (\<lambda>d.
     case find (\<lambda>r. srv_name r = node \<and> srv_is_active r) (servers d) of
       None \<Rightarrow> raise (Http 404 ''node-not-found'')
     | Some srv \<Rightarrow>
         seq (get_proxmox_for_server e srv) (\<lambda>_.
         pve_try ''server-error''
           (seq (ext e (PveQemuList node)) (\<lambda>all.
            if u_role u = ADMIN then ret (JObj [(''vms'', all)])
            else
              seq (lift (as_list all)) (\<lambda>xs.
              seq (lift (keep_owned (map vm_vmid (vms_of d u)) xs)) (\<lambda>ys.
              ret (JObj [(''vms'', JList ys)])))))))"

definition shown_name :: "vm \<Rightarrow> json" where
  "shown_name v = opt_json (str_or (vm_display_name v) (Some (vm_name v)))"

text \<open>The fields of a reply of \<open>status/current\<close>; any field access fails on a reply that is no object.\<close>

definition status_fields :: "json \<Rightarrow> exn + (json \<times> (string \<times> json) list)" where
  "status_fields st =
     andthen (obj_get st ''status'' (JStr ''unknown'')) (\<lambda>status.
     andthen (obj_get st ''cpu'' (JInt 0)) (\<lambda>cpu.
     andthen (obj_get st ''maxmem'' (JInt 0)) (\<lambda>maxmem.
     andthen (obj_get st ''mem'' (JInt 0)) (\<lambda>mem.
     andthen (obj_get st ''maxdisk'' (JInt 0)) (\<lambda>maxdisk.
     andthen (obj_get st ''uptime'' (JInt 0)) (\<lambda>uptime.
     Inr (status, [(''cpu_usage'', cpu), (''maxmem'', maxmem), (''mem_usage'', mem), (''maxdisk'', maxdisk),
                   (''uptime'', uptime)])))))))"

definition admin_info :: "database \<Rightarrow> server \<Rightarrow> vm \<Rightarrow> json \<times> (string \<times> json) list \<Rightarrow> json" where
  "admin_info d srv v st =
     JObj ([(''vmid'', JInt (vm_vmid v)), (''name'', shown_name v), (''node'', JStr (srv_name srv)),
            (''status'', fst st),
            (''owner_email'', opt_json (map_option u_email
               (find (\<lambda>x. vm_owner_id v = Some (u_id x)) (users d)))),
            (''internal_ip'', opt_json (vm_internal_ip v)), (''created_at'', opt_time (vm_created_at v)),
            (''expires_at'', opt_time (vm_expires_at v)), (''purpose'', opt_json (vm_purpose v)),
            (''ready'', JBool (vm_ready v))] @ snd st)"

definition admin_vm_entry :: "env \<Rightarrow> database \<Rightarrow> server \<Rightarrow> vm \<Rightarrow> (sys, json) prog" where
  "admin_vm_entry e d srv v =
     seq (catch
       (seq (get_proxmox_for_server e srv) (\<lambda>_.
        seq (ext e (PveVmStatus (srv_name srv) (vm_vmid v))) (\<lambda>j. lift (status_fields j))))
       (\<lambda>_. ret (JStr ''unknown'', []))) (\<lambda>st.
     ret (admin_info d srv v st))"

definition get_all_vms :: "env \<Rightarrow> user \<Rightarrow> (sys, json) prog" where
  "get_all_vms e u =
     seq (lift (get_current_active_admin u)) (\<lambda>_.
     seq (gets db) (\<lambda>d.
     seq (map_each (filter srv_is_active (servers d)) (\<lambda>srv.
            seq (map_each (filter (\<lambda>v. vm_server_id v = srv_id srv) (vms d)) (admin_vm_entry e d srv)) (\<lambda>rs.
            ret (JObj [(''name'', JStr (srv_name srv)), (''vms'', JList rs)])))) (\<lambda>nodes.
     ret (JObj [(''nodes'', JList nodes)]))))"

section \<open>The caller's VMs\<close>

definition PROVISIONING_UPTIME_THRESHOLD_SECONDS :: int where
  "PROVISIONING_UPTIME_THRESHOLD_SECONDS = 180"

text \<open>The first-boot window: more than 0 and less than 180 seconds after the creation.\<close>

definition in_first_boot_window :: "int option \<Rightarrow> int \<Rightarrow> bool" where
  "in_first_boot_window created t = (case created of
       None \<Rightarrow> False
     | Some c \<Rightarrow> 0 < t - c \<and> t - c < PROVISIONING_UPTIME_THRESHOLD_SECONDS * second)"

definition my_info :: "server \<Rightarrow> vm \<Rightarrow> json \<times> (string \<times> json) list \<Rightarrow> json" where
  "my_info srv v st =
     JObj ([(''vmid'', JInt (vm_vmid v)), (''name'', shown_name v), (''node'', JStr (srv_name srv)),
            (''status'', fst st), (''internal_ip'', opt_json (vm_internal_ip v)),
            (''created_at'', opt_time (vm_created_at v)), (''expires_at'', opt_time (vm_expires_at v)),
            (''purpose'', opt_json (vm_purpose v)), (''ready'', JBool (vm_ready v))] @ snd st)"

text \<open>
  One VM: the connection is looked up once per server (\<open>seen\<close> are the servers of \<open>proxmox_cache\<close>), and any
  exception leaves the fields set so far.
\<close>

definition my_vm_entry :: "env \<Rightarrow> int list \<Rightarrow> vm \<Rightarrow> (sys, json \<times> int list) prog" where
  "my_vm_entry e seen v =
     seq (vm_server v) (\<lambda>srv.
     seq (if vm_server_id v \<in> set seen then ret (True, seen)
          else catch (seq (get_proxmox_for_server e srv) (\<lambda>_. ret (True, vm_server_id v # seen)))
                 (\<lambda>_. ret (False, seen))) (\<lambda>(connected, seen').
     if \<not> connected then ret (my_info srv v (JStr ''unknown'', []), seen')
     else
       seq (catch
         (seq (ext e (PveVmStatus (srv_name srv) (vm_vmid v))) (\<lambda>j.
          seq (lift (status_fields j)) (\<lambda>st.
          seq now (\<lambda>t.
          ret (fst st, snd st @ [(''provisioning'',
                 JBool (obj_get j ''status'' JNull = Inr (JStr ''running'') \<and>
                        in_first_boot_window (vm_created_at v) t))])))))
         (\<lambda>_. ret (JStr ''unknown'', []))) (\<lambda>st.
       ret (my_info srv v st, seen'))))"

fun my_vm_entries :: "env \<Rightarrow> int list \<Rightarrow> vm list \<Rightarrow> (sys, json list) prog" where
  "my_vm_entries e seen [] = ret []"
| "my_vm_entries e seen (v # vs) =
     seq (my_vm_entry e seen v) (\<lambda>(info, seen').
     seq (my_vm_entries e seen' vs) (\<lambda>infos. ret (info # infos)))"

definition get_my_vms :: "env \<Rightarrow> user \<Rightarrow> (sys, json) prog" where
  "get_my_vms e u =
     seq (gets db) (\<lambda>d.
     seq (my_vm_entries e [] (vms_of d u)) (\<lambda>infos. ret (JList infos)))"

lemma my_vm_entries_code [code]:
  "my_vm_entries e seen [] s = (Inr [], s)"
  "my_vm_entries e seen (v # vs) s =
     seq (my_vm_entry e seen v) (\<lambda>(info, seen').
     seq (my_vm_entries e seen' vs) (\<lambda>infos. ret (info # infos))) s"
  by (simp_all add: ret_def)

section \<open>Cloud-init\<close>

definition decode_marker :: "json \<Rightarrow> exn + string" where
  "decode_marker out =
     andthen (obj_get out ''out-data'' (JStr [])) (\<lambda>v.
     case v of JStr s \<Rightarrow> andthen (b64decode s) (\<lambda>bs. Inr (utf8_ignore bs)) | _ \<Rightarrow> Inl TypeError)"

definition check_cloud_init_provisioning :: "env \<Rightarrow> string \<Rightarrow> int \<Rightarrow> int option \<Rightarrow> (sys, bool) prog" where
  "check_cloud_init_provisioning e node vmid created =
     seq now (\<lambda>t.
     if \<not> in_first_boot_window created t then ret False
     else catch
       (seq (ext e (PveAgentExec node vmid)) (\<lambda>result.
        seq (lift (obj_get result ''pid'' JNull)) (\<lambda>pid.
        seq (sleep second) (\<lambda>_.
        seq (ext e (PveAgentExecStatus node vmid pid)) (\<lambda>out.
        seq (lift (decode_marker out)) (\<lambda>stdout.
        ret (\<not> py_contains stdout ''OK'')))))))
       (\<lambda>_. ret True))"

section \<open>One VM\<close>

definition status_response :: "server \<Rightarrow> vm \<Rightarrow> json \<Rightarrow> bool \<Rightarrow> exn + json" where
  "status_response srv v st provisioning =
     andthen (obj_get st ''status'' (JStr ''unknown'')) (\<lambda>status.
     andthen (obj_get st ''cpus'' (JInt (vm_cores v))) (\<lambda>cpus.
     andthen (obj_get st ''maxmem'' (JInt 0)) (\<lambda>maxmem.
     andthen (obj_get st ''maxdisk'' (JInt 0)) (\<lambda>maxdisk.
     andthen (obj_get st ''uptime'' (JInt 0)) (\<lambda>uptime.
     andthen (obj_get st ''cpu'' (JInt 0)) (\<lambda>cpu.
     andthen (obj_get st ''mem'' (JInt 0)) (\<lambda>mem.
     Inr (JObj [(''name'', shown_name v), (''status'', status), (''provisioning'', JBool provisioning),
       (''cpus'', cpus), (''maxmem'', maxmem), (''maxdisk'', maxdisk), (''uptime'', uptime), (''cpu'', cpu),
       (''mem'', mem), (''internal_ip'', opt_json (vm_internal_ip v)), (''vm_password'', opt_json (vm_password v)),
       (''created_at'', opt_time (vm_created_at v)), (''expires_at'', opt_time (vm_expires_at v)),
       (''purpose'', opt_json (vm_purpose v)), (''ready'', JBool (vm_ready v)),
       (''node'', JStr (srv_name srv)), (''public_ip'', JStr (srv_ip_address srv))]))))))))"

definition get_vm_status :: "env \<Rightarrow> string \<Rightarrow> int \<Rightarrow> user \<Rightarrow> (sys, json) prog" where
  "get_vm_status e node vmid u =
     with_vm e vmid u node (\<lambda>v srv.
     pve_try ''server-error''
       (seq (ext e (PveVmStatus (srv_name srv) vmid)) (\<lambda>st.
        seq (lift (obj_get st ''status'' JNull)) (\<lambda>status.
        seq (if json_is status ''running''
             then check_cloud_init_provisioning e (srv_name srv) vmid (vm_created_at v)
             else ret False) (\<lambda>provisioning.
        lift (status_response srv v st provisioning))))))"

definition metric_point :: "json \<Rightarrow> exn + json option" where
  "metric_point p =
     andthen (obj_get p ''time'' (JInt 0)) (\<lambda>t.
     if \<not> truthy t then Inr None
     else
       andthen (num_get_or p ''cpu'' 0) (\<lambda>cpu.
       andthen (num_get_or p ''maxmem'' 1) (\<lambda>maxmem.
       andthen (num_get_or p ''mem'' 0) (\<lambda>mem.
       andthen (num_get_or p ''netin'' 0) (\<lambda>netin.
       andthen (num_get_or p ''netout'' 0) (\<lambda>netout.
       andthen (num_get_or p ''diskread'' 0) (\<lambda>diskread.
       andthen (num_get_or p ''diskwrite'' 0) (\<lambda>diskwrite.
       andthen (as_int t) (\<lambda>i.
       Inr (Some (JObj [(''time'', JInt i), (''cpu'', JFloat (round1 (cpu * 100))),
         (''mem_used'', JFloat (round1 (mem / 1024 ^ 2))), (''mem_total'', JFloat (round1 (maxmem / 1024 ^ 2))),
         (''mem_percent'', JFloat (round1 (mem / maxmem * 100))), (''netin'', JFloat (round1 (netin / 1024))),
         (''netout'', JFloat (round1 (netout / 1024))), (''diskread'', JFloat (round1 (diskread / 1024))),
         (''diskwrite'', JFloat (round1 (diskwrite / 1024)))])))))))))))"

fun metric_points :: "json list \<Rightarrow> exn + json list" where
  "metric_points [] = Inr []"
| "metric_points (p # ps) =
     andthen (metric_point p) (\<lambda>r.
     andthen (metric_points ps) (\<lambda>rs. Inr (case r of None \<Rightarrow> rs | Some x \<Rightarrow> x # rs)))"

definition get_vm_metrics :: "env \<Rightarrow> string \<Rightarrow> int \<Rightarrow> string \<Rightarrow> user \<Rightarrow> (sys, json) prog" where
  "get_vm_metrics e node vmid timeframe u =
     with_vm e vmid u node (\<lambda>v srv.
     let tf = (if timeframe \<notin> {''hour'', ''day''} then ''hour'' else timeframe)
     in pve_try ''server-error''
       (seq (ext e (PveRrd (srv_name srv) vmid tf)) (\<lambda>rrd.
        seq (lift (as_list rrd)) (\<lambda>ps.
        seq (lift (metric_points ps)) (\<lambda>pts.
        ret (JObj [(''vmid'', JInt vmid), (''timeframe'', JStr tf), (''data'', JList pts)]))))))"

section \<open>Snapshot lists\<close>

text \<open>\<open>(s.get("name") or "").startswith(AUTO_SNAP_PREFIX)\<close>.\<close>

definition is_auto_snap :: "json \<Rightarrow> exn + bool" where
  "is_auto_snap s =
     andthen (obj_get s ''name'' JNull) (\<lambda>n.
     case json_or n (JStr []) of JStr t \<Rightarrow> Inr (startswith t AUTO_SNAP_PREFIX) | _ \<Rightarrow> Inl AttributeError)"

text \<open>\<open>[s for s in snapshots if s.get("name") != "current"]\<close>.\<close>

fun real_snapshots :: "json list \<Rightarrow> exn + json list" where
  "real_snapshots [] = Inr []"
| "real_snapshots (s # ss) =
     andthen (obj_get s ''name'' JNull) (\<lambda>n.
     andthen (real_snapshots ss) (\<lambda>r. Inr (if json_is n ''current'' then r else s # r)))"

text \<open>\<open>{**s, k: v}\<close>.\<close>

fun obj_put :: "json \<Rightarrow> string \<Rightarrow> json \<Rightarrow> json" where
  "obj_put (JObj kvs) k v =
     JObj (if k \<in> set (map fst kvs) then map (\<lambda>kv. if fst kv = k then (k, v) else kv) kvs else kvs @ [(k, v)])"
| "obj_put j k v = j"

fun marked_snapshots :: "json list \<Rightarrow> exn + json list" where
  "marked_snapshots [] = Inr []"
| "marked_snapshots (s # ss) =
     andthen (is_auto_snap s) (\<lambda>b.
     andthen (marked_snapshots ss) (\<lambda>r. Inr (obj_put s ''is_auto'' (JBool b) # r)))"

definition list_snapshots :: "env \<Rightarrow> string \<Rightarrow> int \<Rightarrow> user \<Rightarrow> (sys, json) prog" where
  "list_snapshots e node vmid u =
     with_vm e vmid u node (\<lambda>v srv.
     pve_try ''server-error''
       (seq (ext e (PveSnapshotList (srv_name srv) vmid)) (\<lambda>j.
        seq (lift (as_list j)) (\<lambda>ss.
        seq (lift (real_snapshots ss)) (\<lambda>rs.
        seq (lift (marked_snapshots rs)) (\<lambda>ms. ret (JList ms)))))))"

definition get_auto_snapshot :: "string \<Rightarrow> int \<Rightarrow> user \<Rightarrow> (sys, bool) prog" where
  "get_auto_snapshot node vmid u =
     seq (get_vm_with_owner_check vmid u (Some node)) (\<lambda>v. ret (vm_auto_snapshot v))"

section \<open>Runs\<close>

text \<open>What it means that a step returns; the facts turn the run of a handler into the runs of its steps.\<close>

named_theorems run_iffs "when a step returns a value"

lemma ext_Inr_iff [run_iffs]:
  "ext e c s = (Inr j, s') \<longleftrightarrow> answer e (calls s) c = Inr j \<and> s' = called e c s"
  by (auto simp: ext_eq)

lemma now_Inr_iff [run_iffs]: "now s = (Inr t, s') \<longleftrightarrow> t = clk s \<and> s' = s"
  by (auto simp: now_def)

lemma pve_try_Inr_iff [run_iffs]: "pve_try dflt m s = (Inr r, s') \<longleftrightarrow> m s = (Inr r, s')"
  by (auto simp: pve_try_def catch_def raise_def split: prod.splits sum.splits)

lemma vm_server_Inr_iff [run_iffs]: "vm_server v s = (Inr srv, s') \<longleftrightarrow>
    s' = s \<and> find (\<lambda>r. srv_id r = vm_server_id v) (servers (db s)) = Some srv"
  by (auto simp: vm_server_def seq_def gets_def raise_def ret_def split: option.splits)

lemma catch_ret_Inr_iff [run_iffs]: "catch m (\<lambda>_. ret d) s = (Inr r, s') \<longleftrightarrow>
    m s = (Inr r, s') \<or> (\<exists>x. m s = (Inl x, s') \<and> r = d)"
  by (auto simp: catch_def ret_def split: prod.splits sum.splits)

lemma catch_raise_Inr_iff [run_iffs]: "catch m (\<lambda>x. raise (f x)) s = (Inr r, s') \<longleftrightarrow> m s = (Inr r, s')"
  by (auto simp: catch_def raise_def split: prod.splits sum.splits)

lemmas owned_iff [run_iffs] = get_vm_Inr_iff

lemmas seq_run_iff [run_iffs] = seq_Inr_iff

lemma with_vm_Inr_iff [run_iffs]: "with_vm e vmid u node k s = (Inr r, s') \<longleftrightarrow>
    (\<exists>v srv s1. find_owned_vm vmid u (Some node) (db s) = Some v \<and>
       find (\<lambda>x. srv_id x = vm_server_id v) (servers (db s)) = Some srv \<and>
       get_proxmox_for_server e srv s = (Inr (), s1) \<and> k v srv s1 = (Inr r, s'))"
  by (auto simp: with_vm_def run_iffs)

section \<open>Frames\<close>

lemma keeps_vm_server [keeps_intros]: "keeps f (vm_server v)"
  unfolding vm_server_def by (intro keeps_intros)

lemma keeps_with_vm [keeps_intros]: "(\<And>v srv. keeps db (k v srv)) \<Longrightarrow> keeps db (with_vm e vmid u node k)"
  unfolding with_vm_def by (intro keeps_intros)

lemma keeps_pve_try [keeps_intros]: "keeps f m \<Longrightarrow> keeps f (pve_try dflt m)"
  unfolding pve_try_def by (intro keeps_intros)

lemma keeps_cloud_init [keeps_intros]: "keeps db (check_cloud_init_provisioning e node vmid c)"
  unfolding check_cloud_init_provisioning_def by (intro keeps_intros)

lemma undoes_with_vm [undoes_intros]: "(\<And>v srv. undoes (k v srv)) \<Longrightarrow> undoes (with_vm e vmid u node k)"
  unfolding with_vm_def by (intro undoes_intros keeps_intros)

lemma undoes_pve_try [undoes_intros]: "undoes m \<Longrightarrow> undoes (pve_try dflt m)"
  unfolding pve_try_def by (intro undoes_intros)

lemma logs_vm_server [logs_intros]: "logs A (vm_server v)"
  unfolding vm_server_def by (intro logs_intros)

lemma logs_pve_try [logs_intros]: "logs A m \<Longrightarrow> logs A (pve_try dflt m)"
  unfolding pve_try_def by (intro logs_intros)

lemma wp_vm_server [wp_simps]:
  "wp (vm_server v) Q E = (\<lambda>s. (case find (\<lambda>r. srv_id r = vm_server_id v) (servers (db s)) of
       None \<Rightarrow> E AttributeError s | Some srv \<Rightarrow> Q srv s))"
  by (rule HOL.ext) (simp add: vm_server_def wp_simps split: option.split)

text \<open>A cached connection, for evaluation: nothing is called.\<close>

lemma pve_cached: "cache_hit (conn_cache s) (srv_id srv) (clk s) \<Longrightarrow> get_proxmox_for_server e srv s = (Inr (), s)"
  by (simp add: get_proxmox_for_server_def prog_defs now_def)

section \<open>Properties\<close>

lemma cloud_init_total: "wp (check_cloud_init_provisioning e node vmid c) (\<lambda>_ _. True) (\<lambda>_ _. False) s"
  unfolding check_cloud_init_provisioning_def by (simp add: wp_simps wp_triv)

lemma cloud_init_run:
  "fst (check_cloud_init_provisioning e node vmid c s) =
     (if \<not> in_first_boot_window c (clk s) then Inr False
      else case answer e (calls s) (PveAgentExec node vmid) of
        Inl _ \<Rightarrow> Inr True
      | Inr r \<Rightarrow> (case obj_get r ''pid'' JNull of
          Inl _ \<Rightarrow> Inr True
        | Inr pid \<Rightarrow> (case answer e (calls s @ [PveAgentExec node vmid]) (PveAgentExecStatus node vmid pid) of
            Inl _ \<Rightarrow> Inr True
          | Inr out \<Rightarrow> (case decode_marker out of
              Inl _ \<Rightarrow> Inr True
            | Inr text \<Rightarrow> Inr (\<not> py_contains text ''OK'')))))"
  by (simp add: check_cloud_init_provisioning_def prog_defs now_def sleep_def ext_eq split: sum.split)

text \<open>
  The cloud-init check: outside the first three minutes after the creation a VM counts as set up and
  the guest is not asked; inside them it counts as set up exactly when the guest agent answers, and the text
  it sends, base64 encoded, contains OK. A guest that cannot be asked counts as still being set up.
\<close>

theorem cloud_init_decides:
  assumes "answer e (calls s) (PveAgentExec node vmid) = Inr (JObj [(''pid'', pid)])"
    and "answer e (calls s @ [PveAgentExec node vmid]) (PveAgentExecStatus node vmid pid) =
           Inr (JObj [(''exited'', JInt 1), (''out-data'', JStr (b64encode text))])"
    and "list_all (\<lambda>c. (of_char c :: nat) < 128) text"
  shows "fst (check_cloud_init_provisioning e node vmid c s) =
       Inr (in_first_boot_window c (clk s) \<and> \<not> py_contains text ''OK'') \<and>
     (answer e' (calls s) (PveAgentExec node vmid) = Inl x \<longrightarrow>
       fst (check_cloud_init_provisioning e' node vmid c s) = Inr (in_first_boot_window c (clk s))) \<and>
     (\<not> in_first_boot_window c (clk s) \<longrightarrow> check_cloud_init_provisioning e node vmid c s = (Inr False, s))"
proof (intro conjI impI)
  have "decode_marker (JObj [(''exited'', JInt 1), (''out-data'', JStr (b64encode text))]) = Inr text"
    using assms(3) by (simp add: decode_marker_def b64decode_def b64encode_ascii b64_roundtrip utf8_ignore_ascii)
  then show "fst (check_cloud_init_provisioning e node vmid c s) =
       Inr (in_first_boot_window c (clk s) \<and> \<not> py_contains text ''OK'')"
    using assms(1,2) by (simp add: cloud_init_run)
qed (simp_all add: cloud_init_run, simp add: check_cloud_init_provisioning_def prog_defs now_def)

definition agent_env :: "string \<Rightarrow> env" where
  "agent_env text = sample_env (\<lambda>h c. case c of
     PveAgentExec _ _ \<Rightarrow> Inr (JObj [(''pid'', JInt 9)])
   | PveAgentExecStatus _ _ _ \<Rightarrow> Inr (JObj [(''exited'', JInt 1), (''out-data'', JStr (b64encode text))])
   | _ \<Rightarrow> Inr JNull)"

lemma cloud_init_decides_witness:
  "let s = (sample_state empty_database)\<lparr>clk := minute\<rparr> in
   fst (check_cloud_init_provisioning (agent_env ''NOTYET'') ''node1'' 101 (Some 0) s) = Inr True \<and>
   fst (check_cloud_init_provisioning (agent_env ''OK'') ''node1'' 101 (Some 0) s) = Inr False"
  using cloud_init_decides[of "agent_env ''NOTYET''" "(sample_state empty_database)\<lparr>clk := minute\<rparr>" "''node1''" 101 "JInt 9"
      "''NOTYET''" "Some 0"]
    cloud_init_decides[of "agent_env ''OK''" "(sample_state empty_database)\<lparr>clk := minute\<rparr>" "''node1''" 101 "JInt 9"
      "''OK''" "Some 0"]
  by (simp add: agent_env_def sample_env_def in_first_boot_window_def time_defs
      PROVISIONING_UPTIME_THRESHOLD_SECONDS_def)

text \<open>The vmids of the objects of a list.\<close>

definition vmid_of :: "json \<Rightarrow> int option" where
  "vmid_of j = (case obj_get j ''vmid'' JNull of Inr (JInt i) \<Rightarrow> Some i | _ \<Rightarrow> None)"

lemma keep_owned_filter:
  "\<forall>x \<in> set xs. \<exists>i. obj_get x ''vmid'' JNull = Inr (JInt i) \<Longrightarrow>
   keep_owned ids xs = Inr (filter (\<lambda>x. \<exists>i \<in> set ids. vmid_of x = Some i) xs)"
  by (induction xs) (auto simp: in_int_set_def vmid_of_def list_ex_iff)

text \<open>
  The VM list of a node shows a user who is not an administrator the VMs of the node whose vmid is the
  vmid of any VM the user owns, on whatever node: the owner's node is not compared, so a foreign VM that
  has the same vmid is shown too (the witness shows one).
\<close>

theorem get_vms_compares_vmids_only:
  assumes "u_role u \<noteq> ADMIN"
    and "find (\<lambda>r. srv_name r = node \<and> srv_is_active r) (servers (db s)) = Some srv"
    and "get_proxmox_for_server e srv s = (Inr (), s1)"
    and "answer e (calls s1) (PveQemuList node) = Inr (JList xs)"
    and "\<forall>x \<in> set xs. \<exists>i. obj_get x ''vmid'' JNull = Inr (JInt i)"
  shows "fst (get_vms e node u s) = Inr (JObj [(''vms'', JList (filter
       (\<lambda>x. \<exists>v \<in> set (vms (db s)). vm_owner_id v = Some (u_id u) \<and> vmid_of x = Some (vm_vmid v)) xs))])"
proof -
  have d: "db s1 = db s" using keeps_get_proxmox assms(3) by (rule keepsD)
  have f: "(\<lambda>x. \<exists>i \<in> set (map vm_vmid (vms_of (db s) u)). vmid_of x = Some i) =
      (\<lambda>x. \<exists>v \<in> set (vms (db s)). vm_owner_id v = Some (u_id u) \<and> vmid_of x = Some (vm_vmid v))"
    by (auto simp: vms_of_def)
  show ?thesis
    using assms keep_owned_filter[OF assms(5), of "map vm_vmid (vms_of (db s) u)"] unfolding f[symmetric]
    by (simp add: get_vms_def pve_try_def prog_defs ext_eq)
qed

definition twin_db :: database where
  "twin_db = empty_database\<lparr>servers := [sample_server, sample_server\<lparr>srv_id := 2, srv_name := ''node2''\<rparr>],
     vms := [sample_vm 1 (Some 8), (sample_vm 1 (Some 7))\<lparr>vm_id := 2, vm_server_id := 2\<rparr>]\<rparr>"

definition twin_state :: sys where
  "twin_state = (sample_state twin_db)\<lparr>conn_cache := [(1, hour), (2, hour)]\<rparr>"

definition twin_env :: env where
  "twin_env = sample_env (\<lambda>h c. case c of
     PveQemuList _ \<Rightarrow> Inr (JList [JObj [(''vmid'', JInt 101), (''name'', JStr ''secret'')], JObj [(''vmid'', JInt 102)]])
   | _ \<Rightarrow> Inr JNull)"

lemma get_vms_compares_vmids_only_witness:
  "fst (get_vms twin_env ''node1'' (sample_user 7 USER) twin_state) =
     Inr (JObj [(''vms'', JList [JObj [(''vmid'', JInt 101), (''name'', JStr ''secret'')]])]) \<and>
   map vm_owner_id (filter (\<lambda>v. vm_server_id v = 1) (vms twin_db)) = [Some 8]"
proof -
  have c: "get_proxmox_for_server twin_env sample_server twin_state = (Inr (), twin_state)"
    by (rule pve_cached) (simp add: twin_state_def sample_state_def sample_server_def cache_hit_def time_defs)
  have f: "find (\<lambda>r. srv_name r = ''node1'' \<and> srv_is_active r) (servers (db twin_state)) = Some sample_server"
    by (simp add: twin_state_def sample_state_def twin_db_def sample_server_def)
  show ?thesis
    using get_vms_compares_vmids_only[of "sample_user 7 USER" "''node1''" twin_state sample_server twin_env
        twin_state "[JObj [(''vmid'', JInt 101), (''name'', JStr ''secret'')], JObj [(''vmid'', JInt 102)]]", OF _ f c]
    by (simp add: sample_user_def twin_env_def sample_env_def vmid_of_def twin_state_def sample_state_def
        twin_db_def sample_vm_def)
qed

lemma status_or_unknown_total:
  "wp (catch m (\<lambda>_. ret d)) (\<lambda>_ _. True) (\<lambda>_ _. False) s"
  by (simp add: wp_simps wp_triv)

lemma my_info_vmid [simp]: "obj_get (my_info srv v st) ''vmid'' JNull = Inr (JInt (vm_vmid v))"
  by (simp add: my_info_def)

lemma keeps_my_vm_entry [keeps_intros]: "keeps db (my_vm_entry e seen v)"
  unfolding my_vm_entry_def by (intro keeps_intros)

lemma my_vm_entry_run:
  assumes "find (\<lambda>r. srv_id r = vm_server_id v) (servers (db s)) = Some srv"
  shows "wp (my_vm_entry e seen v) (\<lambda>r s'. obj_get (fst r) ''vmid'' JNull = Inr (JInt (vm_vmid v)))
     (\<lambda>_ _. False) s"
  unfolding my_vm_entry_def using assms by (simp add: wp_simps wp_triv wp_always)

lemma my_vm_entries_run:
  assumes "\<forall>v \<in> set vs. \<exists>srv. find (\<lambda>r. srv_id r = vm_server_id v) (servers (db s)) = Some srv"
  shows "wp (my_vm_entries e seen vs)
     (\<lambda>js s'. map (\<lambda>j. obj_get j ''vmid'' JNull) js = map (\<lambda>v. Inr (JInt (vm_vmid v))) vs \<and> db s' = db s)
     (\<lambda>_ _. False) s"
  using assms
proof (induction vs arbitrary: seen s)
  case Nil
  then show ?case by (simp add: wp_simps)
next
  case (Cons v vs)
  then obtain srv where "find (\<lambda>r. srv_id r = vm_server_id v) (servers (db s)) = Some srv" by auto
  note step = wp_conj[OF my_vm_entry_run[OF this, of e seen] keeps_wp[OF keeps_my_vm_entry refl]]
  show ?case
    unfolding my_vm_entries.simps wp_seq wp_prod wp_ret
    by (rule wp_mono[OF step], rule wp_mono[OF Cons.IH]) (use Cons.prems in auto)
qed

text \<open>
  The list of the caller's VMs always comes back, whatever Proxmox answers, when every VM row has its
  server row: it has one entry per VM of the caller, in the order of the table, and none of anybody else.
\<close>

theorem get_my_vms_complete:
  assumes "\<forall>v \<in> set (vms (db s)). \<exists>srv. find (\<lambda>r. srv_id r = vm_server_id v) (servers (db s)) = Some srv"
  shows "\<exists>js s'. get_my_vms e u s = (Inr (JList js), s') \<and> db s' = db s \<and>
     map (\<lambda>j. obj_get j ''vmid'' JNull) js =
       map (\<lambda>v. Inr (JInt (vm_vmid v))) (filter (\<lambda>v. vm_owner_id v = Some (u_id u)) (vms (db s)))"
proof -
  have "wp (my_vm_entries e [] (vms_of (db s) u))
     (\<lambda>js s'. map (\<lambda>j. obj_get j ''vmid'' JNull) js = map (\<lambda>v. Inr (JInt (vm_vmid v))) (vms_of (db s) u) \<and> db s' = db s)
     (\<lambda>_ _. False) s"
    by (rule my_vm_entries_run) (use assms in \<open>auto simp: vms_of_def\<close>)
  then show ?thesis
    by (auto simp: get_my_vms_def prog_defs wp_def vms_of_def split: prod.splits sum.splits)
qed

lemma get_my_vms_complete_witness:
  "\<exists>js s'. get_my_vms (sample_env refusing) (sample_user 7 USER) twin_state = (Inr (JList js), s') \<and>
     db s' = twin_db \<and> map (\<lambda>j. obj_get j ''vmid'' JNull) js = [Inr (JInt 101)]"
proof -
  have d: "db twin_state = twin_db" by (simp add: twin_state_def sample_state_def)
  have "\<forall>v \<in> set (vms (db twin_state)). \<exists>srv. find (\<lambda>r. srv_id r = vm_server_id v) (servers (db twin_state)) = Some srv"
    unfolding d by (simp add: twin_db_def sample_vm_def sample_server_def)
  from get_my_vms_complete[OF this, of "sample_env refusing" "sample_user 7 USER"]
  show ?thesis unfolding d by (simp add: twin_db_def sample_vm_def sample_user_def)
qed

end
