(* ===== verification/VmControl.thy ===== *)
theory VmControl
  imports VmQueries JobQueue DeleteVm Schemas
begin

text \<open>
  The writing half of \<open>api/routes/vmcontrol.py\<close>: resizing, the purpose, the extension of the term, power
  control with its three gates, snapshots, and the endpoints of the creation queue and of the deletion.
  The rate limits of slowapi are decorators outside the handlers and not modelled. The snapshot guard
  serialises the requests for one VM; a handler here is one such request, and \<open>SnapshotMachine\<close> holds the
  interleavings.
\<close>

section \<open>Rows\<close>

definition set_vm :: "int \<Rightarrow> (vm \<Rightarrow> vm) \<Rightarrow> database \<Rightarrow> database" where
  "set_vm i f d = d\<lparr>vms := update_rows (\<lambda>v. vm_id v = i) f (vms d)\<rparr>"

definition save_vm :: "env \<Rightarrow> vm \<Rightarrow> (vm \<Rightarrow> vm) \<Rightarrow> (sys, unit) prog" where
  "save_vm e v f = seq (gets db) (\<lambda>d. commit e (set_vm (vm_id v) f d))"

section \<open>Resizing\<close>

text \<open>\<open>s in j\<close>: a substring of a text, an element of a list, a key of a dict.\<close>

fun json_in :: "string \<Rightarrow> json \<Rightarrow> exn + bool" where
  "json_in k (JStr t) = Inr (py_contains t k)"
| "json_in k (JList xs) = Inr (list_ex (\<lambda>x. json_is x k) xs)"
| "json_in k (JObj kvs) = Inr (k \<in> set (map fst kvs))"
| "json_in k _ = Inl TypeError"

record resize_request =
  rz_cores :: "int option"
  rz_memory :: "int option"

definition hotpluggable :: "json \<Rightarrow> exn + bool" where
  "hotpluggable config =
     andthen (obj_get config ''hotplug'' (JStr [])) (\<lambda>h.
     andthen (json_in ''cpu'' h) (\<lambda>c. if c then Inr True else json_in ''memory'' h))"

definition MAX_MEMORY :: int where "MAX_MEMORY = 16384"

definition resize_params :: "resize_request \<Rightarrow> exn + (string \<times> json) list" where
  "resize_params r =
     andthen (case rz_cores r of
        None \<Rightarrow> Inr []
      | Some c \<Rightarrow> if c \<notin> {2, 4} then Inl (Http 400 ''bad-cores'') else Inr [(''cores'', JInt c)]) (\<lambda>p1.
     andthen (case rz_memory r of
        None \<Rightarrow> Inr []
      | Some m \<Rightarrow> if \<not> (4096 \<le> m \<and> m \<le> MAX_MEMORY) then Inl (Http 400 ''bad-memory'')
                  else Inr [(''memory'', JInt m), (''balloon'', JInt (m div 2))]) (\<lambda>p2.
     Inr (p1 @ p2)))"

definition resized :: "resize_request \<Rightarrow> vm \<Rightarrow> vm" where
  "resized r v = v
     \<lparr>vm_cores := (case rz_cores r of None \<Rightarrow> vm_cores v | Some c \<Rightarrow> c),
      vm_ram_mb := (case rz_memory r of None \<Rightarrow> vm_ram_mb v | Some m \<Rightarrow> m)\<rparr>"

definition resize_vm :: "env \<Rightarrow> string \<Rightarrow> int \<Rightarrow> resize_request \<Rightarrow> user \<Rightarrow> (sys, int \<times> int) prog" where
  "resize_vm e node vmid r u =
     seq (raise_if (u_role u \<notin> {ADMIN, PROJECT_OWNER}) (Http 403 ''owner-or-admin'')) (\<lambda>_.
     with_vm e vmid u node (\<lambda>v srv.
     seq (ext e (PveVmConfig (srv_name srv) vmid)) (\<lambda>config.
     seq (lift (hotpluggable config)) (\<lambda>hot.
     seq (raise_if (\<not> hot) (Http 400 ''no-hotplug'')) (\<lambda>_.
     seq (raise_if (rz_cores r \<in> {None, Some 0} \<and> rz_memory r \<in> {None, Some 0}) (Http 400 ''nothing'')) (\<lambda>_.
     seq (lift (resize_params r)) (\<lambda>params.
     pve_try ''resize-failed''
       (seq (ext e (PveConfigPut (srv_name srv) vmid params)) (\<lambda>_.
        seq (save_vm e v (resized r)) (\<lambda>_.
        ret (vm_cores (resized r v), vm_ram_mb (resized r v))))))))))))"

section \<open>Purpose and term\<close>

definition update_vm_purpose :: "env \<Rightarrow> string \<Rightarrow> int \<Rightarrow> string \<Rightarrow> user \<Rightarrow> (sys, string) prog" where
  "update_vm_purpose e node vmid purpose u =
     seq (lift (validate_purpose purpose)) (\<lambda>p.
     seq (get_vm_with_owner_check vmid u (Some node)) (\<lambda>v.
     seq (save_vm e v (\<lambda>x. x\<lparr>vm_purpose := Some p\<rparr>)) (\<lambda>_. ret p)))"

text \<open>\<open>timedelta.days\<close> rounds down.\<close>

definition days_until :: "int \<Rightarrow> int \<Rightarrow> int" where
  "days_until expires t = (expires - t) div day"

definition extend_vm :: "env \<Rightarrow> string \<Rightarrow> int \<Rightarrow> user \<Rightarrow> (sys, int) prog" where
  "extend_vm e node vmid u =
     seq (get_vm_with_owner_check vmid u (Some node)) (\<lambda>v.
     case vm_expires_at v of
       None \<Rightarrow> raise (Http 400 ''no-expiry'')
     | Some ex \<Rightarrow>
         seq now (\<lambda>t.
         seq (raise_if (7 < days_until ex t) (Http 400 ''too-early'')) (\<lambda>_.
         seq (save_vm e v (\<lambda>x. x\<lparr>vm_expires_at := Some (ex + 14 * day)\<rparr>)) (\<lambda>_.
         ret (ex + 14 * day)))))"

section \<open>Power\<close>

text \<open>Stopping or restarting a running VM waits until cloud-init is through.\<close>

definition boot_gate :: "env \<Rightarrow> string \<Rightarrow> int \<Rightarrow> int option \<Rightarrow> vm_action \<Rightarrow> (sys, unit) prog" where
  "boot_gate e node vmid created action =
     (if action \<in> {STOP, SHUTDOWN, REBOOT} then
        seq (catch (ext e (PveVmStatus node vmid)) (\<lambda>_. ret (JObj []))) (\<lambda>current.
        seq (lift (obj_get current ''status'' JNull)) (\<lambda>status.
        if json_is status ''running'' then
          seq (check_cloud_init_provisioning e node vmid created) (\<lambda>still.
          raise_if still (Http 409 ''cloud-init''))
        else ret ()))
      else ret ())"

definition control_vm :: "env \<Rightarrow> string \<Rightarrow> int \<Rightarrow> vm_action \<Rightarrow> user \<Rightarrow> (sys, json) prog" where
  "control_vm e node vmid action u =
     seq (get_vm_with_owner_check vmid u (Some node)) (\<lambda>v.
     seq (raise_if (\<not> vm_ready v) (Http 409 ''not-ready'')) (\<lambda>_.
     seq now (\<lambda>t.
     seq (raise_if (action \<in> {START, REBOOT} \<and>
            (case vm_expires_at v of None \<Rightarrow> False | Some ex \<Rightarrow> ex \<le> t) \<and> u_role u \<noteq> ADMIN)
            (Http 403 ''expired'')) (\<lambda>_.
     seq (vm_server v) (\<lambda>srv.
     seq (get_proxmox_for_server e srv) (\<lambda>_.
     seq (boot_gate e (srv_name srv) vmid (vm_created_at v) action) (\<lambda>_.
     pve_try ''server-error'' (ext e (PvePower (srv_name srv) vmid action)))))))))"

section \<open>Snapshots\<close>

fun manual_snapshots :: "json list \<Rightarrow> exn + json list" where
  "manual_snapshots [] = Inr []"
| "manual_snapshots (s # ss) =
     andthen (is_auto_snap s) (\<lambda>b.
     andthen (manual_snapshots ss) (\<lambda>r. Inr (if b then r else s # r)))"

definition named :: "string \<Rightarrow> json \<Rightarrow> bool" where
  "named n s \<longleftrightarrow> obj_get s ''name'' JNull = Inr (JStr n)"

text \<open>The checks on the listed snapshots, in the code's order.\<close>

definition may_snapshot :: "json \<Rightarrow> string \<Rightarrow> exn + unit" where
  "may_snapshot existing name =
     andthen (as_list existing) (\<lambda>xs.
     andthen (real_snapshots xs) (\<lambda>snaps.
     if list_ex (named name) snaps then Inl (Http 400 ''duplicate-name'')
     else andthen (manual_snapshots snaps) (\<lambda>manual.
     if 2 \<le> length manual then Inl (Http 400 ''two-manual'')
     else if 3 \<le> length snaps then Inl (Http 400 ''three-snapshots'')
     else Inr ())))"

definition create_snapshot :: "env \<Rightarrow> string \<Rightarrow> int \<Rightarrow> string \<Rightarrow> string \<Rightarrow> user \<Rightarrow> (sys, json) prog" where
  "create_snapshot e node vmid name description u =
     seq (raise_if (\<not> snapshot_name_ok name) (ValueError ''snapshot-name'')) (\<lambda>_.
     with_vm e vmid u node (\<lambda>v srv.
     pve_try ''snapshot-failed''
       (seq (ext e (PveSnapshotList (srv_name srv) vmid)) (\<lambda>existing.
        seq (lift (may_snapshot existing name)) (\<lambda>_.
        ext e (PveSnapshotPost (srv_name srv) vmid name description))))))"

definition rollback_snapshot :: "env \<Rightarrow> string \<Rightarrow> int \<Rightarrow> string \<Rightarrow> user \<Rightarrow> (sys, json) prog" where
  "rollback_snapshot e node vmid name u =
     with_vm e vmid u node (\<lambda>v srv.
     pve_try ''rollback-failed'' (ext e (PveSnapshotRollback (srv_name srv) vmid name)))"

definition delete_snapshot :: "env \<Rightarrow> string \<Rightarrow> int \<Rightarrow> string \<Rightarrow> user \<Rightarrow> (sys, json) prog" where
  "delete_snapshot e node vmid name u =
     with_vm e vmid u node (\<lambda>v srv.
     pve_try ''snapshot-delete-failed'' (ext e (PveSnapshotDelete (srv_name srv) vmid name)))"

definition toggle_auto_snapshot :: "env \<Rightarrow> string \<Rightarrow> int \<Rightarrow> user \<Rightarrow> (sys, bool) prog" where
  "toggle_auto_snapshot e node vmid u =
     seq (get_vm_with_owner_check vmid u (Some node)) (\<lambda>v.
     seq (save_vm e v (\<lambda>x. x\<lparr>vm_auto_snapshot := \<not> vm_auto_snapshot v\<rparr>)) (\<lambda>_.
     ret (\<not> vm_auto_snapshot v)))"

section \<open>Creation jobs and deletion\<close>

definition create_vm_endpoint :: "env \<Rightarrow> vm_request \<Rightarrow> user \<Rightarrow> (proc, job_response) prog" where
  "create_vm_endpoint e r u =
     (case vm_create r of Inl x \<Rightarrow> raise x | Inr r' \<Rightarrow> enqueue_vm_creation e u r')"

definition get_vm_creation_job_status :: "string \<Rightarrow> user \<Rightarrow> (proc, job_response) prog" where
  "get_vm_creation_job_status i u = get_vm_creation_job i u"

definition delete_vm_endpoint :: "env \<Rightarrow> string \<Rightarrow> int \<Rightarrow> bool \<Rightarrow> user \<Rightarrow> (sys, unit) prog" where
  "delete_vm_endpoint e node vmid purge u =
     seq (get_vm_with_owner_check vmid u (Some node)) (\<lambda>v. delete_vm e v purge)"

section \<open>Frames\<close>

lemma set_vm_simps [simp]:
  "users (set_vm i f d) = users d" "servers (set_vm i f d) = servers d" "vm_ports (set_vm i f d) = vm_ports d"
  "https_routes (set_vm i f d) = https_routes d" "jobs (set_vm i f d) = jobs d" "next_id (set_vm i f d) = next_id d"
  by (simp_all add: set_vm_def)

lemma constraints_set_vm [simp]: "constraints_ok (set_vm i f d) = constraints_ok d"
  by (simp add: constraints_ok_def)

lemma tables_set_vm: "(\<And>v. vm_id (f v) = vm_id v) \<Longrightarrow> tables_ok d \<Longrightarrow> tables_ok (set_vm i f d)"
  by (auto simp: tables_ok_def ids_ok_def refs_ok_def set_vm_def map_update_rows set_update_rows constraints_ok_def)

lemma undoes_save_vm [undoes_intros]: "undoes (save_vm e v f)"
  unfolding save_vm_def by (intro undoes_intros keeps_intros)

lemma inv_save_vm [inv_intros]: "(\<And>x. vm_id (f x) = vm_id x) \<Longrightarrow> db_inv tables_ok (save_vm e v f)"
  unfolding save_vm_def by (rule db_inv_read, rule db_inv_commit) (rule tables_set_vm)

lemma save_vm_Inr: "save_vm e v f s = (Inr u, s') \<Longrightarrow> db s' = set_vm (vm_id v) f (db s)"
  by (auto simp: save_vm_def seq_Inr_iff dest: commit_constraints)

lemma save_vm_ok:
  assumes "db_answers e" and "constraints_ok (db s)"
  shows "\<exists>s'. save_vm e v f s = (Inr (), s') \<and> db s' = set_vm (vm_id v) f (db s)"
  using commit_ok[OF assms(1), of "set_vm (vm_id v) f (db s)" s] assms(2)
  by (auto simp: save_vm_def seq_def gets_def)

lemma keeps_boot_gate [keeps_intros]: "keeps db (boot_gate e n vmid c a)"
  unfolding boot_gate_def by (intro keeps_intros)

lemma keeps_control_vm [keeps_intros]: "keeps db (control_vm e node vmid action u)"
  unfolding control_vm_def by (intro keeps_intros)

section \<open>Power commands\<close>

definition is_power :: "call \<Rightarrow> bool" where
  "is_power c = (case c of PvePower _ _ _ \<Rightarrow> True | _ \<Rightarrow> False)"

definition powers :: "sys \<Rightarrow> call list" where
  "powers s = filter is_power (calls s)"

lemma logs_powerless: "logs {c. \<not> is_power c} m \<Longrightarrow> keeps powers m"
  by (auto simp: logs_def keeps_def powers_def filter_empty_conv subset_iff)
    (metis append_Nil2 filter_append filter_False)

lemma logs_cloud_init [logs_intros]: "logs {c. \<not> is_power c} (check_cloud_init_provisioning e n vmid c)"
  unfolding check_cloud_init_provisioning_def by (intro logs_intros) (simp_all add: is_power_def)

lemma logs_boot_gate [logs_intros]: "logs {c. \<not> is_power c} (boot_gate e n vmid c a)"
  unfolding boot_gate_def by (intro logs_intros) (simp_all add: is_power_def)

lemma keeps_powers [keeps_intros]:
  "keeps powers (boot_gate e n vmid c a)" "keeps powers (get_proxmox_for_server e srv)"
  by (rule logs_powerless, rule logs_intros | simp add: is_power_def)+

text \<open>What has been found when the boot gate lets an action through.\<close>

definition booted :: "env \<Rightarrow> string \<Rightarrow> int \<Rightarrow> int option \<Rightarrow> vm_action \<Rightarrow> bool" where
  "booted e node vmid created action \<longleftrightarrow> (action \<in> {STOP, SHUTDOWN, REBOOT} \<longrightarrow>
     (\<exists>h. (\<exists>x. answer e h (PveVmStatus node vmid) = Inl x) \<or>
          (\<exists>j. answer e h (PveVmStatus node vmid) = Inr j \<and> obj_get j ''status'' JNull \<noteq> Inr (JStr ''running'')) \<or>
          (\<exists>t. fst (check_cloud_init_provisioning e node vmid created t) = Inr False)))"

lemma boot_gate_booted: "boot_gate e node vmid c action s = (Inr u, s') \<Longrightarrow> booted e node vmid c action"
  unfolding booted_def
proof
  assume run: "boot_gate e node vmid c action s = (Inr u, s')" and act: "action \<in> {STOP, SHUTDOWN, REBOOT}"
  then obtain current s1 status where cur: "ext e (PveVmStatus node vmid) s = (Inr current, s1) \<or>
      (\<exists>x. ext e (PveVmStatus node vmid) s = (Inl x, s1))"
    and status: "obj_get current ''status'' JNull = Inr status"
    and rest: "(if json_is status ''running'' then
          seq (check_cloud_init_provisioning e node vmid c) (\<lambda>still. raise_if still (Http 409 ''cloud-init''))
        else ret ()) s1 = (Inr u, s')"
    unfolding boot_gate_def by (auto simp: run_iffs)
  show "\<exists>h. (\<exists>x. answer e h (PveVmStatus node vmid) = Inl x) \<or>
          (\<exists>j. answer e h (PveVmStatus node vmid) = Inr j \<and> obj_get j ''status'' JNull \<noteq> Inr (JStr ''running'')) \<or>
          (\<exists>t. fst (check_cloud_init_provisioning e node vmid c t) = Inr False)"
  proof (cases "json_is status ''running''")
    case True
    then have "fst (check_cloud_init_provisioning e node vmid c s1) = Inr False"
      using rest by (auto simp: run_iffs)
    then show ?thesis by blast
  next
    case False
    then show ?thesis using cur status
      by (auto simp: ext_eq json_is_def intro!: exI[of _ "calls s"])
  qed
qed

lemma control_vm_run:
  assumes "control_vm e node vmid action u s = (Inr r, s')"
  obtains v srv s1 s2 where "find_owned_vm vmid u (Some node) (db s) = Some v" "vm_ready v"
    "action \<in> {START, REBOOT} \<Longrightarrow> u_role u \<noteq> ADMIN \<Longrightarrow> \<forall>ex. vm_expires_at v = Some ex \<longrightarrow> clk s < ex"
    "find (\<lambda>x. srv_id x = vm_server_id v) (servers (db s)) = Some srv"
    "get_proxmox_for_server e srv s = (Inr (), s1)"
    "boot_gate e (srv_name srv) vmid (vm_created_at v) action s1 = (Inr (), s2)"
    "answer e (calls s2) (PvePower (srv_name srv) vmid action) = Inr r"
    "s' = called e (PvePower (srv_name srv) vmid action) s2"
  using assms unfolding control_vm_def by (auto simp: run_iffs linorder_not_le split: option.splits) blast


definition control_db :: database where
  "control_db = empty_database\<lparr>servers := [sample_server], vms := [sample_vm 1 (Some 7)]\<rparr>"


section \<open>Term, size and snapshots\<close>

lemma extend_vm_run:
  assumes "extend_vm e node vmid u s = (Inr x, s')"
  shows "\<exists>v ex. find_owned_vm vmid u (Some node) (db s) = Some v \<and> vm_expires_at v = Some ex \<and>
     days_until ex (clk s) \<le> 7 \<and> x = ex + 14 * day \<and>
     db s' = set_vm (vm_id v) (\<lambda>y. y\<lparr>vm_expires_at := Some x\<rparr>) (db s)"
  using assms unfolding extend_vm_def
  by (auto simp: run_iffs split: option.splits dest!: save_vm_Inr)

lemma days_until_less: "days_until ex t \<le> n \<longleftrightarrow> ex < t + (n + 1) * day"
proof -
  define q r where "q = (ex - t) div day" and "r = (ex - t) mod day"
  have split: "ex - t = q * day + r" "0 \<le> r" "r < day" unfolding q_def r_def by simp_all
  have e: "(n + 1) * day = n * day + day" by (simp add: algebra_simps)
  have "q \<le> n \<longleftrightarrow> q * day \<le> n * day" by simp
  also have "\<dots> \<longleftrightarrow> ex - t < (n + 1) * day"
  proof
    assume "q * day \<le> n * day"
    then show "ex - t < (n + 1) * day" using split e by linarith
  next
    assume "ex - t < (n + 1) * day"
    then have "q * day < (n + 1) * day" using split by linarith
    then show "q * day \<le> n * day" by simp
  qed
  finally show ?thesis by (simp add: days_until_def q_def algebra_simps)
qed



text \<open>What a request for new sizes has to be, and what the VM then has.\<close>

definition resize_ok :: "resize_request \<Rightarrow> bool" where
  "resize_ok r \<longleftrightarrow> (rz_cores r \<noteq> None \<or> rz_memory r \<noteq> None) \<and>
     (\<forall>c. rz_cores r = Some c \<longrightarrow> c = 2 \<or> c = 4) \<and>
     (\<forall>m. rz_memory r = Some m \<longrightarrow> 4096 \<le> m \<and> m \<le> 16384)"

lemma resize_params_Inr: "resize_params r = Inr ps \<Longrightarrow>
    (\<forall>c. rz_cores r = Some c \<longrightarrow> (c = 2 \<or> c = 4) \<and> map_of ps ''cores'' = Some (JInt c)) \<and>
    (\<forall>m. rz_memory r = Some m \<longrightarrow> 4096 \<le> m \<and> m \<le> 16384 \<and> map_of ps ''memory'' = Some (JInt m) \<and>
       map_of ps ''balloon'' = Some (JInt (m div 2)))"
  by (auto simp: resize_params_def andthen_Inr_iff MAX_MEMORY_def split: option.splits if_splits)

text \<open>
  Resizing: it succeeds only for a project owner or an administrator, on a VM of the caller, within
  the limits (2 or 4 cores, 4 to 16 GB); the row then holds exactly the sizes that were sent to Proxmox,
  and a resize that fails anywhere leaves the tables alone.
\<close>

theorem resize_vm_limits:
  "(\<forall>c m s'. resize_vm e node vmid r u s = (Inr (c, m), s') \<longrightarrow>
      u_role u \<in> {ADMIN, PROJECT_OWNER} \<and> resize_ok r \<and>
      (\<exists>v (srv :: server) ps. find_owned_vm vmid u (Some node) (db s) = Some v \<and>
         c = (case rz_cores r of None \<Rightarrow> vm_cores v | Some n \<Rightarrow> n) \<and>
         m = (case rz_memory r of None \<Rightarrow> vm_ram_mb v | Some n \<Rightarrow> n) \<and>
         PveConfigPut (srv_name srv) vmid ps \<in> set (calls s') \<and>
         (\<forall>n. rz_cores r = Some n \<longrightarrow> map_of ps ''cores'' = Some (JInt n)) \<and>
         (\<forall>n. rz_memory r = Some n \<longrightarrow> map_of ps ''memory'' = Some (JInt n)) \<and>
         db s' = set_vm (vm_id v) (resized r) (db s))) \<and>
   (\<forall>x s'. resize_vm e node vmid r u s = (Inl x, s') \<longrightarrow> db s' = db s)"
proof (intro conjI allI impI)
  fix c m s' assume run: "resize_vm e node vmid r u s = (Inr (c, m), s')"
  then obtain v srv s1 ps s2 s3 where *: "u_role u \<in> {ADMIN, PROJECT_OWNER}"
    "find_owned_vm vmid u (Some node) (db s) = Some v" "get_proxmox_for_server e srv s = (Inr (), s1)"
    "rz_cores r \<notin> {None, Some 0} \<or> rz_memory r \<notin> {None, Some 0}" "resize_params r = Inr ps"
    "s2 = called e (PveConfigPut (srv_name srv) vmid ps) (called e (PveVmConfig (srv_name srv) vmid) s1)"
    "save_vm e v (resized r) s2 = (Inr (), s')" "c = vm_cores (resized r v)" "m = vm_ram_mb (resized r v)"
    unfolding resize_vm_def by (auto simp: run_iffs)
  note ps = resize_params_Inr[OF *(5)]
  have d: "db s2 = db s" using keepsD[OF keeps_get_proxmox *(3)] by (simp add: *(6))
  have "logs UNIV (save_vm e v (resized r))" unfolding save_vm_def by (intro logs_intros UNIV_I)
  from logsD[OF this *(7)] have "PveConfigPut (srv_name srv) vmid ps \<in> set (calls s')" by (auto simp: *(6))
  moreover have "resize_ok r" using *(4) ps by (auto simp: resize_ok_def)
  ultimately show "u_role u \<in> {ADMIN, PROJECT_OWNER}" "resize_ok r"
    "\<exists>v (srv :: server) ps. find_owned_vm vmid u (Some node) (db s) = Some v \<and>
         c = (case rz_cores r of None \<Rightarrow> vm_cores v | Some n \<Rightarrow> n) \<and>
         m = (case rz_memory r of None \<Rightarrow> vm_ram_mb v | Some n \<Rightarrow> n) \<and>
         PveConfigPut (srv_name srv) vmid ps \<in> set (calls s') \<and>
         (\<forall>n. rz_cores r = Some n \<longrightarrow> map_of ps ''cores'' = Some (JInt n)) \<and>
         (\<forall>n. rz_memory r = Some n \<longrightarrow> map_of ps ''memory'' = Some (JInt n)) \<and>
         db s' = set_vm (vm_id v) (resized r) (db s)"
    using *(1,2,8,9) ps save_vm_Inr[OF *(7)] d by (auto simp: resized_def intro!: exI[of _ srv] exI[of _ ps])
next
  fix x s' assume "resize_vm e node vmid r u s = (Inl x, s')"
  moreover have "undoes (resize_vm e node vmid r u)"
    unfolding resize_vm_def by (intro undoes_intros keeps_intros)
  ultimately show "db s' = db s" by (rule undoesD[rotated])
qed

definition hotplug_env :: env where
  "hotplug_env = sample_env (\<lambda>h c. case c of
     PveVmConfig _ _ \<Rightarrow> Inr (JObj [(''hotplug'', JStr ''network,disk,cpu'')]) | _ \<Rightarrow> Inr JNull)"

lemma resize_vm_limits_witness:
  "let s = (sample_state control_db)\<lparr>conn_cache := [(1, hour)]\<rparr>;
       r = \<lparr>rz_cores = Some 4, rz_memory = None\<rparr> in
   \<exists>s'. resize_vm hotplug_env ''node1'' 101 r (sample_user 7 PROJECT_OWNER) s = (Inr (4, 2048), s') \<and>
     map vm_cores (vms (db s')) = [4]"
proof -
  let ?s = "(sample_state control_db)\<lparr>conn_cache := [(1, hour)]\<rparr>"
  let ?r = "\<lparr>rz_cores = Some 4, rz_memory = None\<rparr>"
  have r: "fst (resize_vm hotplug_env ''node1'' 101 ?r (sample_user 7 PROJECT_OWNER) ?s) = Inr (4, 2048)"
    by code_simp
  then obtain s' where run: "resize_vm hotplug_env ''node1'' 101 ?r (sample_user 7 PROJECT_OWNER) ?s = (Inr (4, 2048), s')"
    by (metis prod.collapse)
  have "find_owned_vm 101 (sample_user 7 PROJECT_OWNER) (Some ''node1'') (db ?s) = Some (sample_vm 1 (Some 7))"
    by (simp add: find_owned_vm_def on_node_def control_db_def sample_defs)
  then have "db s' = set_vm 1 (resized ?r) control_db"
    using conjunct1[OF resize_vm_limits[of hotplug_env "''node1''" 101 ?r "sample_user 7 PROJECT_OWNER" ?s], rule_format, OF run]
    by (auto simp: sample_vm_def sample_state_def)
  then have "map vm_cores (vms (db s')) = [4]"
    by (simp add: set_vm_def update_rows_def resized_def control_db_def sample_vm_def)
  with run show ?thesis by auto
qed

text \<open>The snapshots of a listing that are manual: not the current state, and not named like an automatic one.\<close>

definition manual_name :: "string \<Rightarrow> bool" where
  "manual_name n \<longleftrightarrow> n \<noteq> ''current'' \<and> \<not> startswith n AUTO_SNAP_PREFIX"

definition snap_names :: "json list \<Rightarrow> string list" where
  "snap_names xs = concat (map (\<lambda>x. case obj_get x ''name'' JNull of Inr (JStr n) \<Rightarrow> [n] | _ \<Rightarrow> []) xs)"

definition well_listed :: "json list \<Rightarrow> bool" where
  "well_listed xs \<longleftrightarrow> (\<forall>x \<in> set xs. \<exists>n. obj_get x ''name'' JNull = Inr (JStr n))"

lemma real_snapshots_names: "well_listed xs \<Longrightarrow>
    \<exists>rs. real_snapshots xs = Inr rs \<and> well_listed rs \<and> snap_names rs = filter (\<lambda>n. n \<noteq> ''current'') (snap_names xs)"
  by (induction xs) (auto simp: well_listed_def snap_names_def json_is_def)

lemma manual_snapshots_names: "well_listed xs \<Longrightarrow>
    \<exists>rs. manual_snapshots xs = Inr rs \<and> snap_names rs = filter (\<lambda>n. \<not> startswith n AUTO_SNAP_PREFIX) (snap_names xs) \<and>
      well_listed rs"
  by (induction xs) (auto simp: well_listed_def snap_names_def is_auto_snap_def json_or_def startswith_def)

lemma length_snap_names: "well_listed xs \<Longrightarrow> length (snap_names xs) = length xs"
  by (induction xs) (auto simp: well_listed_def snap_names_def)

lemma named_iff: "well_listed xs \<Longrightarrow> list_ex (named n) xs \<longleftrightarrow> n \<in> set (snap_names xs)"
  by (induction xs) (auto simp: well_listed_def snap_names_def named_def)

lemma may_snapshot_iff:
  assumes "well_listed xs" and "name \<noteq> ''current''"
  shows "may_snapshot (JList xs) name = Inr () \<longleftrightarrow>
     name \<notin> set (snap_names xs) \<and> length (filter manual_name (snap_names xs)) < 2 \<and>
     length (filter (\<lambda>n. n \<noteq> ''current'') (snap_names xs)) < 3"
proof -
  obtain rs where rs: "real_snapshots xs = Inr rs" "well_listed rs"
      "snap_names rs = filter (\<lambda>n. n \<noteq> ''current'') (snap_names xs)"
    using real_snapshots_names[OF assms(1)] by blast
  obtain ms where ms: "manual_snapshots rs = Inr ms" "well_listed ms"
      "snap_names ms = filter (\<lambda>n. \<not> startswith n AUTO_SNAP_PREFIX) (snap_names rs)"
    using manual_snapshots_names[OF rs(2)] by blast
  have "length ms = length (filter manual_name (snap_names xs))"
    using length_snap_names[OF ms(2)]
    by (simp add: ms(3) rs(3) manual_name_def[abs_def] conj_commute)
  moreover have "length rs = length (filter (\<lambda>n. n \<noteq> ''current'') (snap_names xs))"
    using length_snap_names[OF rs(2)] by (simp add: rs(3))
  moreover have "list_ex (named name) rs \<longleftrightarrow> name \<in> set (snap_names xs)"
    using named_iff[OF rs(2), of name] assms(2) by (simp add: rs(3))
  ultimately show ?thesis by (auto simp: may_snapshot_def rs(1) ms(1))
qed

text \<open>
  A snapshot is requested from Proxmox exactly when the listing it was decided on has neither that
  name nor two manual snapshots nor three snapshots in all; otherwise the answer is a 400 and Proxmox is
  only read.
\<close>

theorem create_snapshot_limits:
  assumes "find_owned_vm vmid u (Some node) (db s) = Some v"
    and "find (\<lambda>x. srv_id x = vm_server_id v) (servers (db s)) = Some srv"
    and "get_proxmox_for_server e srv s = (Inr (), s1)"
    and "answer e (calls s1) (PveSnapshotList (srv_name srv) vmid) = Inr (JList xs)" and "well_listed xs"
    and "snapshot_name_ok name" and "name \<noteq> ''current''"
  shows "calls (snd (create_snapshot e node vmid name descr u s)) =
       calls s1 @ PveSnapshotList (srv_name srv) vmid #
         (if name \<notin> set (snap_names xs) \<and> length (filter manual_name (snap_names xs)) < 2 \<and>
             length (filter (\<lambda>n. n \<noteq> ''current'') (snap_names xs)) < 3
          then [PveSnapshotPost (srv_name srv) vmid name descr] else []) \<and>
     db (snd (create_snapshot e node vmid name descr u s)) = db s"
proof -
  have d: "db s1 = db s" using keeps_get_proxmox assms(3) by (rule keepsD)
  have w: "with_vm e vmid u node k s = k v srv s1" for k :: "vm \<Rightarrow> server \<Rightarrow> (sys, json) prog"
    using assms(1,2,3) by (simp add: with_vm_def seq_def get_vm_with_owner_check_def vm_server_def prog_defs)
  show ?thesis
    unfolding create_snapshot_def
    using assms(4,6) may_snapshot_iff[OF assms(5,7)] d
    by (cases "may_snapshot (JList xs) name"; cases "answer e (calls s1 @ [PveSnapshotList (srv_name srv) vmid])
          (PveSnapshotPost (srv_name srv) vmid name descr)")
      (simp_all add: seq_def raise_if_def ret_def w pve_try_def catch_def raise_def ext_eq lift_def)
qed

definition snap_env :: "string list \<Rightarrow> env" where
  "snap_env names = sample_env (\<lambda>h c. case c of
     PveSnapshotList _ _ \<Rightarrow> Inr (JList (map (\<lambda>n. JObj [(''name'', JStr n)]) (names @ [''current''])))
   | _ \<Rightarrow> Inr JNull)"

lemma create_snapshot_limits_witness:
  "let s = (sample_state control_db)\<lparr>conn_cache := [(1, hour)]\<rparr>;
       u = sample_user 7 USER; lst = PveSnapshotList ''node1'' 101 in
   calls (snd (create_snapshot (snap_env [''a'']) ''node1'' 101 ''b'' [] u s)) =
     [lst, PveSnapshotPost ''node1'' 101 ''b'' []] \<and>
   calls (snd (create_snapshot (snap_env [''a'', ''c'']) ''node1'' 101 ''b'' [] u s)) = [lst]"
proof -
  let ?s = "(sample_state control_db)\<lparr>conn_cache := [(1, hour)]\<rparr>"
  have v: "find_owned_vm 101 (sample_user 7 USER) (Some ''node1'') (db ?s) = Some (sample_vm 1 (Some 7))"
    by (simp add: find_owned_vm_def on_node_def control_db_def sample_defs)
  have f: "find (\<lambda>x. srv_id x = vm_server_id (sample_vm 1 (Some 7))) (servers (db ?s)) = Some sample_server"
    by (simp add: control_db_def sample_defs)
  have c: "get_proxmox_for_server e sample_server ?s = (Inr (), ?s)" for e
    by (rule pve_cached) (simp add: sample_state_def sample_server_def cache_hit_def time_defs)
  have n: "snapshot_name_ok ''b''" by code_simp
  show ?thesis
    using create_snapshot_limits[OF v f c _ _ n, of "snap_env [''a'']" _ "[]"]
      create_snapshot_limits[OF v f c _ _ n, of "snap_env [''a'', ''c'']" _ "[]"]
    by (simp add: snap_env_def sample_env_def well_listed_def snap_names_def manual_name_def startswith_def
        AUTO_SNAP_PREFIX_def sample_server_def sample_state_def)
qed

section \<open>The tables stay well formed\<close>

lemma tables_drop_vm: "tables_ok d \<Longrightarrow> tables_ok (drop_vm v d)"
  by (auto simp: tables_ok_def ids_ok_ops refs_ok_ops)
    (auto simp: constraints_ok_def drop_vm_def intro: distinct_map_delete_rows)

lemma tables_notify: "tables_ok d \<Longrightarrow> tables_ok (add_notification i ty m t d)"
  by (auto simp: tables_ok_def ids_ok_ops refs_ok_ops) (auto simp: constraints_ok_def add_notification_def)

lemma inv_with_vm [inv_intros]: "(\<And>v srv. db_inv P (k v srv)) \<Longrightarrow> db_inv P (with_vm e vmid u node k)"
  unfolding with_vm_def by (intro inv_intros db_inv_keeps[OF keeps_vm_server]
      db_inv_keeps[OF keeps_get_proxmox] db_inv_keeps[OF keeps_get_vm])

lemma inv_get_vm [inv_intros]: "db_inv P (get_vm_with_owner_check vmid u node)"
  by (rule db_inv_keeps) (rule keeps_get_vm)

lemma inv_pve_try [inv_intros]: "db_inv P m \<Longrightarrow> db_inv P (pve_try dflt m)"
  unfolding pve_try_def by (intro inv_intros)

lemma inv_delete_vm [inv_intros]: "db_inv tables_ok (delete_vm e v purge)"
proof -
  have rows: "tables_ok d \<Longrightarrow> tables_ok (delete_vm_rows v t d)" for t d
    by (auto simp: delete_vm_rows_def tables_drop_vm tables_notify split: option.split)
  have tail: "db_inv tables_ok (seq (gets db) (\<lambda>d. commit e (delete_vm_rows v t d)))" for t
    by (rule db_inv_read, rule db_inv_commit, rule rows)
  show ?thesis
    unfolding delete_vm_def
    by (intro inv_intros tail) (rule db_inv_keeps, intro keeps_intros)+
qed

lemma inv_vm_handlers [inv_intros]:
  "db_inv tables_ok (resize_vm e node vmid r u)" "db_inv tables_ok (update_vm_purpose e node vmid p u)"
  "db_inv tables_ok (extend_vm e node vmid u)" "db_inv tables_ok (toggle_auto_snapshot e node vmid u)"
  "db_inv tables_ok (delete_vm_endpoint e node vmid purge u)"
  unfolding resize_vm_def update_vm_purpose_def extend_vm_def toggle_auto_snapshot_def delete_vm_endpoint_def
  by (intro inv_intros; simp add: resized_def)+

end
