(* ===== verification/SnapshotMachine.thy ===== *)
theory SnapshotMachine
  imports VmControl
begin

text \<open>
  The interleavings of snapshot requests for one VM. \<open>_snapshot_create_guard\<close> of
  \<open>api/routes/vmcontrol.py\<close> makes a request hold a lock (an advisory lock of PostgreSQL or an
  \<open>asyncio.Lock\<close>) from before the listing until after the request to Proxmox; deletions and the nightly
  loop of \<open>main.py\<close>, which makes and removes the automatic snapshots, do not take it. A request may give
  up at any point while it holds the lock: a refusal of the checks, or an exception.
\<close>

datatype phase = Asking string | Holding string | Decided string | Gone

record snap_machine =
  snaps :: "string list"
  lock :: "nat option"
  phase :: "nat \<Rightarrow> phase"

text \<open>What Proxmox lists: the snapshots, and the entry of the current state.\<close>

definition listing :: "string list \<Rightarrow> json" where
  "listing names = JList (map (\<lambda>n. JObj [(''name'', JStr n)]) (names @ [''current'']))"

definition enter :: "nat \<Rightarrow> string \<Rightarrow> snap_machine \<Rightarrow> snap_machine" where
  "enter i n m = m\<lparr>lock := Some i, phase := (phase m)(i := Holding n)\<rparr>"

definition leave :: "nat \<Rightarrow> snap_machine \<Rightarrow> snap_machine" where
  "leave i m = m\<lparr>lock := None, phase := (phase m)(i := Gone)\<rparr>"

inductive sstep :: "snap_machine \<Rightarrow> snap_machine \<Rightarrow> bool" where
  acquire: "phase m i = Asking n \<Longrightarrow> lock m = None \<Longrightarrow> sstep m (enter i n m)"
| decide: "phase m i = Holding n \<Longrightarrow> may_snapshot (listing (snaps m)) n = Inr () \<Longrightarrow>
     sstep m (m\<lparr>phase := (phase m)(i := Decided n)\<rparr>)"
| refuse: "phase m i = Holding n \<Longrightarrow> sstep m (leave i m)"
| posted: "phase m i = Decided n \<Longrightarrow> sstep m (leave i (m\<lparr>snaps := snaps m @ [n]\<rparr>))"
| post_failed: "phase m i = Decided n \<Longrightarrow> sstep m (leave i m)"
| removed: "sstep m (m\<lparr>snaps := filter (\<lambda>x. x \<noteq> n) (snaps m)\<rparr>)"
| nightly: "startswith n AUTO_SNAP_PREFIX \<Longrightarrow> sstep m (m\<lparr>snaps := snaps m @ [n]\<rparr>)"

inductive_cases sstepE: "sstep m m'"

definition manuals :: "string list \<Rightarrow> nat" where
  "manuals names = length (filter manual_name names)"

definition sstart :: "snap_machine \<Rightarrow> bool" where
  "sstart m \<longleftrightarrow> manuals (snaps m) \<le> 2 \<and> lock m = None \<and> (\<forall>i. \<exists>n. phase m i = Asking n)"

text \<open>Inside the guard; a request that has decided, and whose snapshot will count as manual.\<close>

fun guarded :: "phase \<Rightarrow> bool" where
  "guarded (Holding n) = True"
| "guarded (Decided n) = True"
| "guarded _ = False"

fun commits_manual :: "phase \<Rightarrow> bool" where
  "commits_manual (Decided n) = manual_name n"
| "commits_manual _ = False"

definition sinv :: "snap_machine \<Rightarrow> bool" where
  "sinv m \<longleftrightarrow> manuals (snaps m) \<le> 2 \<and> (\<forall>i. guarded (phase m i) \<longrightarrow> lock m = Some i) \<and>
     (\<forall>i. commits_manual (phase m i) \<longrightarrow> manuals (snaps m) < 2)"

lemma commits_guarded: "commits_manual p \<Longrightarrow> guarded p"
  by (cases p) simp_all

lemma snap_names_listing: "snap_names (map (\<lambda>n. JObj [(''name'', JStr n)]) names) = names"
  by (induction names) (simp_all add: snap_names_def)

lemma well_listing: "well_listed (map (\<lambda>n. JObj [(''name'', JStr n)]) names)"
  by (simp add: well_listed_def)

lemma decided_room:
  assumes "may_snapshot (listing names) n = Inr ()" and "manual_name n"
  shows "manuals names < 2"
proof -
  have "n \<noteq> ''current''" using assms(2) by (simp add: manual_name_def)
  from may_snapshot_iff[OF well_listing this, of "names @ [''current'']"] assms(1)
  have "length (filter manual_name (names @ [''current''])) < 2"
    unfolding listing_def snap_names_listing by blast
  then show ?thesis by (simp add: manuals_def manual_name_def)
qed

lemma manuals_snoc [simp]: "manuals (names @ [n]) = manuals names + (if manual_name n then 1 else 0)"
  by (simp add: manuals_def)

lemma manuals_filter: "manuals (filter p names) \<le> manuals names"
  by (induction names) (auto simp: manuals_def)

lemma auto_not_manual: "startswith n AUTO_SNAP_PREFIX \<Longrightarrow> \<not> manual_name n"
  by (simp add: manual_name_def)

lemma guarded_alone: "sinv m \<Longrightarrow> guarded (phase m i) \<Longrightarrow> j \<noteq> i \<Longrightarrow> \<not> guarded (phase m j)"
  unfolding sinv_def by (metis option.inject)

lemma sinv_leave:
  assumes "sinv m" and "guarded (phase m i)" and "manuals names \<le> 2"
  shows "sinv (leave i (m\<lparr>snaps := names\<rparr>))"
  using assms(3) guarded_alone[OF assms(1,2)] commits_guarded by (auto simp: sinv_def leave_def)

lemma sinv_step: "sstep m m' \<Longrightarrow> sinv m \<Longrightarrow> sinv m'"
proof (induction rule: sstep.induct)
  case (acquire m i n)
  then have "\<not> guarded (phase m j)" for j by (auto simp: sinv_def)
  then show ?case using acquire commits_guarded by (auto simp: sinv_def enter_def)
next
  case (decide m i n)
  then have "guarded (phase m i)" by simp
  have alone: "\<not> guarded (phase m j)" if "j \<noteq> i" for j
    using guarded_alone[OF decide.prems \<open>guarded (phase m i)\<close> that] .
  have "lock m = Some i" using decide \<open>guarded (phase m i)\<close> by (simp add: sinv_def)
  then show ?case using decide alone decided_room[of "snaps m" n] commits_guarded
    by (auto simp: sinv_def)
next
  case (refuse m i n)
  then show ?case using sinv_leave[of m i "snaps m"] by (simp add: sinv_def)
next
  case (posted m i n)
  then have "commits_manual (phase m i) = manual_name n" by simp
  then have "manuals (snaps m @ [n]) \<le> 2" using posted.prems unfolding sinv_def by (metis Suc_1 Suc_leI
      add.right_neutral less_Suc_eq_le manuals_snoc Suc_eq_plus1)
  then show ?case using posted sinv_leave[of m i "snaps m @ [n]"] by simp
next
  case (post_failed m i n)
  then show ?case using sinv_leave[of m i "snaps m"] by (simp add: sinv_def)
next
  case (removed m n)
  have "manuals (filter (\<lambda>x. x \<noteq> n) (snaps m)) \<le> manuals (snaps m)" by (rule manuals_filter)
  then show ?case using removed unfolding sinv_def by simp (meson order.strict_trans1 order_trans)
next
  case (nightly n m)
  then show ?case using auto_not_manual[of n] by (simp add: sinv_def)
qed

interpretation snapshots: invariant_system sstart sstep sinv
proof
  fix m m' assume "sstart m"
  then show "sinv m" unfolding sstart_def sinv_def by (metis commits_manual.simps(2) guarded.simps(3))
next
  fix m m' assume "sinv m" and "sstep m m'"
  then show "sinv m'" by (rule sinv_step[rotated])
qed



end
