(* ===== verification/PortRoutes.thy ===== *)
theory PortRoutes
  imports VmControl Gateway Caddy
begin

text \<open>
  \<open>api/routes/firewall.py\<close>, \<open>https_gateway.py\<close> and \<open>network.py\<close>: the Proxmox firewall rules of a VM, its
  custom and default forwarded ports, and its HTTPS routes. A port or route is a row of the database and
  a rule of the gateway (or a route of Caddy); what ties the two together is proved below.
\<close>

section \<open>Firewall rules (firewall.py)\<close>

text \<open>\<open>rule.model_dump(exclude_none=True)\<close>, with the address of the VM as destination.\<close>

definition opt_field :: "string \<Rightarrow> string option \<Rightarrow> (string \<times> json) list" where
  "opt_field k v = (case v of None \<Rightarrow> [] | Some s \<Rightarrow> [(k, JStr s)])"

definition rule_data :: "firewall_rule \<Rightarrow> string option \<Rightarrow> (string \<times> json) list" where
  "rule_data r ip =
     (let base = [(''action'', JStr (fw_action r)), (''type'', JStr (fw_type r))] @ opt_field ''proto'' (fw_proto r)
            @ opt_field ''dport'' (fw_dport r);
          rest = opt_field ''source'' (fw_source r) @ [(''enable'', JInt (fw_enable r))]
            @ opt_field ''comment'' (fw_comment r)
      in if \<not> opt_truthy ip then base @ opt_field ''dest'' (fw_dest r) @ rest
         else if fw_dest r = None then base @ rest @ [(''dest'', JStr (opt_str ip))]
         else base @ [(''dest'', JStr (opt_str ip))] @ rest)"

definition get_firewall_rules :: "env \<Rightarrow> string \<Rightarrow> int \<Rightarrow> user \<Rightarrow> (sys, json) prog" where
  "get_firewall_rules e node vmid u =
     with_vm e vmid u node (\<lambda>v srv.
     pve_try ''rules-failed''
       (seq (ext e (PveFirewallList (srv_name srv) vmid)) (\<lambda>rules.
        ret (JObj [(''vmid'', JInt vmid), (''node'', JStr (srv_name srv)), (''rules'', rules)]))))"

definition add_firewall_rule :: "env \<Rightarrow> string \<Rightarrow> int \<Rightarrow> firewall_rule \<Rightarrow> user \<Rightarrow> (sys, (string \<times> json) list) prog" where
  "add_firewall_rule e node vmid rule u =
     seq (lift (firewall_rule_create rule)) (\<lambda>r.
     with_vm e vmid u node (\<lambda>v srv.
     let dat = rule_data r (vm_internal_ip v)
     in pve_try ''rule-add-failed''
       (seq (ext e (PveFirewallPost (srv_name srv) vmid dat)) (\<lambda>_.
        seq (ext e (PveFirewallEnable (srv_name srv) vmid)) (\<lambda>_. ret dat)))))"

definition delete_firewall_rule :: "env \<Rightarrow> string \<Rightarrow> int \<Rightarrow> int \<Rightarrow> user \<Rightarrow> (sys, unit) prog" where
  "delete_firewall_rule e node vmid pos u =
     with_vm e vmid u node (\<lambda>v srv.
     pve_try ''rule-delete-failed''
       (seq (ext e (PveFirewallDelete (srv_name srv) vmid pos)) (\<lambda>_. ret ())))"

section \<open>Forwarded ports (firewall.py, network.py)\<close>

definition get_custom_ports :: "string \<Rightarrow> int \<Rightarrow> user \<Rightarrow> (sys, vm_port list) prog" where
  "get_custom_ports node vmid u =
     seq (get_vm_with_owner_check vmid u (Some node)) (\<lambda>v.
     seq (gets db) (\<lambda>d. ret (ports_of d v)))"

definition MAX_CUSTOM_PORTS :: int where "MAX_CUSTOM_PORTS = 30"

definition custom_count :: "database \<Rightarrow> vm \<Rightarrow> int" where
  "custom_count d v = count_rows (\<lambda>p. p_vm_id p = vm_id v \<and> \<not> p_is_default p) (vm_ports d)"

definition custom_row :: "vm \<Rightarrow> port_create \<Rightarrow> int \<Rightarrow> vm_port" where
  "custom_row v b external =
     \<lparr>p_id = 0, p_vm_id = vm_id v, p_internal_port = pc_internal_port b, p_external_port = external,
      p_protocol = pc_protocol b, p_action = ''ACCEPT'', p_source = pc_source b,
      p_description = pc_description b, p_is_default = False\<rparr>"

definition drop_port :: "int \<Rightarrow> database \<Rightarrow> database" where
  "drop_port i d = d\<lparr>vm_ports := delete_rows (\<lambda>p. p_id p = i) (vm_ports d)\<rparr>"

text \<open>The port of the request is taken: \<open>RuntimeError\<close> of the allocator is a 503.\<close>

definition pick_port :: "env \<Rightarrow> (sys, int) prog" where
  "pick_port e = catch (allocate_random_port e)
     (\<lambda>x. raise (case x of RuntimeError m \<Rightarrow> Http 503 m | _ \<Rightarrow> x))"

definition book_port :: "env \<Rightarrow> vm_port \<Rightarrow> (sys, int) prog" where
  "book_port e row =
     seq (gets db) (\<lambda>d.
     seq (catch (commit e (add_port row d))
       (\<lambda>x. raise (if x = IntegrityError then Http 409 ''port-conflict'' else Http 500 ''port-save-failed''))) (\<lambda>_.
     ret (next_id d)))"

text \<open>Taking the booked row back and answering with the error.\<close>

definition unbook_port :: "env \<Rightarrow> int \<Rightarrow> exn \<Rightarrow> (sys, 'a) prog" where
  "unbook_port e i x =
     seq (gets db) (\<lambda>d. seq (commit e (drop_port i d)) (\<lambda>_. raise x))"

definition forward_port :: "env \<Rightarrow> vm \<Rightarrow> port_create \<Rightarrow> int \<Rightarrow> int \<Rightarrow> (sys, unit) prog" where
  "forward_port e v b external i =
     seq (catch
       (seq (vm_server v) (\<lambda>srv.
        manage_custom_iptables e srv (opt_str (vm_internal_ip v)) (pc_internal_port b) external (pc_protocol b)
          ''ADD'' (pc_source b)))
       (\<lambda>x. unbook_port e i (case x of ValueError m \<Rightarrow> Http 400 m | _ \<Rightarrow> Http 502 ''gateway-failed''))) (\<lambda>success.
     if success then ret () else unbook_port e i (Http 502 ''gateway-failed''))"

definition add_custom_port :: "env \<Rightarrow> string \<Rightarrow> int \<Rightarrow> port_create \<Rightarrow> user \<Rightarrow> (sys, vm_port) prog" where
  "add_custom_port e node vmid body u =
     seq (lift (vm_port_create body)) (\<lambda>b.
     seq (get_vm_with_owner_check vmid u (Some node)) (\<lambda>v.
     seq (gets db) (\<lambda>d.
     seq (raise_if (MAX_CUSTOM_PORTS \<le> custom_count d v) (Http 409 ''too-many-ports'')) (\<lambda>_.
     seq (pick_port e) (\<lambda>external.
     seq (book_port e (custom_row v b external)) (\<lambda>i.
     seq (if opt_truthy (vm_internal_ip v) then forward_port e v b external i else ret ()) (\<lambda>_.
     ret ((custom_row v b external)\<lparr>p_id := i\<rparr>))))))))"

definition DEFAULT_PORTS :: "(int \<times> string \<times> string \<times> (ports \<Rightarrow> int)) list" where
  "DEFAULT_PORTS =
     [(22, ''tcp'', ''SSH'', ssh_port), (80, ''tcp'', ''HTTP'', svc1_port), (10000, ''tcp/udp'', ''SVC'', svc2_port)]"

definition missing_defaults :: "database \<Rightarrow> vm \<Rightarrow> (int \<times> string \<times> string \<times> (ports \<Rightarrow> int)) list" where
  "missing_defaults d v =
     filter (\<lambda>m. \<not> list_ex (\<lambda>p. p_vm_id p = vm_id v \<and> p_is_default p \<and> p_internal_port p = fst m) (vm_ports d))
       DEFAULT_PORTS"

definition restored_row :: "vm \<Rightarrow> ports \<Rightarrow> int \<times> string \<times> string \<times> (ports \<Rightarrow> int) \<Rightarrow> vm_port" where
  "restored_row v ps m = (case m of (internal, proto, descr, key) \<Rightarrow> default_port (vm_id v) internal (key ps) proto descr)"

definition forward_default :: "env \<Rightarrow> server \<Rightarrow> vm \<Rightarrow> vm_port \<Rightarrow> (sys, unit) prog" where
  "forward_default e srv v row =
     (if opt_truthy (vm_internal_ip v)
      then for_each (protocols_of (p_protocol row)) (\<lambda>proto.
        seq (manage_custom_iptables e srv (opt_str (vm_internal_ip v)) (p_internal_port row) (p_external_port row)
               proto ''ADD'' None) (\<lambda>_. ret ()))
      else ret ())"

definition restore_default_ports :: "env \<Rightarrow> string \<Rightarrow> int \<Rightarrow> user \<Rightarrow> (sys, nat) prog" where
  "restore_default_ports e node vmid u =
     seq (get_vm_with_owner_check vmid u (Some node)) (\<lambda>v.
     seq (gets db) (\<lambda>d.
     let missing = missing_defaults d v in
     if missing = [] then ret 0
     else
       seq (vm_server v) (\<lambda>srv.
       seq (lift (calculate_ports (srv_base_port srv) vmid)) (\<lambda>ps.
       let rows = map (restored_row v ps) missing in
       seq (raise_if (list_ex (\<lambda>p. p_external_port p \<in> set (map p_external_port rows)) (vm_ports d))
              (Http 409 ''default-port-taken'')) (\<lambda>_.
       seq (for_each rows (forward_default e srv v)) (\<lambda>_.
       seq (gets db) (\<lambda>d'.
       seq (catch (commit e (foldl (\<lambda>w row. add_port row w) d' rows)) (\<lambda>_. raise (Http 500 ''restore-failed''))) (\<lambda>_.
       ret (length missing)))))))))"

definition unforward :: "env \<Rightarrow> vm \<Rightarrow> vm_port \<Rightarrow> (sys, unit) prog" where
  "unforward e v p =
     (if opt_truthy (vm_internal_ip v)
      then for_each (protocols_of (p_protocol p)) (\<lambda>proto.
        catch (seq (vm_server v) (\<lambda>srv.
               seq (manage_custom_iptables e srv (opt_str (vm_internal_ip v)) (p_internal_port p) (p_external_port p)
                 proto ''DELETE'' (p_source p)) (\<lambda>_. ret ())))
          (\<lambda>_. ret ()))
      else ret ())"

definition delete_custom_port :: "env \<Rightarrow> string \<Rightarrow> int \<Rightarrow> int \<Rightarrow> user \<Rightarrow> (sys, unit) prog" where
  "delete_custom_port e node vmid port_id u =
     seq (get_vm_with_owner_check vmid u (Some node)) (\<lambda>v.
     seq (gets db) (\<lambda>d.
     case find (\<lambda>p. p_id p = port_id \<and> p_vm_id p = vm_id v) (vm_ports d) of
       None \<Rightarrow> raise (Http 404 ''port-not-found'')
     | Some p \<Rightarrow>
         seq (unforward e v p) (\<lambda>_.
         seq (gets db) (\<lambda>d'. commit e (drop_port (p_id p) d')))))"

definition get_forwarded_ports :: "string \<Rightarrow> int \<Rightarrow> user \<Rightarrow> (sys, ports \<times> string \<times> string) prog" where
  "get_forwarded_ports node vmid u =
     seq (get_vm_with_owner_check vmid u (Some node)) (\<lambda>v.
     seq (vm_server v) (\<lambda>srv.
     seq (lift (calculate_ports (srv_base_port srv) vmid)) (\<lambda>ps.
     ret (ps, srv_name srv, srv_ip_address srv))))"

section \<open>HTTPS routes (https_gateway.py)\<close>

definition routes_of :: "database \<Rightarrow> vm \<Rightarrow> https_route list" where
  "routes_of d v = filter (\<lambda>r. r_vm_id r = vm_id v) (https_routes d)"

text \<open>\<open>_serialize\<close>, without the creation time.\<close>

definition serialize_route :: "settings \<Rightarrow> https_route \<Rightarrow> json" where
  "serialize_route c r =
     JObj [(''id'', JInt (r_id r)), (''subdomain'', JStr (r_subdomain r)),
           (''full_domain'', JStr (full_domain c (r_subdomain r))), (''internal_port'', JInt (r_internal_port r)),
           (''caddy_synced'', JBool (r_caddy_synced r))]"

definition get_https_routes :: "env \<Rightarrow> string \<Rightarrow> int \<Rightarrow> user \<Rightarrow> (sys, json list) prog" where
  "get_https_routes e node vmid u =
     seq (get_vm_with_owner_check vmid u (Some node)) (\<lambda>v.
     seq (gets db) (\<lambda>d. ret (map (serialize_route (conf e)) (routes_of d v))))"

definition new_route :: "vm \<Rightarrow> route_create \<Rightarrow> https_route" where
  "new_route v b = \<lparr>r_id = 0, r_vm_id = vm_id v, r_subdomain = rc_subdomain b,
     r_internal_port = rc_internal_port b, r_caddy_synced = False\<rparr>"

definition set_synced :: "int \<Rightarrow> database \<Rightarrow> database" where
  "set_synced i d =
     d\<lparr>https_routes := update_rows (\<lambda>r. r_id r = i) (\<lambda>r. r\<lparr>r_caddy_synced := True\<rparr>) (https_routes d)\<rparr>"

definition add_https_route :: "env \<Rightarrow> string \<Rightarrow> int \<Rightarrow> route_create \<Rightarrow> user \<Rightarrow> (sys, https_route) prog" where
  "add_https_route e node vmid body u =
     seq (lift (https_route_create body)) (\<lambda>b.
     seq (get_vm_with_owner_check vmid u (Some node)) (\<lambda>v.
     seq (raise_if (\<not> opt_truthy (vm_internal_ip v)) (Http 400 ''no-internal-ip'')) (\<lambda>_.
     seq (gets db) (\<lambda>d.
     seq (raise_if (MAX_HTTPS_ROUTES_PER_VM (conf e) \<le> int (length (routes_of d v))) (Http 409 ''too-many-routes'')) (\<lambda>_.
     seq (catch (commit e (add_route_row (new_route v b) d))
       (\<lambda>x. raise (if x = IntegrityError then Http 409 ''subdomain-taken'' else Http 500 ''route-save-failed''))) (\<lambda>_.
     seq (add_route e (rc_subdomain b) (opt_str (vm_internal_ip v)) (rc_internal_port b)) (\<lambda>synced.
     seq (if synced then seq (gets db) (\<lambda>d'. commit e (set_synced (next_id d) d')) else ret ()) (\<lambda>_.
     ret ((new_route v b)\<lparr>r_id := next_id d, r_caddy_synced := synced\<rparr>)))))))))"

definition drop_route :: "int \<Rightarrow> database \<Rightarrow> database" where
  "drop_route i d = d\<lparr>https_routes := delete_rows (\<lambda>r. r_id r = i) (https_routes d)\<rparr>"

definition delete_https_route :: "env \<Rightarrow> string \<Rightarrow> int \<Rightarrow> int \<Rightarrow> user \<Rightarrow> (sys, unit) prog" where
  "delete_https_route e node vmid route_id u =
     seq (get_vm_with_owner_check vmid u (Some node)) (\<lambda>v.
     seq (gets db) (\<lambda>d.
     case find (\<lambda>r. r_id r = route_id \<and> r_vm_id r = vm_id v) (https_routes d) of
       None \<Rightarrow> raise (Http 404 ''route-not-found'')
     | Some r \<Rightarrow>
         seq (delete_route e (r_subdomain r)) (\<lambda>_.
         seq (gets db) (\<lambda>d'. commit e (drop_route (r_id r) d')))))"

section \<open>Forwarding one port: all rules or none\<close>

definition source_args :: "string option \<Rightarrow> string" where
  "source_args src = (case src of
       None \<Rightarrow> ''''
     | Some s \<Rightarrow> if s \<in> {'''', ''0.0.0.0/0'', ''0.0.0.0''} then '''' else ''-s '' @ s @ '' '')"

definition custom_rules :: "env \<Rightarrow> string option \<Rightarrow> string \<Rightarrow> int \<Rightarrow> string \<Rightarrow> int \<Rightarrow> rule list" where
  "custom_rules e src proto external vm_ip internal =
     port_rules (source_args src) proto (GATEWAY_PUBLIC_IP (conf e)) external vm_ip internal"

lemma normalized_args: "normalize_source_ip src = Inr n \<Longrightarrow>
    (case n of None \<Rightarrow> '''' | Some s \<Rightarrow> ''-s '' @ s @ '' '') = source_args src"
  by (auto simp: normalize_source_ip_def source_args_def split: option.splits if_splits)

lemma shell_safe_source: "\<forall>s. src = Some s \<longrightarrow> shell_safe s \<Longrightarrow> shell_safe (source_args src)"
  by (auto simp: source_args_def shell_safe_def split: option.splits)

lemma manage_custom_ADD_spec:
  assumes law: "lawful_gateway e h ins" and inert: "inert_elsewhere h ins"
    and gw: "srv_gateway_ip srv = Some h" and safe: "\<forall>s. src = Some s \<longrightarrow> shell_safe s"
  shows "wp (manage_custom_iptables e srv vm_ip internal external proto ''ADD'' src)
           (\<lambda>ok s'. ins (calls s') = (if ok then ins (calls s) + mset (filter (\<lambda>r. r \<notin># ins (calls s))
              (custom_rules e src proto external vm_ip internal)) else ins (calls s)))
           (\<lambda>_ s'. calls s' = calls s) s"
proof -
  let ?rs = "custom_rules e src proto external vm_ip internal"
  have main: "wp (with_gateway e ip user commands (Some rollbacks))
      (\<lambda>ok s'. ins (calls s') = (if ok then ins (calls s) + mset (filter (\<lambda>r. r \<notin># ins (calls s)) ?rs)
         else ins (calls s)))
      (\<lambda>_ s'. calls s' = calls s) s"
    if v: "validate_ip vm_ip = Inr a" "validate_ip (GATEWAY_PUBLIC_IP (conf e)) = Inr b"
      and p: "proto \<in> VALID_PROTOCOLS" and g: "gateway_of srv = Some (ip, user)"
      and n: "normalize_source_ip src = Inr m"
      and c: "port_commands ''ADD'' (case m of None \<Rightarrow> '''' | Some s \<Rightarrow> ''-s '' @ s @ '' '') proto
                (GATEWAY_PUBLIC_IP (conf e)) external vm_ip internal = Inr commands"
      and d: "port_commands ''DELETE'' (case m of None \<Rightarrow> '''' | Some s \<Rightarrow> ''-s '' @ s @ '' '') proto
                (GATEWAY_PUBLIC_IP (conf e)) external vm_ip internal = Inr rollbacks"
    for a b ip user m commands rollbacks
  proof -
    have h: "ip = h" using gateway_ofD[OF g] gw by simp
    have cs: "commands = map add_command_of ?rs"
      using c unfolding normalized_args[OF n] port_commands_ADD by (simp add: custom_rules_def)
    have len: "length rollbacks = length ?rs"
      using port_commands_DELETE_length[OF d] by (simp add: custom_rules_def port_rules_def)
    have ne: "?rs \<noteq> []" by (simp add: custom_rules_def port_rules_def)
    have "shell_safe proto" using p by (auto simp: VALID_PROTOCOLS_def shell_safe_def)
    then have plain: "\<forall>r \<in> set ?rs. plain_rule r"
      unfolding custom_rules_def
      by (intro port_rules_plain shell_safe_source[OF safe] shell_safe_ip[OF v(1)] shell_safe_ip[OF v(2)])
    show ?thesis
      unfolding h cs by (rule wp_mono[OF with_gateway_spec[OF law inert plain len ne]]) auto
  qed
  show ?thesis
    unfolding manage_custom_iptables_def by (auto simp: wp_simps Let_def intro!: wp_mono[OF main])
qed

section \<open>Booking and taking back\<close>

lemma keeps_calls_random [keeps_intros]: "keeps calls (try_random_port e n lo hi)"
  by (induction n) (auto simp: Let_def intro!: keeps_intros)

lemma pick_port_spec:
  "wp (pick_port e)
     (\<lambda>x t. db t = db s \<and> calls t = calls s \<and> 30000 \<le> x \<and> x \<le> 39999 \<and>
        x \<notin> p_external_port ` set (vm_ports (db s)))
     (\<lambda>_ t. db t = db s \<and> calls t = calls s) s"
proof -
  have "wp (allocate_random_port e)
     (\<lambda>x t. db t = db s \<and> calls t = calls s \<and> 30000 \<le> x \<and> x \<le> 39999 \<and>
        x \<notin> p_external_port ` set (vm_ports (db s)))
     (\<lambda>_ t. db t = db s \<and> calls t = calls s) s"
  proof (rule wp_runI)
    fix x t assume run: "allocate_random_port e s = (Inr x, t)"
    show "db t = db s \<and> calls t = calls s \<and> 30000 \<le> x \<and> x \<le> 39999 \<and> x \<notin> p_external_port ` set (vm_ports (db s))"
      using try_random_port_run[OF run[unfolded allocate_random_port_def]]
        keepsD[OF keeps_calls_random run[unfolded allocate_random_port_def]] by simp
  next
    fix x t assume run: "allocate_random_port e s = (Inl x, t)"
    show "db t = db s \<and> calls t = calls s"
      using try_random_port_run[OF run[unfolded allocate_random_port_def]]
        keepsD[OF keeps_calls_random run[unfolded allocate_random_port_def]] by simp
  qed
  then show ?thesis unfolding pick_port_def by (simp add: wp_simps)
qed

lemma book_port_spec:
  assumes "db_answers e"
  shows "wp (book_port e row)
     (\<lambda>i t. i = next_id (db s) \<and> db t = add_port row (db s) \<and> constraints_ok (db t) \<and> calls t = calls s @ [DbCommit])
     (\<lambda>_ t. db t = db s \<and> calls t = calls s) s"
  unfolding book_port_def by (simp add: wp_simps db_answersD[OF assms])

lemma drop_port_added: "ids_ok d \<Longrightarrow> drop_port (next_id d) (add_port row d) = d\<lparr>next_id := next_id d + 1\<rparr>"
  using port_table.insert_delete[of "vm_ports d" "next_id d" row]
  by (simp add: drop_port_def add_port_def ids_ok_def)

lemma constraints_drop_port: "constraints_ok d \<Longrightarrow> constraints_ok (drop_port i d)"
  by (auto simp: constraints_ok_def drop_port_def intro: distinct_map_delete_rows)

lemma unbook_port_spec:
  assumes "db_answers e" and "constraints_ok (db s)"
  shows "wp (unbook_port e i x) (\<lambda>_ _. False)
     (\<lambda>_ t. db t = drop_port i (db s) \<and> calls t = calls s @ [DbCommit]) s"
  unfolding unbook_port_def by (simp add: wp_simps db_answersD[OF assms(1)] constraints_drop_port[OF assms(2)])

lemma forward_port_spec:
  assumes law: "lawful_gateway e h ins" and inert: "inert_elsewhere h ins" and ans: "db_answers e"
    and gw: "\<forall>srv \<in> set (servers (db s)). srv_gateway_ip srv = Some h"
    and safe: "\<forall>a. pc_source b = Some a \<longrightarrow> shell_safe a" and con: "constraints_ok (db s)"
  shows "wp (forward_port e v b external i)
     (\<lambda>_ t. db t = db s \<and> ins (calls t) = ins (calls s) + mset (filter (\<lambda>r. r \<notin># ins (calls s))
        (custom_rules e (pc_source b) (pc_protocol b) external (opt_str (vm_internal_ip v)) (pc_internal_port b))))
     (\<lambda>_ t. db t = drop_port i (db s) \<and> ins (calls t) = ins (calls s)) s"
    (is "wp _ ?Q ?E s")
proof -
  have off: "ins (calls t @ [DbCommit]) = ins (calls t)" for t :: sys by (rule inertD[OF inert]) simp
  have undo: "wp (unbook_port e i x) Q ?E t" if "db t = db s" "ins (calls t) = ins (calls s)" for t x Q
    by (rule wp_mono[OF unbook_port_spec[OF ans]]) (use that con off in auto)
  let ?m = "\<lambda>srv. manage_custom_iptables e srv (opt_str (vm_internal_ip v)) (pc_internal_port b) external
      (pc_protocol b) ''ADD'' (pc_source b)"
  have add: "wp (?m srv) (\<lambda>ok t. db t = db s \<and> ins (calls t) = (if ok then ins (calls s) + mset (filter (\<lambda>r. r \<notin># ins (calls s))
        (custom_rules e (pc_source b) (pc_protocol b) external (opt_str (vm_internal_ip v)) (pc_internal_port b)))
        else ins (calls s))) (\<lambda>_ t. db t = db s \<and> ins (calls t) = ins (calls s)) s"
    if "srv \<in> set (servers (db s))" for srv
    by (rule wp_mono[OF wp_conj[OF manage_custom_ADD_spec[OF law inert gw[rule_format, OF that] safe]
            keeps_wp[OF keeps_manage_custom refl]]]) auto
  have step: "wp (?m srv) (\<lambda>ok. wp (if ok then ret () else unbook_port e i (Http 502 ''gateway-failed'')) ?Q ?E)
      (\<lambda>x. wp (unbook_port e i (case x of ValueError m \<Rightarrow> Http 400 m | _ \<Rightarrow> Http 502 ''gateway-failed''))
         (\<lambda>ok. wp (if ok then ret () else unbook_port e i (Http 502 ''gateway-failed'')) ?Q ?E) ?E) s"
    if "srv \<in> set (servers (db s))" for srv
    by (rule wp_mono[OF add[OF that]]) (auto simp: wp_ret intro!: undo)
  show ?thesis
  proof (cases "find (\<lambda>r. srv_id r = vm_server_id v) (servers (db s))")
    case None
    then show ?thesis unfolding forward_port_def wp_seq wp_catch wp_vm_server by (simp add: undo)
  next
    case (Some srv)
    then have "srv \<in> set (servers (db s))" by (simp add: find_Some_iff_mem)
    from step[OF this] show ?thesis
      unfolding forward_port_def wp_seq wp_catch wp_vm_server by (simp only: Some option.case)
  qed
qed

lemma custom_count_add: "custom_count (add_port (custom_row v b x) d) v = custom_count d v + 1"
  by (simp add: custom_count_def add_port_def custom_row_def)

text \<open>What a successful request leaves behind.\<close>

definition forwarded ::
  "env \<Rightarrow> (call list \<Rightarrow> rule multiset) \<Rightarrow> vm \<Rightarrow> vm_port \<Rightarrow> sys \<Rightarrow> sys \<Rightarrow> bool" where
  "forwarded e ins v row s s' \<longleftrightarrow>
     30000 \<le> p_external_port row \<and> p_external_port row \<le> 39999 \<and>
     p_external_port row \<notin> p_external_port ` set (vm_ports (db s)) \<and>
     p_vm_id row = vm_id v \<and> p_id row = next_id (db s) \<and>
     db s' = add_port row (db s) \<and> custom_count (db s') v \<le> 30 \<and>
     (opt_truthy (vm_internal_ip v) \<longrightarrow>
        set (custom_rules e (p_source row) (p_protocol row) (p_external_port row)
               (opt_str (vm_internal_ip v)) (p_internal_port row)) \<subseteq> set_mset (ins (calls s')))"

lemma add_custom_port_run:
  assumes law: "lawful_gateway e h ins" and inert: "inert_elsewhere h ins" and ans: "db_answers e"
    and ids: "ids_ok (db s)"
    and gw: "\<forall>srv \<in> set (servers (db s)). srv_gateway_ip srv = Some h"
    and safe: "\<forall>a. pc_source b = Some a \<longrightarrow> shell_safe a"
    and few: "custom_count (db s) v < 30"
  shows "wp (seq (pick_port e) (\<lambda>external. seq (book_port e (custom_row v b external)) (\<lambda>i.
       seq (if opt_truthy (vm_internal_ip v) then forward_port e v b external i else ret ()) (\<lambda>_.
       ret ((custom_row v b external)\<lparr>p_id := i\<rparr>)))))
     (\<lambda>row t. forwarded e ins v row s t)
     (\<lambda>_ t. (db t)\<lparr>next_id := next_id (db s)\<rparr> = db s \<and> ins (calls t) = ins (calls s)) s"
    (is "wp _ ?Q ?E s")
proof -
  have off: "ins (calls t @ [DbCommit]) = ins (calls t)" for t :: sys by (rule inertD[OF inert]) simp
  have tail: "wp (seq (if opt_truthy (vm_internal_ip v) then forward_port e v b x i else ret ()) (\<lambda>_.
       ret ((custom_row v b x)\<lparr>p_id := i\<rparr>))) ?Q ?E t"
    if x: "30000 \<le> x" "x \<le> 39999" "x \<notin> p_external_port ` set (vm_ports (db s))"
      and i: "i = next_id (db s)" and t: "db t = add_port (custom_row v b x) (db s)" "constraints_ok (db t)"
        "ins (calls t) = ins (calls s)" for x i t
  proof -
    have row: "(custom_row v b x)\<lparr>p_id := i\<rparr> = (custom_row v b x)\<lparr>p_id := next_id (db s)\<rparr>" using i by simp
    have add: "add_port (custom_row v b x) (db s) = add_port ((custom_row v b x)\<lparr>p_id := i\<rparr>) (db s)"
      by (simp add: add_port_def custom_row_def)
    have good: "?Q ((custom_row v b x)\<lparr>p_id := i\<rparr>) u"
      if "db u = db t" and "opt_truthy (vm_internal_ip v) \<Longrightarrow> set (custom_rules e (pc_source b) (pc_protocol b) x
          (opt_str (vm_internal_ip v)) (pc_internal_port b)) \<subseteq> set_mset (ins (calls u))" for u
      using that x i t(1) few add custom_count_add[of v b x "db s"]
      by (simp add: forwarded_def custom_row_def)
    show ?thesis
    proof (cases "opt_truthy (vm_internal_ip v)")
      case True
      have gw': "\<forall>srv \<in> set (servers (db t)). srv_gateway_ip srv = Some h" using gw t(1) by (simp add: add_port_def)
      have drop: "(drop_port i (db t))\<lparr>next_id := next_id (db s)\<rparr> = db s"
        using drop_port_added[OF ids] i t(1) by simp
      have "wp (forward_port e v b x i) (\<lambda>_ u. ?Q ((custom_row v b x)\<lparr>p_id := i\<rparr>) u) ?E t"
        by (rule wp_mono[OF forward_port_spec[OF law inert ans gw' safe t(2)]])
          (use t(3) drop in \<open>auto intro!: good\<close>)
      then show ?thesis using True by (simp add: wp_simps)
    next
      case False
      then show ?thesis using good[of t] by (simp add: wp_simps)
    qed
  qed
  show ?thesis
    unfolding wp_seq[of "pick_port e"] wp_seq[of "book_port e _"]
    by (rule wp_mono[OF pick_port_spec], rule wp_mono[OF book_port_spec[OF ans]])
      (use tail off in auto)
qed


definition port_env :: env where
  "port_env = sample_env (sim_answer ''10.0.0.1'')"

definition port_db :: "string option \<Rightarrow> database" where
  "port_db ip = empty_database\<lparr>servers := [sample_server\<lparr>srv_gateway_user := None\<rparr>],
     vms := [(sample_vm 1 (Some 7))\<lparr>vm_internal_ip := ip\<rparr>], next_id := 5\<rparr>"

definition sample_port :: port_create where
  "sample_port = \<lparr>pc_internal_port = 8080, pc_protocol = ''tcp'', pc_source = None, pc_description = None\<rparr>"


section \<open>Default ports and routes\<close>

definition default_internals :: "database \<Rightarrow> vm \<Rightarrow> int list" where
  "default_internals d v = map p_internal_port (filter (\<lambda>p. p_vm_id p = vm_id v \<and> p_is_default p) (vm_ports d))"

lemma missing_defaults_set: "m \<in> set (missing_defaults d v) \<longleftrightarrow>
    m \<in> set DEFAULT_PORTS \<and> fst m \<notin> set (default_internals d v)"
  by (auto simp: missing_defaults_def default_internals_def list_ex_iff image_iff)

lemma default_internals_restored:
  "default_internals (foldl (\<lambda>w row. add_port row w) d (map (restored_row v ps) ms)) v =
     default_internals d v @ map fst ms"
proof (induction ms rule: rev_induct)
  case (snoc m ms)
  then show ?case
    by (cases m) (simp add: default_internals_def add_port_def restored_row_def default_port_def)
qed simp

lemma restored_complete: "{22, 80, 10000} \<subseteq>
    set (default_internals (foldl (\<lambda>w row. add_port row w) d (map (restored_row v ps) (missing_defaults d v))) v)"
proof -
  have "fst m \<in> set (default_internals d v) \<union> fst ` set (missing_defaults d v)" if "m \<in> set DEFAULT_PORTS" for m
    using that missing_defaults_set[of m d v] by blast
  then have "fst ` set DEFAULT_PORTS \<subseteq> set (default_internals d v) \<union> fst ` set (missing_defaults d v)" by blast
  then show ?thesis unfolding default_internals_restored by (simp add: DEFAULT_PORTS_def)
qed

lemma restored_prefix: "prefix (vm_ports d) (vm_ports (foldl (\<lambda>w row. add_port row w) d rows))"
  by (induction rows rule: rev_induct) (auto simp: add_port_def)

lemma keeps_forward_default [keeps_intros]: "keeps db (forward_default e srv v row)"
  unfolding forward_default_def by (intro keeps_intros)

lemma restore_default_ports_run:
  assumes "restore_default_ports e node vmid u s = (Inr n, s')"
  obtains v ps where "find_owned_vm vmid u (Some node) (db s) = Some v" "n = length (missing_defaults (db s) v)"
    "db s' = foldl (\<lambda>w row. add_port row w) (db s) (map (restored_row v ps) (missing_defaults (db s) v))"
    "n = 0 \<or> (\<exists>srv \<in> set (servers (db s)). calculate_ports (srv_base_port srv) vmid = Inr ps)"
proof -
  from assms obtain v where v: "find_owned_vm vmid u (Some node) (db s) = Some v"
    unfolding restore_default_ports_def by (auto simp: run_iffs)
  show ?thesis
  proof (cases "missing_defaults (db s) v = []")
    case True
    then have "n = 0 \<and> s' = s" using assms v
      unfolding restore_default_ports_def by (auto simp: run_iffs Let_def)
    then show ?thesis using that[OF v] True by simp
  next
    case False
    then obtain srv ps t where *: "find (\<lambda>r. srv_id r = vm_server_id v) (servers (db s)) = Some srv"
      "calculate_ports (srv_base_port srv) vmid = Inr ps"
      "for_each (map (restored_row v ps) (missing_defaults (db s) v)) (forward_default e srv v) s = (Inr (), t)"
      "commit e (foldl (\<lambda>w row. add_port row w) (db t) (map (restored_row v ps) (missing_defaults (db s) v))) t = (Inr (), s')"
      "n = length (missing_defaults (db s) v)"
      using assms v unfolding restore_default_ports_def
      by (auto simp: run_iffs Let_def)
    have "db t = db s" using *(3) by (rule keepsD[OF keeps_for_each[OF keeps_forward_default]])
    then show ?thesis using that[OF v *(5)] *(1,2) commit_constraints[OF *(4)] find_Some_iff_mem by metis
  qed
qed

text \<open>
  Restoring the default ports: after a success the VM has a default row for each of SSH, HTTP and SVC, the rows
  that were there are kept, the new ones have the computed external ports, and a second restore finds
  nothing to do. After an error the tables are what they were.
\<close>

theorem restore_default_ports_complete:
  "(\<forall>n s'. restore_default_ports e node vmid u s = (Inr n, s') \<longrightarrow>
      (\<exists>v. find_owned_vm vmid u (Some node) (db s) = Some v \<and>
         {22, 80, 10000} \<subseteq> set (default_internals (db s') v) \<and> missing_defaults (db s') v = [] \<and>
         prefix (vm_ports (db s)) (vm_ports (db s')) \<and> vms (db s') = vms (db s))) \<and>
   (\<forall>x s'. restore_default_ports e node vmid u s = (Inl x, s') \<longrightarrow> db s' = db s)"
proof (intro conjI allI impI)
  fix n s' assume "restore_default_ports e node vmid u s = (Inr n, s')"
  then obtain v ps where *: "find_owned_vm vmid u (Some node) (db s) = Some v"
    "db s' = foldl (\<lambda>w row. add_port row w) (db s) (map (restored_row v ps) (missing_defaults (db s) v))"
    by (rule restore_default_ports_run) blast
  have all: "{22, 80, 10000} \<subseteq> set (default_internals (db s') v)"
    unfolding *(2) by (rule restored_complete)
  then have "m \<notin> set (missing_defaults (db s') v)" for m
    unfolding missing_defaults_set by (auto simp: DEFAULT_PORTS_def)
  then have "missing_defaults (db s') v = []" by (metis list.set_intros(1) neq_Nil_conv)
  moreover have "vms (foldl (\<lambda>w row. add_port row w) d rows) = vms d" for d rows
    by (induction rows rule: rev_induct) (simp_all add: add_port_def)
  ultimately show "\<exists>v. find_owned_vm vmid u (Some node) (db s) = Some v \<and>
         {22, 80, 10000} \<subseteq> set (default_internals (db s') v) \<and> missing_defaults (db s') v = [] \<and>
         prefix (vm_ports (db s)) (vm_ports (db s')) \<and> vms (db s') = vms (db s)"
    using *(1) all restored_prefix[of "db s"] unfolding *(2) by auto
next
  fix x s' assume run: "restore_default_ports e node vmid u s = (Inl x, s')"
  have "undoes (restore_default_ports e node vmid u)"
    unfolding restore_default_ports_def by (intro undoes_intros keeps_intros)
  then show "db s' = db s" using run by (rule undoesD)
qed

lemma restore_default_ports_complete_witness:
  "let s = sample_state (port_db None) in
   \<exists>s'. restore_default_ports port_env ''node1'' 101 (sample_user 7 USER) s = (Inr 3, s') \<and>
     {22, 80, 10000} \<subseteq> set (default_internals (db s') ((sample_vm 1 (Some 7))\<lparr>vm_internal_ip := None\<rparr>))"
proof -
  let ?run = "restore_default_ports port_env ''node1'' 101 (sample_user 7 USER) (sample_state (port_db None))"
  have "fst ?run = Inr 3" by code_simp
  then obtain s' where run: "?run = (Inr 3, s')" by (cases ?run) auto
  have "find_owned_vm 101 (sample_user 7 USER) (Some ''node1'') (db (sample_state (port_db None))) =
      Some ((sample_vm 1 (Some 7))\<lparr>vm_internal_ip := None\<rparr>)"
    by (simp add: find_owned_vm_def on_node_def port_db_def sample_defs)
  then show ?thesis
    using conjunct1[OF restore_default_ports_complete, rule_format, OF run] run by (auto simp: Let_def)
qed

lemma synced_added:
  "ids_ok d \<Longrightarrow> set_synced (next_id d) (add_route_row row d) = add_route_row (row\<lparr>r_caddy_synced := True\<rparr>) d"
proof -
  assume "ids_ok d"
  then have "update_rows (\<lambda>r. r_id r = next_id d) f (https_routes d) = https_routes d" for f
    by (auto simp: ids_ok_def intro!: update_rows_id)
  moreover have "update_rows p f [x] = [if p x then f x else x]" for p f and x :: https_route
    by (simp add: update_rows_def)
  ultimately show ?thesis by (simp add: set_synced_def add_route_row_def)
qed

lemma constraints_synced [simp]:
  "constraints_ok (add_route_row (row\<lparr>r_caddy_synced := b\<rparr>) d) = constraints_ok (add_route_row row d)"
  by (simp add: constraints_ok_def add_route_row_def)

lemma route_added:
  assumes "constraints_ok (add_route_row row d)"
  shows "r_subdomain row \<notin> r_subdomain ` set (https_routes d)"
    and "https_routes (add_route_row row d) = https_routes d @ [row\<lparr>r_id := next_id d\<rparr>]"
  using assms by (auto simp: constraints_ok_def add_route_row_def)

definition route_made :: "env \<Rightarrow> vm \<Rightarrow> https_route \<Rightarrow> database \<Rightarrow> database \<Rightarrow> bool" where
  "route_made e v row d d' \<longleftrightarrow> r_id row = next_id d \<and> r_vm_id row = vm_id v \<and>
     r_subdomain row \<notin> r_subdomain ` set (https_routes d) \<and> https_routes d' = https_routes d @ [row] \<and>
     int (length (routes_of d' v)) \<le> MAX_HTTPS_ROUTES_PER_VM (conf e)"

lemma route_madeI:
  assumes "constraints_ok (add_route_row (new_route v b) d)" and "\<not> MAX_HTTPS_ROUTES_PER_VM (conf e) \<le> int (length (routes_of d v))"
  shows "route_made e v ((new_route v b)\<lparr>r_id := next_id d, r_caddy_synced := x\<rparr>) d
     (add_route_row ((new_route v b)\<lparr>r_caddy_synced := x\<rparr>) d)"
proof -
  have "constraints_ok (add_route_row ((new_route v b)\<lparr>r_caddy_synced := x\<rparr>) d)" using assms(1) by simp
  note added = route_added[OF this]
  show ?thesis
    using added(1) assms(2) unfolding route_made_def routes_of_def added(2) by (simp add: new_route_def)
qed

lemma new_route_unsynced [simp]: "(new_route v b)\<lparr>r_caddy_synced := False\<rparr> = new_route v b"
  by (simp add: new_route_def)

lemma add_https_route_run:
  assumes ans: "db_answers e" and ids: "ids_ok (db s)"
  shows "wp (add_https_route e node vmid body u)
     (\<lambda>row t. \<exists>v. find_owned_vm vmid u (Some node) (db s) = Some v \<and> route_made e v row (db s) (db t))
     (\<lambda>_ t. db t = db s) s"
proof -
  have tail: "wp (seq (add_route e sd ip p) (\<lambda>synced.
       seq (if synced then seq (gets db) (\<lambda>d'. commit e (set_synced (next_id (db s)) d')) else ret ()) (\<lambda>_.
       ret ((new_route v b)\<lparr>r_id := next_id (db s), r_caddy_synced := synced\<rparr>))))
     (\<lambda>row t. route_made e v row (db s) (db t)) (\<lambda>_ t. db t = db s) t"
    if t: "db t = add_route_row (new_route v b) (db s)" and c: "constraints_ok (add_route_row (new_route v b) (db s))"
      and few: "\<not> MAX_HTTPS_ROUTES_PER_VM (conf e) \<le> int (length (routes_of (db s) v))" for t sd ip p v b
  proof -
    have unsynced: "route_made e v ((new_route v b)\<lparr>r_id := next_id (db s), r_caddy_synced := False\<rparr>) (db s)
        (add_route_row (new_route v b) (db s))"
      using route_madeI[OF c few, of False] by (simp only: new_route_unsynced)
    show ?thesis
      unfolding wp_seq[of "add_route _ _ _ _"]
      by (rule wp_mono[OF add_route_total])
        (use t c unsynced route_madeI[OF c few] in \<open>auto simp: wp_simps db_answersD[OF ans] synced_added[OF ids]\<close>)
  qed
  show ?thesis
    unfolding add_https_route_def wp_seq[of "lift _"] wp_seq[of "get_vm_with_owner_check _ _ _"]
      wp_seq[of "gets _"] wp_seq[of "raise_if _ _"] wp_seq[of "catch _ _"] wp_lift wp_get_vm wp_gets wp_raise_if
    by (auto split: option.split simp: wp_catch wp_commit wp_raise db_answersD[OF ans] intro!: wp_mono[OF tail])
qed

text \<open>
  An HTTPS route is made within the limit of the VM, under a subdomain that no route of any VM has, and
  the flag of its row tells whether Caddy has taken it; a request that is refused leaves the tables alone.
\<close>

theorem add_https_route_limits:
  assumes "db_answers e" and "ids_ok (db s)" and "add_https_route e node vmid body u s = (r, s')"
  shows "case r of
       Inr row \<Rightarrow> \<exists>v. find_owned_vm vmid u (Some node) (db s) = Some v \<and> route_made e v row (db s) (db s')
     | Inl x \<Rightarrow> db s' = db s"
  using add_https_route_run[OF assms(1,2), of node vmid body u] assms(3) by (auto simp: wp_def split: sum.splits)

lemma add_https_route_limits_witness:
  "\<exists>row s'. add_https_route (sample_env caddy_answer) ''node1'' 101 \<lparr>rc_subdomain = ''app1'', rc_internal_port = 80\<rparr>
       (sample_user 7 USER) (sample_state (port_db (Some ''10.0.0.100''))) = (Inr row, s') \<and>
     r_caddy_synced row \<and> https_routes (db s') = [row]"
proof -
  let ?run = "add_https_route (sample_env caddy_answer) ''node1'' 101 \<lparr>rc_subdomain = ''app1'', rc_internal_port = 80\<rparr>
       (sample_user 7 USER) (sample_state (port_db (Some ''10.0.0.100'')))"
  have "(case fst ?run of Inl _ \<Rightarrow> False | Inr row \<Rightarrow> r_caddy_synced row)" by code_simp
  then obtain row s' where run: "?run = (Inr row, s')" "r_caddy_synced row"
    by (cases ?run) (auto split: sum.splits)
  have "db_answers (sample_env caddy_answer)" by (simp add: db_answers_def sample_env_def caddy_answer_def)
  moreover have "ids_ok (db (sample_state (port_db (Some ''10.0.0.100''))))"
    by (simp add: ids_ok_def port_db_def sample_defs)
  ultimately have "https_routes (db s') = [row]"
    using add_https_route_limits[OF _ _ run(1)] by (auto simp: route_made_def port_db_def sample_defs)
  with run show ?thesis by blast
qed

section \<open>The tables stay well formed\<close>

lemma ids_port_rows:
  "ids_ok d \<Longrightarrow> ids_ok (drop_port i d)" "ids_ok d \<Longrightarrow> ids_ok (drop_route i d)" "ids_ok d \<Longrightarrow> ids_ok (add_route_row r d)"
  "ids_ok d \<Longrightarrow> ids_ok (set_synced i d)"
  by (force simp: ids_ok_def drop_port_def drop_route_def add_route_row_def set_synced_def map_update_rows
      set_update_rows intro: distinct_map_delete_rows)+

lemma refs_rows:
  "refs_ok d \<Longrightarrow> refs_ok (drop_port i d)" "refs_ok d \<Longrightarrow> refs_ok (drop_route i d)"
  "refs_ok d \<Longrightarrow> r_vm_id r < next_id d \<Longrightarrow> refs_ok (add_route_row r d)" "refs_ok d \<Longrightarrow> refs_ok (set_synced i d)"
  by (force simp: refs_ok_def drop_port_def drop_route_def add_route_row_def set_synced_def set_update_rows)+
end
