(* ===== verification/Registration.thy ===== *)
theory Registration
  imports VmControl
begin

text \<open>
  The first half of \<open>api/routes/auth.py\<close> with \<open>services/datagsm_service.py\<close> and \<open>services/email_service.py\<close>:
  the lookup of students and projects, the two ways to register, the confirmation of the mailed code, the
  approval of project owners and the repetition of a code. EmailStr and the rate limits are not modelled.
\<close>

section \<open>The DataGSM lookups (datagsm_service.py)\<close>

text \<open>The reply to an HTTP request: its status and its parsed body.\<close>

fun http_reply :: "json \<Rightarrow> exn + (int \<times> json)" where
  "http_reply (JList [JInt status, body]) = Inr (status, body)"
| "http_reply _ = Inl OtherException"

definition MAJOR_MAP :: "(string \<times> string) list" where
  "MAJOR_MAP =
     [(''SW_DEVELOPMENT'',
       [CHR 0xEC, CHR 0x86, CHR 0x8C, CHR 0xED, CHR 0x94, CHR 0x84, CHR 0xED, CHR 0x8A, CHR 0xB8, CHR 0xEC, CHR 0x9B, CHR 0xA8,
        CHR 0xEC, CHR 0x96, CHR 0xB4, CHR 0xEA, CHR 0xB0, CHR 0x9C, CHR 0xEB, CHR 0xB0, CHR 0x9C, CHR 0xEA, CHR 0xB3, CHR 0xBC]),
      (''SMART_IOT'',
       [CHR 0xEC, CHR 0x8A, CHR 0xA4, CHR 0xEB, CHR 0xA7, CHR 0x88, CHR 0xED, CHR 0x8A, CHR 0xB8, CHR ''I'', CHR ''o'', CHR ''T'',
        CHR 0xEA, CHR 0xB3, CHR 0xBC]),
      (''AI'', ''AI'' @ [CHR 0xEA, CHR 0xB3, CHR 0xBC])]"

text \<open>\<open>MAJOR_MAP.get(major, major)\<close>.\<close>

definition major_of :: "json \<Rightarrow> exn + json" where
  "major_of m =
     (if \<not> hashable m then Inl TypeError
      else Inr (case m of JStr s \<Rightarrow> (case map_of MAJOR_MAP s of None \<Rightarrow> m | Some t \<Rightarrow> JStr t) | _ \<Rightarrow> m))"

definition student_info :: "json \<Rightarrow> json \<Rightarrow> json \<Rightarrow> json \<Rightarrow> json \<Rightarrow> json" where
  "student_info name grade class_num number major =
     JObj [(''name'', name), (''grade'', grade), (''class_num'', class_num), (''number'', number), (''major'', major)]"

text \<open>The body of a successful reply: no student, or the first one.\<close>

definition student_of :: "json \<Rightarrow> exn + json option" where
  "student_of body =
     andthen (obj_get body ''data'' (JObj [])) (\<lambda>dat.
     andthen (obj_get dat ''students'' (JList [])) (\<lambda>students.
     if \<not> truthy students then Inr None
     else case students of
         JList (st # _) \<Rightarrow>
           andthen (obj_get st ''name'' JNull) (\<lambda>name.
           andthen (obj_get st ''grade'' JNull) (\<lambda>grade.
           andthen (obj_get st ''classNum'' JNull) (\<lambda>class_num.
           andthen (obj_get st ''number'' JNull) (\<lambda>number.
           andthen (obj_get st ''major'' JNull) (\<lambda>major0.
           andthen (major_of major0) (\<lambda>major.
           Inr (Some (student_info name grade class_num number major))))))))
       | _ \<Rightarrow> Inl TypeError))"

text \<open>Whatever fails, the caller sees \<open>RuntimeError\<close>.\<close>

definition lookup_student_by_email :: "env \<Rightarrow> string \<Rightarrow> (sys, json option) prog" where
  "lookup_student_by_email e email =
     (if DATAGSM_API_KEY (conf e) = [] then ret (Some (student_info JNull JNull JNull JNull JNull))
      else catch
        (seq (ext e (GsmStudents email)) (\<lambda>r.
         seq (lift (http_reply r)) (\<lambda>(status, body).
         seq (raise_if (status \<noteq> 200) (RuntimeError ''datagsm'')) (\<lambda>_.
         lift (student_of body)))))
        (\<lambda>_. raise (RuntimeError ''datagsm'')))"

definition projects_of :: "json \<Rightarrow> exn + (json list \<times> rat)" where
  "projects_of body =
     andthen (obj_get body ''data'' (JObj [])) (\<lambda>dat.
     andthen (obj_get dat ''projects'' (JList [])) (\<lambda>projects.
     if \<not> truthy projects then Inr ([], 0)
     else
       andthen (as_list projects) (\<lambda>ps.
       andthen (obj_get dat ''totalPages'' (JInt 1)) (\<lambda>tp.
       andthen (as_num tp) (\<lambda>total. Inr (ps, total))))))"

text \<open>
  The \<open>while True\<close> over the pages, with the number of requests allowed as fuel. None means that the fuel
  has run out: the service keeps announcing more pages, and the code would keep asking.
\<close>

fun fetch_projects :: "env \<Rightarrow> nat \<Rightarrow> int \<Rightarrow> json list \<Rightarrow> (sys, json list option) prog" where
  "fetch_projects e 0 page acc = ret None"
| "fetch_projects e (Suc fuel) page acc =
     seq (ext e (GsmProjects page)) (\<lambda>r.
     seq (lift (http_reply r)) (\<lambda>(status, body).
     if status \<noteq> 200 then ret (Some acc)
     else
       seq (lift (projects_of body)) (\<lambda>(ps, total).
       if ps = [] then ret (Some acc)
       else if total \<le> of_int (page + 1) then ret (Some (acc @ ps))
       else fetch_projects e fuel (page + 1) (acc @ ps))))"

fun has_participant :: "string \<Rightarrow> json list \<Rightarrow> exn + bool" where
  "has_participant email [] = Inr False"
| "has_participant email (p # ps) =
     andthen (obj_get p ''email'' (JStr [])) (\<lambda>m.
     case m of
       JStr s \<Rightarrow> if py_lower s = py_lower email then Inr True else has_participant email ps
     | _ \<Rightarrow> Inl AttributeError)"

definition project_entry :: "json \<Rightarrow> exn + json" where
  "project_entry p =
     andthen (obj_get p ''club'' JNull) (\<lambda>club.
     andthen (obj_get p ''id'' JNull) (\<lambda>i.
     andthen (obj_get p ''name'' JNull) (\<lambda>name.
     andthen (if truthy club then obj_get club ''name'' JNull else Inr JNull) (\<lambda>club_name.
     Inr (JObj [(''id'', i), (''name'', name), (''club'', club_name)])))))"

fun match_projects :: "string \<Rightarrow> json list \<Rightarrow> exn + json list" where
  "match_projects email [] = Inr []"
| "match_projects email (p # ps) =
     andthen (obj_get p ''participants'' (JList [])) (\<lambda>j.
     andthen (as_list j) (\<lambda>participants.
     andthen (has_participant email participants) (\<lambda>b.
     if b then andthen (project_entry p) (\<lambda>x. andthen (match_projects email ps) (\<lambda>xs. Inr (x # xs)))
     else match_projects email ps)))"

definition lookup_projects_by_email :: "env \<Rightarrow> nat \<Rightarrow> string \<Rightarrow> (sys, json list option) prog" where
  "lookup_projects_by_email e fuel email =
     (if DATAGSM_API_KEY (conf e) = [] then ret (Some [])
      else catch
        (seq (fetch_projects e fuel 0 []) (\<lambda>r. case r of
           None \<Rightarrow> ret None
         | Some ps \<Rightarrow> seq (lift (match_projects email ps)) (\<lambda>xs. ret (Some xs))))
        (\<lambda>_. ret (Some [])))"

text \<open>A request whose lookup does not return does not return; it is modelled as a time-out of the client.\<close>

definition need_projects :: "env \<Rightarrow> nat \<Rightarrow> string \<Rightarrow> (sys, json list) prog" where
  "need_projects e fuel email =
     seq (lookup_projects_by_email e fuel email) (\<lambda>r. case r of None \<Rightarrow> raise TimeoutError | Some ps \<Rightarrow> ret ps)"

section \<open>Codes by mail (email_service.py)\<close>

definition generate_verification_code :: "env \<Rightarrow> (sys, string) prog" where
  "generate_verification_code e = random_text e digits 6"

definition send_verification_email :: "env \<Rightarrow> string \<Rightarrow> string \<Rightarrow> (sys, bool) prog" where
  "send_verification_email e email code =
     catch (seq (ext e (MailSend email code)) (\<lambda>_. ret True)) (\<lambda>_. ret False)"

section \<open>Registering\<close>

definition find_user_by_email_role :: "database \<Rightarrow> string \<Rightarrow> user_role \<Rightarrow> user option" where
  "find_user_by_email_role d email role = find (\<lambda>u. u_email u = email \<and> u_role u = role) (users d)"

text \<open>Deleting the unconfirmed codes of an address and a kind.\<close>

definition clear_codes :: "string \<Rightarrow> string \<Rightarrow> database \<Rightarrow> database" where
  "clear_codes email role d = d\<lparr>verifications :=
     delete_rows (\<lambda>r. e_email r = email \<and> e_signup_role r = role \<and> \<not> e_verified r) (verifications d)\<rparr>"

definition new_verification ::
  "settings \<Rightarrow> string \<Rightarrow> string \<Rightarrow> string \<Rightarrow> json option \<Rightarrow> string \<Rightarrow> string option \<Rightarrow> string option \<Rightarrow> int \<Rightarrow>
   email_verification" where
  "new_verification c email hashed code info role pname reason t =
     \<lparr>e_id = 0, e_email = email, e_hashed_password = hashed, e_code = code, e_student_info = info,
      e_signup_role = role, e_project_name = pname, e_project_reason = reason, e_created_at = t,
      e_expires_at = t + VERIFICATION_CODE_EXPIRE_MINUTES c * minute, e_verified = False, e_attempts = 0\<rparr>"

text \<open>Both ways to register end alike: the old codes go, a code is made, stored and mailed.\<close>

definition mail_code ::
  "crypto \<Rightarrow> env \<Rightarrow> string \<Rightarrow> string \<Rightarrow> json \<Rightarrow> string \<Rightarrow> string option \<Rightarrow> string option \<Rightarrow> (sys, unit) prog" where
  "mail_code cr e email password info role pname reason =
     seq (gets db) (\<lambda>d.
     seq (commit e (clear_codes email role d)) (\<lambda>_.
     seq (generate_verification_code e) (\<lambda>code.
     seq (get_password_hash cr e password) (\<lambda>hashed.
     seq now (\<lambda>t.
     seq (gets db) (\<lambda>d'.
     seq (commit e (add_verification (new_verification (conf e) email hashed code (Some info) role pname reason t) d')) (\<lambda>_.
     seq (send_verification_email e email code) (\<lambda>sent.
     raise_if (\<not> sent) (Http 500 ''mail-failed'')))))))))"

text \<open>The check that both ways share: \<open>RuntimeError\<close> of the lookup is a 503.\<close>

definition need_student :: "env \<Rightarrow> string \<Rightarrow> (sys, json) prog" where
  "need_student e email =
     seq (catch (lookup_student_by_email e email)
       (\<lambda>x. raise (case x of RuntimeError _ \<Rightarrow> Http 503 ''server-error'' | _ \<Rightarrow> x))) (\<lambda>r.
     case r of None \<Rightarrow> raise (Http 403 ''not-a-student'') | Some info \<Rightarrow> ret info)"

definition signup :: "crypto \<Rightarrow> env \<Rightarrow> string \<Rightarrow> string \<Rightarrow> (sys, unit) prog" where
  "signup cr e email password =
     seq (lift (validate_pw password)) (\<lambda>_.
     seq (gets db) (\<lambda>d.
     seq (raise_if (find_user_by_email_role d email USER \<noteq> None) (Http 400 ''user-exists'')) (\<lambda>_.
     seq (need_student e email) (\<lambda>info.
     mail_code cr e email password info ''user'' None None))))"

definition taken_projects :: "database \<Rightarrow> string list" where
  "taken_projects d =
     concat (map (\<lambda>u. case u_project_name u of None \<Rightarrow> [] | Some n \<Rightarrow> [n])
       (filter (\<lambda>u. u_role u = PROJECT_OWNER) (users d)))"

definition offered_project :: "string list \<Rightarrow> json \<Rightarrow> exn + json" where
  "offered_project taken p =
     andthen (obj_get p ''name'' JNull) (\<lambda>name.
     andthen (obj_get p ''club'' JNull) (\<lambda>club.
     if \<not> hashable name then Inl TypeError
     else Inr (JObj [(''name'', name), (''club'', club),
       (''taken'', JBool (case name of JStr s \<Rightarrow> s \<in> set taken | _ \<Rightarrow> False))])))"

definition check_project_eligibility :: "env \<Rightarrow> nat \<Rightarrow> string \<Rightarrow> (sys, json) prog" where
  "check_project_eligibility e fuel email =
     seq (gets db) (\<lambda>d.
     seq (raise_if (find_user_by_email_role d email PROJECT_OWNER \<noteq> None) (Http 400 ''owner-exists'')) (\<lambda>_.
     seq (need_student e email) (\<lambda>info.
     seq (need_projects e fuel email) (\<lambda>projects.
     seq (raise_if (projects = []) (Http 403 ''no-project'')) (\<lambda>_.
     seq (gets db) (\<lambda>d'.
     seq (map_each projects (\<lambda>p. lift (offered_project (taken_projects d') p))) (\<lambda>offers.
     ret (JObj [(''email'', JStr email), (''student'', info), (''projects'', JList offers)]))))))))"

record project_signup =
  ps_email :: string
  ps_password :: string
  ps_project_name :: string
  ps_reason :: string

definition signup_project :: "crypto \<Rightarrow> env \<Rightarrow> nat \<Rightarrow> project_signup \<Rightarrow> (sys, unit) prog" where
  "signup_project cr e fuel b =
     seq (lift (validate_pw (ps_password b))) (\<lambda>_.
     seq (gets db) (\<lambda>d.
     seq (raise_if (find_user_by_email_role d (ps_email b) PROJECT_OWNER \<noteq> None) (Http 400 ''owner-exists'')) (\<lambda>_.
     let owns = (\<lambda>active u. u_role u = PROJECT_OWNER \<and> u_project_name u = Some (ps_project_name b) \<and> u_is_active u = active)
     in
     seq (raise_if (list_ex (owns True) (users d)) (Http 409 ''project-has-owner'')) (\<lambda>_.
     seq (raise_if (list_ex (owns False) (users d)) (Http 409 ''owner-pending'')) (\<lambda>_.
     seq (need_student e (ps_email b)) (\<lambda>info.
     seq (need_projects e fuel (ps_email b)) (\<lambda>projects.
     seq (raise_if (\<not> list_ex (\<lambda>p. obj_get p ''name'' JNull = Inr (JStr (ps_project_name b))) projects)
            (Http 403 ''not-a-participant'')) (\<lambda>_.
     mail_code cr e (ps_email b) (ps_password b) (obj_put info ''projects'' (JList projects)) ''project_owner''
       (Some (ps_project_name b)) (Some (ps_reason b))))))))))"

section \<open>Confirming a code\<close>

text \<open>The unconfirmed code of an address that was made last; \<open>role\<close> restricts the kind.\<close>

definition pending_code :: "(string \<Rightarrow> bool) \<Rightarrow> string \<Rightarrow> database \<Rightarrow> email_verification option" where
  "pending_code kind email d =
     first_desc e_created_at (filter (\<lambda>r. e_email r = email \<and> kind (e_signup_role r) \<and> \<not> e_verified r) (verifications d))"

definition set_code :: "int \<Rightarrow> (email_verification \<Rightarrow> email_verification) \<Rightarrow> database \<Rightarrow> database" where
  "set_code i f d = d\<lparr>verifications := update_rows (\<lambda>r. e_id r = i) f (verifications d)\<rparr>"

definition drop_code :: "int \<Rightarrow> database \<Rightarrow> database" where
  "drop_code i d = d\<lparr>verifications := delete_rows (\<lambda>r. e_id r = i) (verifications d)\<rparr>"

definition MAX_ATTEMPTS :: int where "MAX_ATTEMPTS = 5"

text \<open>The checks on a code that the confirmation of an address and of a reset share.\<close>

definition check_code :: "env \<Rightarrow> email_verification option \<Rightarrow> string \<Rightarrow> (sys, email_verification) prog" where
  "check_code e found code =
     (case found of
        None \<Rightarrow> raise (Http 400 ''no-request'')
      | Some r \<Rightarrow>
          seq now (\<lambda>t.
          seq (raise_if (e_expires_at r < t) (Http 400 ''code-expired'')) (\<lambda>_.
          seq (raise_if (MAX_ATTEMPTS \<le> e_attempts r) (Http 429 ''too-many-attempts'')) (\<lambda>_.
          if e_code r \<noteq> py_strip code then
            seq (gets db) (\<lambda>d.
            seq (commit e (set_code (e_id r) (\<lambda>x. x\<lparr>e_attempts := e_attempts r + 1\<rparr>) d)) (\<lambda>_.
            raise (Http 400 ''wrong-code'')))
          else ret r))))"

text \<open>
  A field of the stored student information, as a column. A value that is not of the column's type is
  refused by the database.
\<close>

definition text_column :: "json \<Rightarrow> string \<Rightarrow> exn + string option" where
  "text_column info k = andthen (obj_get info k JNull) (\<lambda>v.
     case v of JStr s \<Rightarrow> Inr (Some s) | JNull \<Rightarrow> Inr None | _ \<Rightarrow> Inl DatabaseError)"

definition int_column :: "json \<Rightarrow> string \<Rightarrow> exn + int option" where
  "int_column info k = andthen (obj_get info k JNull) (\<lambda>v.
     case v of JInt i \<Rightarrow> Inr (Some i) | JNull \<Rightarrow> Inr None | _ \<Rightarrow> Inl DatabaseError)"

definition confirmed_user :: "email_verification \<Rightarrow> exn + user" where
  "confirmed_user r =
     (let owner = (e_signup_role r = ''project_owner'');
          info = (case e_student_info r of None \<Rightarrow> JObj [] | Some j \<Rightarrow> j)
      in andthen (text_column info ''name'') (\<lambda>name.
         andthen (int_column info ''grade'') (\<lambda>grade.
         andthen (int_column info ''class_num'') (\<lambda>class_num.
         andthen (int_column info ''number'') (\<lambda>number.
         andthen (text_column info ''major'') (\<lambda>major.
         Inr \<lparr>u_id = 0, u_email = e_email r, u_hashed_password = Some (e_hashed_password r),
              u_role = (if owner then PROJECT_OWNER else USER), u_is_active = \<not> owner,
              u_oauth_provider = None, u_oauth_sub = None, u_name = name, u_grade = grade,
              u_class_num = class_num, u_number = number, u_major = major, u_avatar_url = None,
              u_project_name = (if owner then e_project_name r else None),
              u_project_reason = (if owner then e_project_reason r else None)\<rparr>))))))"

record cookie =
  ck_key :: string
  ck_value :: string
  ck_secure :: bool
  ck_max_age :: int
  ck_path :: string

record tokens =
  tk_access :: string
  tk_refresh :: string

definition auth_cookies :: "settings \<Rightarrow> tokens \<Rightarrow> cookie list" where
  "auth_cookies c tk =
     (let is_prod = startswith (FRONTEND_URL c) ''https''
      in [\<lparr>ck_key = ''access_token'', ck_value = tk_access tk, ck_secure = is_prod,
           ck_max_age = ACCESS_TOKEN_EXPIRE_MINUTES c * 60, ck_path = ''/''\<rparr>,
          \<lparr>ck_key = ''refresh_token'', ck_value = tk_refresh tk, ck_secure = is_prod,
           ck_max_age = REFRESH_TOKEN_EXPIRE_MINUTES c * 60, ck_path = ''/api/v1/auth/refresh''\<rparr>])"

definition issue_tokens :: "crypto \<Rightarrow> env \<Rightarrow> int \<Rightarrow> (sys, tokens) prog" where
  "issue_tokens cr e uid =
     seq (create_access_token cr e uid) (\<lambda>a.
     seq (create_refresh_token cr e uid) (\<lambda>r. ret \<lparr>tk_access = a, tk_refresh = r\<rparr>))"

text \<open>None is the answer \<open>pending_approval\<close>; otherwise the tokens, also set as cookies.\<close>

definition verify_email :: "crypto \<Rightarrow> env \<Rightarrow> string \<Rightarrow> string \<Rightarrow> (sys, (tokens \<times> cookie list) option) prog" where
  "verify_email cr e email code =
     seq (gets db) (\<lambda>d.
     seq (check_code e (pending_code (\<lambda>_. True) email d) code) (\<lambda>r.
     let owner = (e_signup_role r = ''project_owner'') in
     seq (raise_if (find_user_by_email_role d email (if owner then PROJECT_OWNER else USER) \<noteq> None)
            (Http 400 ''account-exists'')) (\<lambda>_.
     seq (lift (confirmed_user r)) (\<lambda>u.
     seq (gets db) (\<lambda>d'.
     seq (catch (commit e (add_user u (drop_code (e_id r) d')))
            (\<lambda>x. raise (if x = IntegrityError then Http 400 ''account-exists'' else x))) (\<lambda>_.
     if owner then ret None
     else seq (issue_tokens cr e (next_id d')) (\<lambda>tk. ret (Some (tk, auth_cookies (conf e) tk)))))))))"

section \<open>Approvals\<close>

definition require_admin :: "user \<Rightarrow> (sys, unit) prog" where
  "require_admin u = raise_if (u_role u \<noteq> ADMIN) (Http 403 ''admin-only'')"

definition get_pending_approvals :: "user \<Rightarrow> (sys, user list) prog" where
  "get_pending_approvals u =
     seq (require_admin u) (\<lambda>_.
     seq (gets db) (\<lambda>d. ret (filter (\<lambda>x. u_role x = PROJECT_OWNER \<and> \<not> u_is_active x) (users d))))"

definition set_user :: "int \<Rightarrow> (user \<Rightarrow> user) \<Rightarrow> database \<Rightarrow> database" where
  "set_user i f d = d\<lparr>users := update_rows (\<lambda>u. u_id u = i) f (users d)\<rparr>"

definition approve_project_owner :: "env \<Rightarrow> int \<Rightarrow> user \<Rightarrow> (sys, unit) prog" where
  "approve_project_owner e i u =
     seq (require_admin u) (\<lambda>_.
     seq (gets db) (\<lambda>d.
     case find (\<lambda>x. u_id x = i) (users d) of
       None \<Rightarrow> raise (Http 404 ''user-not-found'')
     | Some x \<Rightarrow>
         seq (raise_if (u_is_active x) (Http 400 ''already-approved'')) (\<lambda>_.
         commit e (set_user i (\<lambda>x. x\<lparr>u_is_active := True\<rparr>) d))))"

text \<open>
  \<open>db.delete(user)\<close>: the owner of the user's VMs becomes null; notifications, questions and jobs refer to
  the user by a column that is not nullable, so a user who has some cannot be deleted.
\<close>

definition referred_user :: "database \<Rightarrow> int \<Rightarrow> bool" where
  "referred_user d i \<longleftrightarrow> list_ex (\<lambda>n. n_user_id n = i) (notifications d) \<or> list_ex (\<lambda>q. f_user_id q = i) (faqs d) \<or>
     list_ex (\<lambda>j. j_user_id j = i) (jobs d)"

definition drop_user :: "int \<Rightarrow> database \<Rightarrow> database" where
  "drop_user i d = d\<lparr>users := delete_rows (\<lambda>u. u_id u = i) (users d),
     vms := update_rows (\<lambda>v. vm_owner_id v = Some i) (\<lambda>v. v\<lparr>vm_owner_id := None\<rparr>) (vms d)\<rparr>"

definition reject_project_owner :: "env \<Rightarrow> int \<Rightarrow> user \<Rightarrow> (sys, unit) prog" where
  "reject_project_owner e i u =
     seq (require_admin u) (\<lambda>_.
     seq (gets db) (\<lambda>d.
     case find (\<lambda>x. u_id x = i) (users d) of
       None \<Rightarrow> raise (Http 404 ''user-not-found'')
     | Some x \<Rightarrow>
         seq (raise_if (u_is_active x) (Http 400 ''already-approved'')) (\<lambda>_.
         seq (raise_if (referred_user d i) IntegrityError) (\<lambda>_.
         commit e (drop_user i d)))))"

section \<open>Sending a code again\<close>

definition resend_code :: "env \<Rightarrow> string \<Rightarrow> (sys, unit) prog" where
  "resend_code e email =
     seq (gets db) (\<lambda>d.
     case pending_code (\<lambda>_. True) email d of
       None \<Rightarrow> raise (Http 400 ''no-request'')
     | Some r \<Rightarrow>
         seq (generate_verification_code e) (\<lambda>code.
         seq now (\<lambda>t.
         seq (gets db) (\<lambda>d'.
         seq (catch
           (commit e (add_verification
              (new_verification (conf e) email (e_hashed_password r) code (e_student_info r) (e_signup_role r)
                 (e_project_name r) (e_project_reason r) t)
              (clear_codes email (e_signup_role r) d')))
           (\<lambda>x. raise (if x = IntegrityError then Http 400 ''try-later'' else x))) (\<lambda>_.
         seq (send_verification_email e email code) (\<lambda>sent.
         raise_if (\<not> sent) (Http 500 ''mail-failed'')))))))"

section \<open>Frames\<close>

lemma keeps_lookups [keeps_intros]:
  "keeps db (lookup_student_by_email e email)" "keeps db (need_student e email)"
  "keeps db (generate_verification_code e)" "keeps db (send_verification_email e email code)"
  unfolding lookup_student_by_email_def need_student_def generate_verification_code_def random_text_def
    send_verification_email_def
  by (intro keeps_intros)+

lemma keeps_fetch [keeps_intros]: "keeps db (fetch_projects e fuel page acc)"
  by (induction fuel arbitrary: page acc) (auto intro!: keeps_intros)

lemma keeps_need_projects [keeps_intros]: "keeps db (need_projects e fuel email)"
  unfolding need_projects_def lookup_projects_by_email_def by (intro keeps_intros)

lemma send_total: "wp (send_verification_email e email code) (\<lambda>_ s'. db s' = db s) (\<lambda>_ _. False) s"
  by (auto simp: send_verification_email_def wp_simps)

section \<open>The lookup of projects ends\<close>

text \<open>
  A service that announces at most \<open>n\<close> pages, whenever it is asked: \<open>n + 1\<close> requests are enough.
\<close>

definition few_pages :: "env \<Rightarrow> nat \<Rightarrow> bool" where
  "few_pages e n \<longleftrightarrow> (\<forall>h p j status body ps total. answer e h (GsmProjects p) = Inr j \<longrightarrow>
     http_reply j = Inr (status, body) \<longrightarrow> projects_of body = Inr (ps, total) \<longrightarrow> total \<le> of_nat n)"

lemma fetch_projects_ends:
  assumes "few_pages e n" and "n < nat page + fuel" and "0 \<le> page" and "0 < fuel"
  shows "fst (fetch_projects e fuel page acc s) \<noteq> Inr None"
  using assms(2-4)
proof (induction fuel arbitrary: page acc s)
  case (Suc fuel)
  show ?case
  proof
    assume run: "fst (fetch_projects e (Suc fuel) page acc s) = Inr None"
    then obtain s' where "fetch_projects e (Suc fuel) page acc s = (Inr None, s')"
      by (metis prod.collapse)
    then obtain j status body ps total where *: "answer e (calls s) (GsmProjects page) = Inr j"
      "http_reply j = Inr (status, body)" "projects_of body = Inr (ps, total)" "\<not> total \<le> of_int (page + 1)"
      "fetch_projects e fuel (page + 1) (acc @ ps) (called e (GsmProjects page) s) = (Inr None, s')"
      by (auto simp: run_iffs split: if_splits)
    have "total \<le> of_nat n" using assms(1) *(1-3) unfolding few_pages_def by blast
    then have "(of_int (page + 1) :: rat) < of_int (int n)" using *(4) by simp
    then have "page + 1 < int n" by (simp only: of_int_less_iff)
    then have "n < nat (page + 1) + fuel" "0 < fuel" using Suc.prems by simp_all
    then have "fst (fetch_projects e fuel (page + 1) (acc @ ps) (called e (GsmProjects page) s)) \<noteq> Inr None"
      using Suc.IH[of "page + 1"] Suc.prems(2) by simp
    then show False using *(5) by simp
  qed
qed simp

section \<open>Codes\<close>

lemma insort_key_map: "(\<And>x. k (g x) = k x) \<Longrightarrow> insort_key k (g x) (map g xs) = map g (insort_key k x xs)"
  by (induction xs) auto

lemma sort_key_map: "(\<And>x. k (g x) = k x) \<Longrightarrow> sort_key k (map g xs) = map g (sort_key k xs)"
  by (induction xs) (simp_all add: insort_key_map)

lemma first_desc_map:
  assumes "\<And>x. key (g x) = key x"
  shows "first_desc key (map g xs) = map_option g (first_desc key xs)"
  using sort_key_map[of "\<lambda>x. - key x" g xs] assms by (auto simp: first_desc_def split: list.split)

lemma pending_code_mem: "pending_code k email d = Some r \<Longrightarrow>
    r \<in> set (verifications d) \<and> e_email r = email \<and> k (e_signup_role r) \<and> \<not> e_verified r"
  by (auto simp: pending_code_def dest!: first_desc_mem)

lemma pending_code_set:
  assumes "\<And>x. e_created_at (f x) = e_created_at x" and "\<And>x. e_email (f x) = e_email x"
    and "\<And>x. e_signup_role (f x) = e_signup_role x" and "\<And>x. e_verified (f x) = e_verified x"
  shows "pending_code k email (set_code i f d) =
     map_option (\<lambda>r. if e_id r = i then f r else r) (pending_code k email d)"
  unfolding pending_code_def set_code_def update_rows_def
  by (simp add: filter_map o_def assms if_distrib[of e_email] if_distrib[of e_signup_role] if_distrib[of e_verified] cong: if_cong)
    (rule first_desc_map, simp add: assms)

lemma check_code_Inr_iff [run_iffs]: "check_code e p code s = (Inr r, s') \<longleftrightarrow>
    p = Some r \<and> s' = s \<and> clk s \<le> e_expires_at r \<and> e_attempts r < 5 \<and> e_code r = py_strip code"
  by (auto simp: check_code_def run_iffs MAX_ATTEMPTS_def not_less not_le split: option.splits)

lemma set_code_simps [simp]:
  "users (set_code i f d) = users d" "constraints_ok (set_code i f d) = constraints_ok d"
  "users (drop_code i d) = users d" "constraints_ok (drop_code i d) = constraints_ok d"
  "next_id (drop_code i d) = next_id d"
  by (simp_all add: set_code_def drop_code_def constraints_ok_def)

text \<open>What a confirmation that does not succeed leaves behind.\<close>

lemma check_code_wrong:
  assumes "db_answers e" and "constraints_ok (db s)" and "e_code r \<noteq> py_strip code"
  shows "\<exists>x s'. check_code e (Some r) code s = (Inl x, s') \<and> clk s \<le> clk s' \<and>
     db s' = (if e_expires_at r < clk s \<or> 5 \<le> e_attempts r then db s
              else set_code (e_id r) (\<lambda>x. x\<lparr>e_attempts := e_attempts r + 1\<rparr>) (db s))"
  using assms db_answersD[OF assms(1)]
  by (auto simp: check_code_def prog_defs now_def MAX_ATTEMPTS_def commit_def ext_eq split: sum.split)

section \<open>Properties\<close>

lemma verify_email_run:
  assumes "verify_email cr e email code s = (Inr res, s')"
  obtains r u where "pending_code (\<lambda>_. True) email (db s) = Some r" "clk s \<le> e_expires_at r" "e_attempts r < 5"
    "e_code r = py_strip code" "find_user_by_email_role (db s) email (u_role u) = None" "confirmed_user r = Inr u"
    "db s' = add_user u (drop_code (e_id r) (db s))" "res = None \<longleftrightarrow> u_role u = PROJECT_OWNER"
    "\<And>tk cks. res = Some (tk, cks) \<Longrightarrow> cks = auth_cookies (conf e) tk \<and>
       (\<exists>t. issue_tokens cr e (next_id (db s)) t = (Inr tk, s'))"
proof -
  from assms obtain r u where *: "pending_code (\<lambda>_. True) email (db s) = Some r" "clk s \<le> e_expires_at r"
    "e_attempts r < 5" "e_code r = py_strip code"
    "find_user_by_email_role (db s) email (if e_signup_role r = ''project_owner'' then PROJECT_OWNER else USER) = None"
    "confirmed_user r = Inr u"
    and rest: "seq (commit e (add_user u (drop_code (e_id r) (db s))))
      (\<lambda>_. if e_signup_role r = ''project_owner'' then ret None
           else seq (issue_tokens cr e (next_id (db s))) (\<lambda>tk. ret (Some (tk, auth_cookies (conf e) tk)))) s = (Inr res, s')"
    unfolding verify_email_def by (auto simp: run_iffs Let_def)
  have role: "u_role u = (if e_signup_role r = ''project_owner'' then PROJECT_OWNER else USER)"
    using *(6) by (auto simp: confirmed_user_def andthen_Inr_iff Let_def)
  from rest obtain t where t: "commit e (add_user u (drop_code (e_id r) (db s))) s = (Inr (), t)"
    and tail: "(if e_signup_role r = ''project_owner'' then ret None
           else seq (issue_tokens cr e (next_id (db s))) (\<lambda>tk. ret (Some (tk, auth_cookies (conf e) tk)))) t = (Inr res, s')"
    by (auto simp: run_iffs)
  have dt: "db t = add_user u (drop_code (e_id r) (db s))" using commit_constraints[OF t] by simp
  have "keeps db (issue_tokens cr e i)" for i
    unfolding issue_tokens_def create_access_token_def create_refresh_token_def by (intro keeps_intros)
  then have "db s' = db t" using tail by (auto simp: run_iffs split: if_splits dest: keepsD)
  then have d: "db s' = add_user u (drop_code (e_id r) (db s))" using dt by simp
  show ?thesis
    by (rule that[OF *(1-4) _ *(6) d]) (use *(5) role tail in \<open>auto simp: run_iffs split: if_splits\<close>)
qed

text \<open>
  C17. Confirming a code makes exactly the account the code stands for: the account is new for its address
  and role, has the password hash stored with the code, is active unless it is a project owner's, and
  only an active account gets tokens; the code is used up. Nobody else's account changes.
\<close>

theorem verify_email_creates_account:
  assumes "verify_email cr e email code s = (Inr res, s')"
  shows "\<exists>r u. r \<in> set (verifications (db s)) \<and> e_email r = email \<and> e_code r = py_strip code \<and>
     clk s \<le> e_expires_at r \<and> e_attempts r < 5 \<and>
     u_email u = email \<and> u_hashed_password u = Some (e_hashed_password r) \<and>
     u_role u = (if e_signup_role r = ''project_owner'' then PROJECT_OWNER else USER) \<and>
     u_is_active u = (u_role u = USER) \<and> (res \<noteq> None \<longleftrightarrow> u_is_active u) \<and>
     find_user_by_email_role (db s) email (u_role u) = None \<and>
     users (db s') = users (db s) @ [u\<lparr>u_id := next_id (db s)\<rparr>] \<and>
     e_id r \<notin> e_id ` set (verifications (db s'))"
proof -
  from assms obtain r u where *: "pending_code (\<lambda>_. True) email (db s) = Some r" "clk s \<le> e_expires_at r"
    "e_attempts r < 5" "e_code r = py_strip code" "find_user_by_email_role (db s) email (u_role u) = None"
    "confirmed_user r = Inr u" "db s' = add_user u (drop_code (e_id r) (db s))"
    "res = None \<longleftrightarrow> u_role u = PROJECT_OWNER"
    by (rule verify_email_run)
  have u: "u_email u = e_email r" "u_hashed_password u = Some (e_hashed_password r)"
    "u_role u = (if e_signup_role r = ''project_owner'' then PROJECT_OWNER else USER)"
    "u_is_active u = (u_role u = USER)"
    using *(6) by (auto simp: confirmed_user_def andthen_Inr_iff Let_def)
  have "users (db s') = users (db s) @ [u\<lparr>u_id := next_id (db s)\<rparr>]"
    and "e_id r \<notin> e_id ` set (verifications (db s'))"
    by (auto simp: *(7) add_user_def drop_code_def)
  then show ?thesis using pending_code_mem[OF *(1)] *(2-5,8) u by (intro exI[of _ r] exI[of _ u]) auto
qed

definition sample_code :: "string \<Rightarrow> email_verification" where
  "sample_code role = (new_verification default_settings ''s@gsm.hs.kr'' ''$pw'' ''123456''
     (Some (student_info (JStr ''Kim'') (JInt 2) (JInt 1) (JInt 7) (JStr ''AI''))) role None None 0)\<lparr>e_id := 3\<rparr>"

definition code_db :: "string \<Rightarrow> database" where
  "code_db role = empty_database\<lparr>verifications := [sample_code role], next_id := 4\<rparr>"

lemma verify_email_creates_account_witness:
  "\<exists>s'. verify_email sample_crypto (sample_env agreeing) ''s@gsm.hs.kr'' ''123456'' (sample_state (code_db ''project_owner''))
     = (Inr None, s') \<and> map u_role (users (db s')) = [PROJECT_OWNER] \<and> map u_is_active (users (db s')) = [False]"
proof -
  let ?run = "verify_email sample_crypto (sample_env agreeing) ''s@gsm.hs.kr'' ''123456'' (sample_state (code_db ''project_owner''))"
  have "fst ?run = Inr None" by code_simp
  then obtain s' where run: "?run = (Inr None, s')" by (cases ?run) auto
  have "set (verifications (db (sample_state (code_db ''project_owner'')))) = {sample_code ''project_owner''}"
    "users (db (sample_state (code_db ''project_owner''))) = []"
    by (simp_all add: sample_state_def code_db_def empty_database_def)
  moreover have "e_signup_role (sample_code ''project_owner'') = ''project_owner''"
    by (simp add: sample_code_def new_verification_def)
  ultimately show ?thesis using verify_email_creates_account[OF run] run by auto
qed

text \<open>A series of guesses for one address.\<close>

fun guess_all :: "crypto \<Rightarrow> env \<Rightarrow> string \<Rightarrow> string list \<Rightarrow> sys \<Rightarrow> sys" where
  "guess_all cr e email [] s = s"
| "guess_all cr e email (c # cs) s = guess_all cr e email cs (snd (verify_email cr e email c s))"

lemma verify_email_wrong:
  assumes "db_answers e" and "constraints_ok (db s)" and "pending_code (\<lambda>_. True) email (db s) = Some r"
    and "e_code r \<noteq> py_strip code \<or> e_expires_at r < clk s \<or> 5 \<le> e_attempts r"
  shows "\<exists>s'. snd (verify_email cr e email code s) = s' \<and> clk s \<le> clk s' \<and>
     db s' = (if e_expires_at r < clk s \<or> 5 \<le> e_attempts r then db s
              else set_code (e_id r) (\<lambda>x. x\<lparr>e_attempts := e_attempts r + 1\<rparr>) (db s))"
proof (cases "e_code r = py_strip code")
  case False
  from check_code_wrong[OF assms(1,2) this] show ?thesis
    by (auto simp: verify_email_def seq_def gets_def assms(3))
next
  case True
  then have "check_code e (Some r) code s =
      (Inl (if e_expires_at r < clk s then Http 400 ''code-expired'' else Http 429 ''too-many-attempts''), s)"
    using assms(4) by (auto simp: check_code_def prog_defs now_def MAX_ATTEMPTS_def)
  then show ?thesis using True assms(4) by (auto simp: verify_email_def seq_def gets_def assms(3))
qed

lemma guesses_run:
  assumes "db_answers e" and "constraints_ok (db s)" and "pending_code (\<lambda>_. True) email (db s) = Some r"
    and "e_code r \<notin> set (map py_strip (take n codes))" and "5 \<le> e_attempts r + int n \<or> e_expires_at r < clk s"
  shows "users (db (guess_all cr e email codes s)) = users (db s)"
  using assms(2-5)
proof (induction codes arbitrary: s r n)
  case (Cons c codes)
  have wrong: "e_code r \<noteq> py_strip c \<or> e_expires_at r < clk s \<or> 5 \<le> e_attempts r"
    using Cons.prems(3,4) by (cases n) auto
  from verify_email_wrong[OF assms(1) Cons.prems(1,2) wrong, of cr] obtain s' where
    s': "snd (verify_email cr e email c s) = s'" "clk s \<le> clk s'"
      "db s' = (if e_expires_at r < clk s \<or> 5 \<le> e_attempts r then db s
              else set_code (e_id r) (\<lambda>x. x\<lparr>e_attempts := e_attempts r + 1\<rparr>) (db s))" by blast
  have u: "users (db s') = users (db s)" "constraints_ok (db s')" using s'(3) Cons.prems(1) by auto
  show ?case
  proof (cases "e_expires_at r < clk s \<or> 5 \<le> e_attempts r")
    case True
    then have p: "pending_code (\<lambda>_. True) email (db s') = Some r" using s'(3) Cons.prems(2) by simp
    have "5 \<le> e_attempts r + int 0 \<or> e_expires_at r < clk s'" using True s'(2) by auto
    from Cons.IH[OF u(2) p _ this] show ?thesis using s'(1) u(1) by simp
  next
    case False
    let ?r = "r\<lparr>e_attempts := e_attempts r + 1\<rparr>"
    have p: "pending_code (\<lambda>_. True) email (db s') = Some ?r"
      using s'(3) False Cons.prems(2) by (simp add: pending_code_set)
    obtain m where m: "n = Suc m" using False Cons.prems(4) by (cases n) auto
    have "5 \<le> e_attempts ?r + int m \<or> e_expires_at ?r < clk s'" using Cons.prems(4) m False by auto
    moreover have "e_code ?r \<notin> set (map py_strip (take m codes))" using Cons.prems(3) m by auto
    ultimately show ?thesis using Cons.IH[OF u(2) p] s'(1) u(1) by simp
  qed
qed simp



end
