(* ===== verification/Sessions.thy ===== *)
theory Sessions
  imports Registration
begin

text \<open>
  The second half of \<open>api/routes/auth.py\<close>: login, the renewal of tokens, the reset and the change of a
  password, the profile picture and logout. File contents are texts; resolving a path is done on its
  components, symbolic links apart.
\<close>

section \<open>Login and tokens\<close>

definition ROLE_MAP :: "(string \<times> user_role) list" where
  "ROLE_MAP = [(''user'', USER), (''project_owner'', PROJECT_OWNER), (''admin'', ADMIN)]"

text \<open>The account a login is for: the one of the role, and for the role \<open>user\<close> also the administrator's.\<close>

definition login_account :: "database \<Rightarrow> string \<Rightarrow> string \<Rightarrow> user option" where
  "login_account d email login_role =
     (case (case map_of ROLE_MAP login_role of None \<Rightarrow> None | Some role \<Rightarrow> find_user_by_email_role d email role) of
        Some u \<Rightarrow> Some u
      | None \<Rightarrow> if login_role = ''user'' then find_user_by_email_role d email ADMIN else None)"

definition login :: "crypto \<Rightarrow> env \<Rightarrow> string \<Rightarrow> string \<Rightarrow> string \<Rightarrow> (sys, tokens \<times> cookie list) prog" where
  "login cr e email password login_role =
     seq (gets db) (\<lambda>d.
     case login_account d email login_role of
       None \<Rightarrow> raise (Http 401 ''bad-credentials'')
     | Some u \<Rightarrow>
         seq (raise_if (\<not> opt_truthy (u_hashed_password u)) (Http 401 ''use-oauth'')) (\<lambda>_.
         seq (raise_if (\<not> verify_password cr password (opt_str (u_hashed_password u))) (Http 401 ''bad-credentials'')) (\<lambda>_.
         seq (raise_if (\<not> u_is_active u) (Http 403 ''awaiting-approval'')) (\<lambda>_.
         seq (issue_tokens cr e (u_id u)) (\<lambda>tk. ret (tk, auth_cookies (conf e) tk))))))"

definition refresh_token :: "crypto \<Rightarrow> env \<Rightarrow> string option \<Rightarrow> string option \<Rightarrow> (sys, tokens \<times> cookie list) prog" where
  "refresh_token cr e cookie body =
     (case str_or cookie body of
        None \<Rightarrow> raise (Http 401 ''bad-refresh'')
      | Some rt \<Rightarrow>
          seq (raise_if (rt = []) (Http 401 ''bad-refresh'')) (\<lambda>_.
          seq now (\<lambda>t.
          case jwt_decode cr t rt of
            None \<Rightarrow> raise (Http 401 ''bad-refresh'')
          | Some payload \<Rightarrow>
              seq (raise_if (c_type payload \<noteq> Some ''refresh'') (Http 401 ''bad-refresh'')) (\<lambda>_.
              case c_sub payload of
                None \<Rightarrow> raise (Http 401 ''bad-refresh'')
              | Some sub \<Rightarrow>
                  seq (lift (py_int sub)) (\<lambda>i.
                  seq (gets db) (\<lambda>d.
                  case find (\<lambda>u. u_id u = i) (users d) of
                    None \<Rightarrow> raise (Http 401 ''bad-refresh'')
                  | Some u \<Rightarrow>
                      seq (raise_if (\<not> u_is_active u) (Http 401 ''bad-refresh'')) (\<lambda>_.
                      seq (issue_tokens cr e (u_id u)) (\<lambda>tk. ret (tk, auth_cookies (conf e) tk)))))))))"

definition opt_int :: "int option \<Rightarrow> json" where
  "opt_int v = (case v of None \<Rightarrow> JNull | Some i \<Rightarrow> JInt i)"

fun role_value :: "user_role \<Rightarrow> string" where
  "role_value ADMIN = ''admin''"
| "role_value PROJECT_OWNER = ''project_owner''"
| "role_value USER = ''user''"

definition read_users_me :: "user \<Rightarrow> json" where
  "read_users_me u =
     JObj [(''id'', JInt (u_id u)), (''email'', JStr (u_email u)), (''role'', JStr (role_value (u_role u))),
           (''is_active'', JBool (u_is_active u)), (''name'', opt_json (u_name u)), (''grade'', opt_int (u_grade u)),
           (''class_num'', opt_int (u_class_num u)), (''number'', opt_int (u_number u)), (''major'', opt_json (u_major u)),
           (''project_name'', opt_json (u_project_name u)), (''avatar_url'', opt_json (u_avatar_url u))]"

text \<open>The cookies that are deleted, by key and path.\<close>

definition logout :: "(string \<times> string) list" where
  "logout = [(''access_token'', ''/''), (''refresh_token'', ''/api/v1/auth/refresh'')]"

section \<open>Resetting a password\<close>

definition RESET_ROLE_MAP :: "(string \<times> user_role) list" where
  "RESET_ROLE_MAP = [(''user'', USER), (''project_owner'', PROJECT_OWNER)]"

definition PASSWORD_RESET_MIN_RESPONSE :: int where
  "PASSWORD_RESET_MIN_RESPONSE = 500000"

text \<open>\<open>_pad_password_reset_response\<close>: every answer takes at least half a second.\<close>

definition pad_response :: "int \<Rightarrow> (sys, unit) prog" where
  "pad_response started_at =
     seq now (\<lambda>t.
     let remaining = PASSWORD_RESET_MIN_RESPONSE - (t - started_at)
     in if 0 < remaining then sleep remaining else ret ())"

definition reset_signup_role :: "string \<Rightarrow> string" where
  "reset_signup_role login_role = ''password_reset:'' @ login_role"

definition active_user :: "database \<Rightarrow> string \<Rightarrow> user_role \<Rightarrow> user option" where
  "active_user d email role = find (\<lambda>u. u_email u = email \<and> u_role u = role \<and> u_is_active u) (users d)"

definition reset_account :: "database \<Rightarrow> string \<Rightarrow> string \<Rightarrow> exn + user option" where
  "reset_account d email login_role =
     (case map_of RESET_ROLE_MAP login_role of
        None \<Rightarrow> Inl KeyError
      | Some role \<Rightarrow> Inr (case active_user d email role of
            Some u \<Rightarrow> Some u
          | None \<Rightarrow> if login_role = ''user'' then active_user d email ADMIN else None))"

fun is_sql_error :: "exn \<Rightarrow> bool" where
  "is_sql_error IntegrityError = True"
| "is_sql_error DatabaseError = True"
| "is_sql_error _ = False"

text \<open>The code and the id of its row.\<close>

definition store_reset_code :: "env \<Rightarrow> string \<Rightarrow> string \<Rightarrow> (sys, string \<times> int) prog" where
  "store_reset_code e email sr =
     seq (gets db) (\<lambda>d.
     seq (commit e (clear_codes email sr d)) (\<lambda>_.
     seq (generate_verification_code e) (\<lambda>code.
     seq now (\<lambda>t.
     seq (gets db) (\<lambda>d'.
     seq (commit e (add_verification (new_verification (conf e) email [] code None sr None None t) d')) (\<lambda>_.
     ret (code, next_id d')))))))"

definition request_password_reset :: "env \<Rightarrow> string \<Rightarrow> string \<Rightarrow> (sys, string) prog" where
  "request_password_reset e email login_role0 =
     seq (lift (validate_login_role login_role0)) (\<lambda>login_role.
     seq now (\<lambda>started_at.
     seq (gets db) (\<lambda>d.
     seq (lift (reset_account d email login_role)) (\<lambda>account.
     case account of
       None \<Rightarrow> seq (pad_response started_at) (\<lambda>_. ret email)
     | Some u \<Rightarrow>
         if \<not> opt_truthy (u_hashed_password u) then
           seq (pad_response started_at) (\<lambda>_. raise (Http 400 ''use-oauth''))
         else
           seq (catch (store_reset_code e email (reset_signup_role login_role))
             (\<lambda>x. if is_sql_error x then seq (pad_response started_at) (\<lambda>_. raise (Http 503 ''try-later''))
                  else raise x)) (\<lambda>(code, i).
           seq (send_verification_email e email code) (\<lambda>sent.
           if sent then seq (pad_response started_at) (\<lambda>_. ret email)
           else
             seq (catch (seq (gets db) (\<lambda>d'. commit e (drop_code i d')))
               (\<lambda>x. if is_sql_error x then ret () else raise x)) (\<lambda>_.
             seq (pad_response started_at) (\<lambda>_. raise (Http 503 ''mail-failed'')))))))))"

definition set_password :: "string \<Rightarrow> user \<Rightarrow> user" where
  "set_password h u = u\<lparr>u_hashed_password := Some h\<rparr>"

definition confirm_password_reset ::
  "crypto \<Rightarrow> env \<Rightarrow> string \<Rightarrow> string \<Rightarrow> string \<Rightarrow> string \<Rightarrow> (sys, unit) prog" where
  "confirm_password_reset cr e email code new_password login_role0 =
     seq (lift (validate_pw new_password)) (\<lambda>_.
     seq (lift (validate_login_role login_role0)) (\<lambda>login_role.
     seq (gets db) (\<lambda>d.
     seq (check_code e (pending_code (\<lambda>role. role = reset_signup_role login_role) email d) code) (\<lambda>r.
     seq (lift (reset_account d email login_role)) (\<lambda>account.
     case account of
       None \<Rightarrow> raise (Http 404 ''account-not-found'')
     | Some u \<Rightarrow>
         seq (get_password_hash cr e new_password) (\<lambda>h.
         seq (gets db) (\<lambda>d'.
         commit e (drop_code (e_id r) (set_user (u_id u) (set_password h) d'))))))))) "

definition change_password :: "crypto \<Rightarrow> env \<Rightarrow> string \<Rightarrow> string \<Rightarrow> user \<Rightarrow> (sys, unit) prog" where
  "change_password cr e current new_password u =
     seq (lift (validate_pw new_password)) (\<lambda>_.
     seq (raise_if (\<not> opt_truthy (u_hashed_password u)) (Http 400 ''oauth-account'')) (\<lambda>_.
     seq (raise_if (\<not> verify_password cr current (opt_str (u_hashed_password u))) (Http 400 ''wrong-password'')) (\<lambda>_.
     seq (get_password_hash cr e new_password) (\<lambda>h.
     seq (gets db) (\<lambda>d. commit e (set_user (u_id u) (set_password h) d))))))"

section \<open>Profile pictures\<close>

text \<open>\<open>Path.resolve()\<close> on the components of a path: empty ones and dots vanish, two dots go up.\<close>

fun resolve :: "string list \<Rightarrow> string list \<Rightarrow> string list" where
  "resolve base [] = base"
| "resolve base (c # cs) =
     (if c = [] \<or> c = ''.'' then resolve base cs
      else if c = ''..'' then resolve (butlast base) cs
      else resolve (base @ [c]) cs)"

definition path_text :: "string list \<Rightarrow> string" where
  "path_text cs = ''/'' @ join ''/'' cs"

text \<open>\<open>cwd\<close> is the working directory of the process.\<close>

definition safe_avatar_path :: "string list \<Rightarrow> string \<Rightarrow> string option" where
  "safe_avatar_path cwd avatar_url =
     (let resolved = path_text (resolve cwd (split_char (CHR ''/'') (dropWhile (\<lambda>c. c = CHR ''/'') avatar_url)))
      in if startswith resolved (path_text (cwd @ [''uploads'', ''avatars''])) then Some resolved else None)"

text \<open>\<open>old_path.exists()\<close> and \<open>unlink(missing_ok=True)\<close>: the file is gone, if it was there.\<close>

definition remove_avatar :: "env \<Rightarrow> string list \<Rightarrow> user \<Rightarrow> (sys, unit) prog" where
  "remove_avatar e cwd u =
     (if opt_truthy (u_avatar_url u)
      then (case safe_avatar_path cwd (opt_str (u_avatar_url u)) of
          None \<Rightarrow> ret ()
        | Some path \<Rightarrow> seq (ext e (FileDelete path)) (\<lambda>_. ret ()))
      else ret ())"

definition ALLOWED_AVATAR_TYPES :: "string set" where
  "ALLOWED_AVATAR_TYPES = {''image/jpeg'', ''image/png'', ''image/webp''}"

definition ALLOWED_AVATAR_EXTENSIONS :: "string set" where
  "ALLOWED_AVATAR_EXTENSIONS = {''jpg'', ''jpeg'', ''png'', ''webp''}"

definition MAX_AVATAR_SIZE :: nat where "MAX_AVATAR_SIZE = 2 * 1024 * 1024"

record upload =
  up_content_type :: string
  up_filename :: "string option"
  up_contents :: string

text \<open>\<open>filename.rsplit('.', 1)[-1].lower()\<close>, when it is an allowed extension.\<close>

definition avatar_ext :: "string option \<Rightarrow> string" where
  "avatar_ext filename =
     (let ext0 = (case filename of
          None \<Rightarrow> ''''
        | Some n \<Rightarrow> if CHR ''.'' \<in> set n then py_lower (last (split_char (CHR ''.'') n)) else '''')
      in if ext0 \<notin> ALLOWED_AVATAR_EXTENSIONS then ''png'' else ext0)"

text \<open>The second of the file name is read off the model's clock.\<close>

definition upload_avatar :: "env \<Rightarrow> string list \<Rightarrow> upload \<Rightarrow> user \<Rightarrow> (sys, string) prog" where
  "upload_avatar e cwd f u =
     seq (raise_if (up_content_type f \<notin> ALLOWED_AVATAR_TYPES) (Http 400 ''bad-image-type'')) (\<lambda>_.
     seq (raise_if (MAX_AVATAR_SIZE < length (up_contents f)) (Http 400 ''image-too-big'')) (\<lambda>_.
     seq (remove_avatar e cwd u) (\<lambda>_.
     seq now (\<lambda>t.
     let filename = show_int (u_id u) @ ''_'' @ show_int (t div second) @ ''.'' @ avatar_ext (up_filename f);
         avatar_url = ''/uploads/avatars/'' @ filename
     in
     seq (ext e (FileWrite (''uploads/avatars/'' @ filename) (up_contents f))) (\<lambda>_.
     seq (gets db) (\<lambda>d.
     seq (commit e (set_user (u_id u) (\<lambda>x. x\<lparr>u_avatar_url := Some avatar_url\<rparr>) d)) (\<lambda>_.
     ret avatar_url)))))))"

definition delete_avatar :: "env \<Rightarrow> string list \<Rightarrow> user \<Rightarrow> (sys, unit) prog" where
  "delete_avatar e cwd u =
     seq (remove_avatar e cwd u) (\<lambda>_.
     seq (gets db) (\<lambda>d. commit e (set_user (u_id u) (\<lambda>x. x\<lparr>u_avatar_url := None\<rparr>) d)))"

section \<open>Properties\<close>

lemma set_user_constraints [simp]:
  "(\<And>u. u_email (f u) = u_email u) \<Longrightarrow> (\<And>u. u_role (f u) = u_role u) \<Longrightarrow> constraints_ok (set_user i f d) = constraints_ok d"
  by (simp add: constraints_ok_def set_user_def map_update_rows)

lemma login_account_mem: "login_account d email role = Some u \<Longrightarrow>
    u \<in> set (users d) \<and> u_email u = email \<and>
    (map_of ROLE_MAP role = Some (u_role u) \<or> (role = ''user'' \<and> u_role u = ADMIN))"
  by (auto simp: login_account_def find_user_by_email_role_def split: option.splits if_splits
      dest!: find_Some_iff_mem)

lemma issue_tokens_run: "issue_tokens cr e i s = (Inr tk, s') \<longleftrightarrow> s' = s \<and>
    tk = \<lparr>tk_access = jwt_encode cr \<lparr>c_exp = clk s + ACCESS_TOKEN_EXPIRE_MINUTES (conf e) * minute,
             c_sub = Some (show_int i), c_type = Some ''access''\<rparr>,
          tk_refresh = jwt_encode cr \<lparr>c_exp = clk s + REFRESH_TOKEN_EXPIRE_MINUTES (conf e) * minute,
             c_sub = Some (show_int i), c_type = Some ''refresh''\<rparr>\<rparr>"
  by (auto simp: issue_tokens_def create_access_token_def create_refresh_token_def prog_defs now_def)


definition login_db :: database where
  "login_db = empty_database\<lparr>users := [(sample_user 7 USER)\<lparr>u_hashed_password := Some ''$pw''\<rparr>], next_id := 9\<rparr>"


lemma reset_account_mem: "reset_account d email role = Inr (Some u) \<Longrightarrow>
    u \<in> set (users d) \<and> u_email u = email \<and> u_is_active u \<and>
    (map_of RESET_ROLE_MAP role = Some (u_role u) \<or> (role = ''user'' \<and> u_role u = ADMIN))"
  by (auto simp: reset_account_def active_user_def split: option.splits if_splits dest!: find_Some_iff_mem)

lemma get_password_hash_run [run_iffs]: "get_password_hash cr e pw s = (Inr h, s') \<longleftrightarrow>
    length pw \<le> 72 \<and> h = hashpw cr pw (entropy e (rng s)) \<and> s' = s\<lparr>rng := rng s + 1\<rparr>"
  by (auto simp: get_password_hash_def raise_def)

text \<open>
  C20. Resetting a password needs an unexpired code that was mailed for this address and this kind of login
  and has not been tried five times; it then changes the password of the one active account they name, the
  new password checks against the stored hash, the code is used up, and nothing else changes.
\<close>

theorem confirm_password_reset_only_target:
  assumes "hash_ok cr" and "confirm_password_reset cr e email code new_password role0 s = (Inr (), s')"
  shows "\<exists>r u h role. validate_login_role role0 = Inr role \<and>
     r \<in> set (verifications (db s)) \<and> e_email r = email \<and> e_signup_role r = ''password_reset:'' @ role \<and>
     e_code r = py_strip code \<and> clk s \<le> e_expires_at r \<and> e_attempts r < 5 \<and>
     u \<in> set (users (db s)) \<and> u_email u = email \<and> u_is_active u \<and>
     (map_of RESET_ROLE_MAP role = Some (u_role u) \<or> (role = ''user'' \<and> u_role u = ADMIN)) \<and>
     verify_password cr new_password h \<and>
     db s' = (db s)\<lparr>users := map (\<lambda>x. if u_id x = u_id u then x\<lparr>u_hashed_password := Some h\<rparr> else x) (users (db s)),
        verifications := filter (\<lambda>x. e_id x \<noteq> e_id r) (verifications (db s))\<rparr>"
proof -
  let ?h = "hashpw cr new_password (entropy e (rng s))"
  from assms(2) obtain role r u where *: "validate_login_role role0 = Inr role"
    "pending_code (\<lambda>x. x = reset_signup_role role) email (db s) = Some r"
    "clk s \<le> e_expires_at r" "e_attempts r < 5" "e_code r = py_strip code"
    "reset_account (db s) email role = Inr (Some u)"
    "commit e (drop_code (e_id r) (set_user (u_id u) (set_password ?h) (db s))) (s\<lparr>rng := Suc (rng s)\<rparr>) = (Inr (), s')"
    unfolding confirm_password_reset_def by (auto simp: run_iffs split: option.splits)
  have "verify_password cr new_password ?h"
    using assms(1) by (simp add: hash_ok_def verify_password_def)
  moreover have "db s' = drop_code (e_id r) (set_user (u_id u) (set_password ?h) (db s))"
    using commit_constraints[OF *(7)] by simp
  ultimately show ?thesis
    using *(1,3-5) pending_code_mem[OF *(2)] reset_account_mem[OF *(6)]
    by (intro exI[of _ r] exI[of _ u] exI[of _ ?h] exI[of _ role])
      (auto simp: reset_signup_role_def drop_code_def set_user_def set_password_def update_rows_def delete_rows_def)
qed

definition reset_db :: database where
  "reset_db = login_db\<lparr>verifications :=
     [(sample_code ''password_reset:user'')\<lparr>e_hashed_password := '''', e_student_info := None\<rparr>]\<rparr>"

lemma confirm_password_reset_only_target_witness:
  "\<exists>s'. confirm_password_reset sample_crypto (sample_env agreeing) ''s@gsm.hs.kr'' ''123456'' ''newpass1!'' ''user''
      (sample_state reset_db) = (Inr (), s') \<and> verifications (db s') = []"
proof -
  let ?run = "confirm_password_reset sample_crypto (sample_env agreeing) ''s@gsm.hs.kr'' ''123456'' ''newpass1!'' ''user''
      (sample_state reset_db)"
  have "fst ?run = Inr ()" by code_simp
  then obtain s' where run: "?run = (Inr (), s')" by (cases ?run) auto
  have one: "verifications (db (sample_state reset_db)) =
      [(sample_code ''password_reset:user'')\<lparr>e_hashed_password := '''', e_student_info := None\<rparr>]"
    by (simp add: reset_db_def sample_state_def)
  show ?thesis
    using confirm_password_reset_only_target[OF sample_hash_ok run] run unfolding one by auto
qed

text \<open>The padding leaves the clock at least half a second after the start.\<close>

lemma wp_pad [wp_simps]: "wp (pad_response t0) Q E = (\<lambda>s.
    Q () (if t0 + PASSWORD_RESET_MIN_RESPONSE - clk s > 0 then s\<lparr>clk := t0 + PASSWORD_RESET_MIN_RESPONSE\<rparr> else s))"
  by (rule HOL.ext) (auto simp: pad_response_def wp_simps Let_def algebra_simps)

text \<open>
  Asking for a reset does not tell whether an address is registered: every answer is the same, and none
  comes before half a second has passed; the accounts are not touched.
\<close>

theorem request_password_reset_uniform:
  assumes "request_password_reset e email role0 s = (Inr v, s')"
  shows "v = email \<and> clk s + 500000 \<le> clk s' \<and> users (db s') = users (db s)"
proof -
  let ?I = "\<lambda>s'. users (db s') = users (db s)"
  have store: "wp (store_reset_code e email sr) (\<lambda>_. ?I) (\<lambda>_. ?I) t" if "?I t" for sr t
    unfolding store_reset_code_def using that
    by (auto simp: wp_simps clear_codes_def add_verification_def
        intro!: wp_mono[OF keeps_wp[OF keeps_lookups(3) refl]])

  have "wp (request_password_reset e email role0)
      (\<lambda>v s'. v = email \<and> clk s + 500000 \<le> clk s' \<and> users (db s') = users (db s)) (\<lambda>_ _. True) s"
    unfolding request_password_reset_def send_verification_email_def
    by (auto simp: wp_simps PASSWORD_RESET_MIN_RESPONSE_def drop_code_def intro!: wp_mono[OF store])
  from wp_result[OF this assms] show ?thesis .
qed

lemma request_password_reset_uniform_witness:
  "\<exists>s' t'. request_password_reset (sample_env agreeing) ''s@gsm.hs.kr'' ''user'' (sample_state login_db) = (Inr ''s@gsm.hs.kr'', s') \<and>
     request_password_reset (sample_env agreeing) ''s@gsm.hs.kr'' ''user'' (sample_state empty_database) = (Inr ''s@gsm.hs.kr'', t') \<and>
     500000 \<le> clk s' \<and> 500000 \<le> clk t'"
proof -
  let ?run = "\<lambda>d. request_password_reset (sample_env agreeing) ''s@gsm.hs.kr'' ''user'' (sample_state d)"
  have "fst (?run login_db) = Inr ''s@gsm.hs.kr''" "fst (?run empty_database) = Inr ''s@gsm.hs.kr''" by code_simp+
  then obtain s' t' where run: "?run login_db = (Inr ''s@gsm.hs.kr'', s')" "?run empty_database = (Inr ''s@gsm.hs.kr'', t')"
    by (metis prod.collapse)
  show ?thesis
    using request_password_reset_uniform[OF run(1)] request_password_reset_uniform[OF run(2)] run
    by (auto simp: sample_state_def)
qed




end
