(* ===== verification/Oauth.thy ===== *)
theory Oauth
  imports Sessions Codec "HOL-Library.AList"
begin

text \<open>
  \<open>api/routes/oauth.py\<close>: the login with DataGSM (OAuth 2.0 with PKCE). Two dictionaries in memory hold the
  started logins and the one-time codes for the tokens; they are association lists with the update and the
  removal of \<open>HOL-Library.AList\<close>, which are those of a Python dictionary. The SHA-256 digest and the text
  Python gives to a list, a dictionary or a float are parameters.
\<close>

section \<open>The stores\<close>

record pkce_entry =
  pk_verifier :: string
  pk_expires :: int
  pk_role :: string

record temp_entry =
  te_tokens :: tokens
  te_expires :: int

record stores =
  pkce_store :: "(string \<times> pkce_entry) list"
  token_store :: "(string \<times> temp_entry) list"
  outside :: sys

text \<open>A step that does not see the stores.\<close>

definition beside :: "(sys, 'a) prog \<Rightarrow> (stores, 'a) prog" where
  "beside m = (\<lambda>q. case m (outside q) of (r, s') \<Rightarrow> (r, q\<lparr>outside := s'\<rparr>))"

definition STORE_TTL :: int where "STORE_TTL = 300 * second"

definition MAX_STATES :: nat where "MAX_STATES = 1000"

definition TEMP_TTL :: int where "TEMP_TTL = 60 * second"

definition validate_oauth_store_mode :: "settings \<Rightarrow> exn + unit" where
  "validate_oauth_store_mode c =
     (if OAUTH_STORE_MODE c = ''memory'' \<and> 1 < WEB_CONCURRENCY c then Inl (RuntimeError ''multi-worker'') else Inr ())"

definition cleanup_stores :: "(stores, unit) prog" where
  "cleanup_stores =
     seq (beside now) (\<lambda>t.
     modify (\<lambda>q. q\<lparr>pkce_store := filter (\<lambda>kv. \<not> pk_expires (snd kv) < t) (pkce_store q),
                   token_store := filter (\<lambda>kv. \<not> te_expires (snd kv) < t) (token_store q)\<rparr>))"

section \<open>Starting a login\<close>

definition token_bytes :: "env \<Rightarrow> nat \<Rightarrow> (sys, string) prog" where
  "token_bytes e n = map_each [0..<n] (\<lambda>_. seq (draw e 256) (\<lambda>i. ret (char_of i)))"

definition rstrip_pad :: "string \<Rightarrow> string" where
  "rstrip_pad s = rev (dropWhile (\<lambda>c. c = CHR ''='') (rev s))"

definition token_urlsafe :: "env \<Rightarrow> nat \<Rightarrow> (sys, string) prog" where
  "token_urlsafe e n = seq (token_bytes e n) (\<lambda>bs. ret (rstrip_pad (urlsafe_b64encode bs)))"

text \<open>The verifier and its challenge; \<open>sha\<close> is \<open>hashlib.sha256(..).digest()\<close>.\<close>

definition generate_pkce :: "(string \<Rightarrow> string) \<Rightarrow> env \<Rightarrow> (sys, string \<times> string) prog" where
  "generate_pkce sha e =
     seq (token_urlsafe e 32) (\<lambda>verifier.
     ret (verifier, rstrip_pad (urlsafe_b64encode (sha verifier))))"

text \<open>\<open>urllib.parse.quote_plus\<close> and \<open>urlencode\<close>.\<close>

definition url_safe :: "char \<Rightarrow> bool" where
  "url_safe c \<longleftrightarrow> c \<in> set (ascii_letters @ digits @ ''_.-~'')"

definition hex_digit :: "nat \<Rightarrow> char" where
  "hex_digit n = ''0123456789ABCDEF'' ! n"

definition quote_char :: "char \<Rightarrow> string" where
  "quote_char c =
     (if url_safe c then [c] else if c = CHR '' '' then ''+''
      else [CHR ''%'', hex_digit (of_char c div 16), hex_digit (of_char c mod 16)])"

definition urlencode :: "(string \<times> string) list \<Rightarrow> string" where
  "urlencode params = join ''&'' (map (\<lambda>(k, v). concat (map quote_char k) @ ''='' @ concat (map quote_char v)) params)"

definition authorize_url :: "settings \<Rightarrow> string \<Rightarrow> string \<Rightarrow> string" where
  "authorize_url c state challenge =
     DATAGSM_OAUTH_URL c @ ''/v1/oauth/authorize?'' @
     urlencode [(''client_id'', DATAGSM_CLIENT_ID c), (''redirect_uri'', OAUTH_REDIRECT_URI c),
       (''response_type'', ''code''), (''state'', state), (''code_challenge'', challenge),
       (''code_challenge_method'', ''S256'')]"

definition store_state :: "string \<Rightarrow> pkce_entry \<Rightarrow> (stores, unit) prog" where
  "store_state state entry =
     (\<lambda>q. if MAX_STATES < length (pkce_store q) then (Inl (Http 503 ''busy''), q)
          else (Inr (), q\<lparr>pkce_store := AList.update state entry (pkce_store q)\<rparr>))"

definition oauth_authorize :: "(string \<Rightarrow> string) \<Rightarrow> env \<Rightarrow> string \<Rightarrow> (stores, string) prog" where
  "oauth_authorize sha e login_role =
     seq (raise_if (login_role \<notin> {''user'', ''project_owner'', ''admin''}) (Http 400 ''bad-role'')) (\<lambda>_.
     seq (beside (token_urlsafe e 32)) (\<lambda>state.
     seq (beside (generate_pkce sha e)) (\<lambda>(verifier, challenge).
     seq cleanup_stores (\<lambda>_.
     seq (beside now) (\<lambda>t.
     seq (store_state state \<lparr>pk_verifier = verifier, pk_expires = t + STORE_TTL, pk_role = login_role\<rparr>) (\<lambda>_.
     ret (authorize_url (conf e) state challenge)))))))"

section \<open>The answer of DataGSM\<close>

text \<open>A reply: its status, and its body when it is JSON.\<close>

fun http_status :: "json \<Rightarrow> exn + int" where
  "http_status (JList (JInt status # _)) = Inr status"
| "http_status _ = Inl OtherException"

fun http_json :: "json \<Rightarrow> exn + json" where
  "http_json (JList [_, body]) = Inr body"
| "http_json _ = Inl (ValueError ''json'')"

text \<open>The error body is only logged, but it has to be a dictionary.\<close>

definition log_error :: "json \<Rightarrow> exn + unit" where
  "log_error r =
     andthen (obj_get (case http_json r of Inl _ \<Rightarrow> JObj [] | Inr err \<Rightarrow> err) ''error'' JNull) (\<lambda>_. Inr ())"

definition fetch_userinfo :: "env \<Rightarrow> string \<Rightarrow> string \<Rightarrow> (sys, json) prog" where
  "fetch_userinfo e code verifier =
     seq (ext e (OauthToken code verifier)) (\<lambda>token_res.
     seq (lift (http_status token_res)) (\<lambda>status.
     if status \<noteq> 200 then seq (lift (log_error token_res)) (\<lambda>_. raise (Http 400 ''token-exchange''))
     else
       seq (lift (http_json token_res)) (\<lambda>token_data.
       seq (lift (obj_get token_data ''data'' token_data)) (\<lambda>token_inner.
       seq (lift (obj_get token_inner ''access_token'' JNull)) (\<lambda>access_token.
       seq (ext e (OauthUserinfo access_token)) (\<lambda>userinfo_res.
       seq (lift (http_status userinfo_res)) (\<lambda>status'.
       if status' \<noteq> 200 then seq (lift (log_error userinfo_res)) (\<lambda>_. raise (Http 400 ''userinfo''))
       else
         seq (lift (http_json userinfo_res)) (\<lambda>userinfo_raw.
         lift (obj_get userinfo_raw ''data'' userinfo_raw)))))))))"

record profile =
  pf_email :: json
  pf_sub :: string
  pf_name :: json
  pf_grade :: json
  pf_class_num :: json
  pf_number :: json
  pf_major :: json

text \<open>\<open>str(x)\<close>; \<open>repr\<close> stands for Python's text of a float, a list and a dictionary.\<close>

fun py_str :: "(json \<Rightarrow> string) \<Rightarrow> json \<Rightarrow> string" where
  "py_str repr JNull = ''None''"
| "py_str repr (JBool b) = (if b then ''True'' else ''False'')"
| "py_str repr (JInt i) = show_int i"
| "py_str repr (JStr s) = s"
| "py_str repr j = repr j"

definition parse_profile :: "(json \<Rightarrow> string) \<Rightarrow> json \<Rightarrow> exn + profile" where
  "parse_profile repr info =
     andthen (obj_get info ''email'' JNull) (\<lambda>email.
     andthen (obj_get info ''id'' JNull) (\<lambda>i.
     andthen (obj_get info ''sub'' (JStr [])) (\<lambda>sub.
     andthen (obj_get info ''name'' (JStr [])) (\<lambda>name.
     andthen (obj_get info ''grade'' JNull) (\<lambda>grade.
     andthen (obj_get info ''classNum'' JNull) (\<lambda>class1.
     andthen (obj_get info ''class_num'' JNull) (\<lambda>class2.
     andthen (obj_get info ''number'' JNull) (\<lambda>number.
     andthen (obj_get info ''major'' (JStr [])) (\<lambda>major.
     Inr \<lparr>pf_email = email, pf_sub = py_str repr (json_or i sub), pf_name = name, pf_grade = grade,
          pf_class_num = json_or class1 class2, pf_number = number, pf_major = major\<rparr>)))))))))"

section \<open>The account of a login\<close>

definition target_role :: "string \<Rightarrow> user_role" where
  "target_role login_role = (case map_of ROLE_MAP login_role of None \<Rightarrow> USER | Some r \<Rightarrow> r)"

definition match_account :: "database \<Rightarrow> string \<Rightarrow> user_role \<Rightarrow> exn + user option" where
  "match_account d email role =
     (case find_user_by_email_role d email role of
        Some u \<Rightarrow> Inr (Some u)
      | None \<Rightarrow>
          if role = USER then
            (case find_user_by_email_role d email ADMIN of
               None \<Rightarrow> Inr None
             | Some u \<Rightarrow> if find_user_by_email_role d email PROJECT_OWNER \<noteq> None then Inl (Http 409 ''other-account'')
                         else Inr (Some u))
          else Inr None)"

text \<open>Columns: what is not of the column's type is refused by the database when it is committed.\<close>

definition text_col :: "json \<Rightarrow> exn + string option" where
  "text_col j = (case j of JStr s \<Rightarrow> Inr (Some s) | JNull \<Rightarrow> Inr None | _ \<Rightarrow> Inl DatabaseError)"

definition int_col :: "json \<Rightarrow> exn + int option" where
  "int_col j = (case j of JInt i \<Rightarrow> Inr (Some i) | JNull \<Rightarrow> Inr None | _ \<Rightarrow> Inl DatabaseError)"

text \<open>\<open>if name: user.name = name\<close> and \<open>if grade is not None: user.grade = grade\<close>.\<close>

definition put_text :: "json \<Rightarrow> string option \<Rightarrow> exn + string option" where
  "put_text j old = (if truthy j then text_col j else Inr old)"

definition put_int :: "json \<Rightarrow> int option \<Rightarrow> exn + int option" where
  "put_int j old = (if j \<noteq> JNull then int_col j else Inr old)"

definition linked_user :: "profile \<Rightarrow> user \<Rightarrow> exn + user" where
  "linked_user pf u =
     (let v = (if opt_truthy (u_oauth_provider u) then u
               else u\<lparr>u_oauth_provider := Some ''datagsm'', u_oauth_sub := Some (pf_sub pf)\<rparr>)
      in andthen (put_text (pf_name pf) (u_name v)) (\<lambda>name.
         andthen (put_int (pf_grade pf) (u_grade v)) (\<lambda>grade.
         andthen (put_int (pf_class_num pf) (u_class_num v)) (\<lambda>class_num.
         andthen (put_int (pf_number pf) (u_number v)) (\<lambda>number.
         andthen (put_text (pf_major pf) (u_major v)) (\<lambda>major.
         Inr (v\<lparr>u_name := name, u_grade := grade, u_class_num := class_num, u_number := number,
                u_major := major\<rparr>)))))))"

definition oauth_user :: "profile \<Rightarrow> string \<Rightarrow> exn + user" where
  "oauth_user pf email =
     andthen (text_col (pf_name pf)) (\<lambda>name.
     andthen (int_col (pf_grade pf)) (\<lambda>grade.
     andthen (int_col (pf_class_num pf)) (\<lambda>class_num.
     andthen (int_col (pf_number pf)) (\<lambda>number.
     andthen (text_col (pf_major pf)) (\<lambda>major.
     Inr \<lparr>u_id = 0, u_email = email, u_hashed_password = None, u_role = USER, u_is_active = True,
          u_oauth_provider = Some ''datagsm'', u_oauth_sub = Some (pf_sub pf), u_name = name, u_grade = grade,
          u_class_num = class_num, u_number = number, u_major = major, u_avatar_url = None,
          u_project_name = None, u_project_reason = None\<rparr>)))))"

text \<open>The account of the login, linked, or made; it is the row as the database has it afterwards.\<close>

definition oauth_account :: "env \<Rightarrow> profile \<Rightarrow> user_role \<Rightarrow> (sys, user) prog" where
  "oauth_account e pf role =
     seq (raise_if (\<not> truthy (pf_email pf)) (Http 400 ''no-email'')) (\<lambda>_.
     seq (lift (case pf_email pf of JStr s \<Rightarrow> Inr s | _ \<Rightarrow> Inl DatabaseError)) (\<lambda>email.
     seq (gets db) (\<lambda>d.
     seq (lift (match_account d email role)) (\<lambda>m.
     case m of
       Some u \<Rightarrow>
         seq (lift (linked_user pf u)) (\<lambda>v.
         seq (commit e (set_user (u_id u) (\<lambda>_. v) d)) (\<lambda>_. ret v))
     | None \<Rightarrow>
         if role \<noteq> USER then raise (Http 404 ''no-account'')
         else seq (lift (oauth_user pf email)) (\<lambda>v.
              seq (commit e (add_user v d)) (\<lambda>_. ret (v\<lparr>u_id := next_id d\<rparr>)))))))"

section \<open>The callback and the exchange of the code\<close>

definition pop_state :: "string \<Rightarrow> (stores, pkce_entry option) prog" where
  "pop_state state =
     (\<lambda>q. (Inr (map_of (pkce_store q) state), q\<lparr>pkce_store := AList.delete state (pkce_store q)\<rparr>))"

definition pop_temp :: "string \<Rightarrow> (stores, temp_entry option) prog" where
  "pop_temp code =
     (\<lambda>q. (Inr (map_of (token_store q) code), q\<lparr>token_store := AList.delete code (token_store q)\<rparr>))"

definition callback_url :: "settings \<Rightarrow> string \<Rightarrow> string" where
  "callback_url c code = FRONTEND_URL c @ ''/auth/callback?code='' @ code"

text \<open>The requests to DataGSM, and the account they lead to.\<close>

definition datagsm_login :: "(json \<Rightarrow> string) \<Rightarrow> env \<Rightarrow> string \<Rightarrow> pkce_entry \<Rightarrow> (sys, user) prog" where
  "datagsm_login repr e code entry =
     seq (fetch_userinfo e code (pk_verifier entry)) (\<lambda>info.
     seq (lift (parse_profile repr info)) (\<lambda>pf.
     oauth_account e pf (target_role (pk_role entry))))"

definition oauth_callback ::
  "crypto \<Rightarrow> (json \<Rightarrow> string) \<Rightarrow> env \<Rightarrow> string \<Rightarrow> string \<Rightarrow> (stores, string) prog" where
  "oauth_callback cr repr e code state =
     seq (pop_state state) (\<lambda>found.
     seq (beside now) (\<lambda>t.
     case found of
       None \<Rightarrow> raise (Http 400 ''bad-state'')
     | Some entry \<Rightarrow>
         seq (raise_if (pk_expires entry < t) (Http 400 ''bad-state'')) (\<lambda>_.
         seq (raise_if (pk_verifier entry = []) (Http 400 ''bad-state'')) (\<lambda>_.
         seq (beside (datagsm_login repr e code entry)) (\<lambda>u.
         seq (raise_if (\<not> u_is_active u) (Http 403 ''inactive'')) (\<lambda>_.
         seq (beside (issue_tokens cr e (u_id u))) (\<lambda>tk.
         seq (beside (token_urlsafe e 48)) (\<lambda>temp_code.
         seq (beside now) (\<lambda>t'.
         seq (modify (\<lambda>q. q\<lparr>token_store := AList.update temp_code
                \<lparr>te_tokens = tk, te_expires = t' + TEMP_TTL\<rparr> (token_store q)\<rparr>)) (\<lambda>_.
         ret (callback_url (conf e) temp_code)))))))))))"

definition exchange_temp_code :: "env \<Rightarrow> string \<Rightarrow> (stores, cookie list) prog" where
  "exchange_temp_code e code =
     seq (pop_temp code) (\<lambda>found.
     seq (beside now) (\<lambda>t.
     case found of
       None \<Rightarrow> raise (Http 400 ''bad-code'')
     | Some entry \<Rightarrow>
         seq (raise_if (te_expires entry < t) (Http 400 ''bad-code'')) (\<lambda>_.
         ret (auth_cookies (conf e) (te_tokens entry)))))"

section \<open>Runs\<close>

lemma stores_code [code]:
  "beside m q = (case m (outside q) of (r, s') \<Rightarrow> (r, q\<lparr>outside := s'\<rparr>))"
  "pop_state st q = (Inr (map_of (pkce_store q) st), q\<lparr>pkce_store := AList.delete st (pkce_store q)\<rparr>)"
  "pop_temp c q = (Inr (map_of (token_store q) c), q\<lparr>token_store := AList.delete c (token_store q)\<rparr>)"
  "store_state st en q = (if MAX_STATES < length (pkce_store q) then (Inl (Http 503 ''busy''), q)
     else (Inr (), q\<lparr>pkce_store := AList.update st en (pkce_store q)\<rparr>))"
  by (simp_all add: beside_def pop_state_def pop_temp_def store_state_def)

lemma beside_Inr_iff [run_iffs]:
  "beside m q = (Inr x, q') \<longleftrightarrow> (\<exists>s'. m (outside q) = (Inr x, s') \<and> q' = q\<lparr>outside := s'\<rparr>)"
  by (auto simp: beside_def split: prod.splits)

lemma pops_Inr_iff [run_iffs]:
  "pop_state st q = (Inr x, q') \<longleftrightarrow> x = map_of (pkce_store q) st \<and> q' = q\<lparr>pkce_store := AList.delete st (pkce_store q)\<rparr>"
  "pop_temp c q = (Inr y, q') \<longleftrightarrow> y = map_of (token_store q) c \<and> q' = q\<lparr>token_store := AList.delete c (token_store q)\<rparr>"
  by (auto simp: pop_state_def pop_temp_def)

lemma keeps_stores [keeps_intros]:
  "keeps pkce_store (beside m)" "keeps token_store (beside m)"
  "keeps pkce_store (pop_temp c)" "keeps token_store (pop_state st)"
  "keeps outside (pop_temp c)" "keeps outside (pop_state st)"
  by (auto simp: keeps_def beside_def pop_temp_def pop_state_def split: prod.splits)

lemma keeps_beside: "keeps f m \<Longrightarrow> keeps (\<lambda>q. f (outside q)) (beside m)"
  by (auto simp: keeps_def beside_def split: prod.splits) (metis snd_conv)

lemma keeps_random_bytes [keeps_intros]: "keeps db (token_bytes e n)" "keeps db (token_urlsafe e n)"
  "keeps clk (token_bytes e n)" "keeps clk (token_urlsafe e n)"
  unfolding token_urlsafe_def token_bytes_def draw_def
  by (intro keeps_intros; (simp add: keeps_def)?)+

lemma token_urlsafe_total: "\<exists>t s'. token_urlsafe e n s = (Inr t, s')"
proof -
  have "\<exists>t s'. map_each xs (\<lambda>_. seq (draw e 256) (\<lambda>i. ret (char_of i :: char))) s = (Inr t, s')" for xs :: "nat list" and s
  proof (induction xs arbitrary: s)
    case (Cons x xs)
    obtain i s1 where d: "seq (draw e 256) (\<lambda>i. ret (char_of i :: char)) s = (Inr i, s1)"
      by (auto simp: seq_def draw_def ret_def)
    with Cons[of s1] show ?case by (auto simp: seq_def ret_def)
  qed (simp add: ret_def)
  then show ?thesis unfolding token_urlsafe_def token_bytes_def
    by (simp add: seq_def[of "map_each _ _"] ret_def split: prod.splits sum.splits) (metis prod.inject sum.distinct(1))
qed

section \<open>One use, and bounded stores\<close>

lemma map_of_alist_delete [simp]: "map_of (AList.delete k kvs) k = None"
  by (simp add: AList.delete_conv)

lemma keeps_after: "m s = (Inr x, t) \<Longrightarrow> keeps f (k x) \<Longrightarrow> f (snd (seq m k s)) = f t"
  by (simp add: seq_def keeps_def)

lemma callback_pkce: "pkce_store (snd (oauth_callback cr repr e code st q)) = AList.delete st (pkce_store q)"
proof -
  have pop: "pop_state st q = (Inr (map_of (pkce_store q) st), q\<lparr>pkce_store := AList.delete st (pkce_store q)\<rparr>)"
    by (simp add: pop_state_def)
  show ?thesis
    unfolding oauth_callback_def
    by (subst keeps_after[where m = "pop_state st" and s = q and f = pkce_store, OF pop]) (auto intro!: keeps_intros keeps_modify)
qed

lemma exchange_store: "token_store (snd (exchange_temp_code e code q)) = AList.delete code (token_store q)"
proof -
  have pop: "pop_temp code q = (Inr (map_of (token_store q) code), q\<lparr>token_store := AList.delete code (token_store q)\<rparr>)"
    by (simp add: pop_temp_def)
  show ?thesis
    unfolding exchange_temp_code_def
    by (subst keeps_after[where m = "pop_temp code" and s = q and f = token_store, OF pop]) (auto intro!: keeps_intros)
qed

lemma beside_now: "beside now q = (Inr (clk (outside q)), q)"
  by (simp add: beside_def now_def gets_def)

lemma callback_unknown:
  "map_of (pkce_store q) st = None \<Longrightarrow>
     oauth_callback cr repr e code st q = (Inl (Http 400 ''bad-state''), q\<lparr>pkce_store := AList.delete st (pkce_store q)\<rparr>)"
  by (simp add: oauth_callback_def seq_def pop_state_def beside_now raise_def)

lemma exchange_unknown:
  "map_of (token_store q) code = None \<Longrightarrow>
     exchange_temp_code e code q = (Inl (Http 400 ''bad-code''), q\<lparr>token_store := AList.delete code (token_store q)\<rparr>)"
  by (simp add: exchange_temp_code_def seq_def pop_temp_def beside_now raise_def)

text \<open>
  C22. A started login is completed at most once and a temporary code is exchanged at most once: whatever the
  first attempt led to, a second callback with the same state and a second exchange of the same code are
  refused with a 400, before any request to DataGSM, and change nothing.
\<close>

theorem oauth_single_use:
  "let q' = snd (oauth_callback cr repr e code state q); p' = snd (exchange_temp_code e temp p)
   in oauth_callback cr repr e code' state q' = (Inl (Http 400 ''bad-state''), q') \<and>
      exchange_temp_code e temp p' = (Inl (Http 400 ''bad-code''), p')"
proof -
  let ?q' = "snd (oauth_callback cr repr e code state q)" and ?p' = "snd (exchange_temp_code e temp p)"
  have q: "AList.delete state (pkce_store ?q') = pkce_store ?q'" "map_of (pkce_store ?q') state = None"
    by (simp_all add: callback_pkce AList.delete_idem)
  have p: "AList.delete temp (token_store ?p') = token_store ?p'" "map_of (token_store ?p') temp = None"
    by (simp_all add: exchange_store AList.delete_idem)
  show ?thesis using callback_unknown[OF q(2)] exchange_unknown[OF p(2)] q(1) p(1) by (simp add: Let_def)
qed

section \<open>The stores stay bounded\<close>

text \<open>
  What can happen to the stores: the three requests, the periodic cleanup, and anything in the rest of the
  process, which does not see them.
\<close>

inductive ostep :: "stores \<Rightarrow> stores \<Rightarrow> bool" where
  authorize: "ostep q (snd (oauth_authorize sha e role q))"
| callback: "ostep q (snd (oauth_callback cr repr e code state q))"
| exchange: "ostep q (snd (exchange_temp_code e temp q))"
| cleanup: "ostep q (snd (cleanup_stores q))"
| elsewhere: "ostep q (q\<lparr>outside := s'\<rparr>)"

inductive_cases ostepE: "ostep q q'"

definition oinv :: "stores \<Rightarrow> bool" where
  "oinv q \<longleftrightarrow> length (pkce_store q) \<le> MAX_STATES + 1 \<and> distinct (map fst (pkce_store q)) \<and>
     distinct (map fst (token_store q))"

definition ostart :: "stores \<Rightarrow> bool" where
  "ostart q \<longleftrightarrow> pkce_store q = [] \<and> token_store q = []"

lemma oinv_cleanup: "oinv q \<Longrightarrow> oinv (snd (cleanup_stores q))"
  by (auto simp: oinv_def cleanup_stores_def seq_def beside_now modify_def distinct_map_filter
      intro: order_trans[OF length_filter_le])

lemma oinv_outside [simp]: "oinv (q\<lparr>outside := s\<rparr>) = oinv q"
  by (simp add: oinv_def)

lemma length_update_le: "length (AList.update k v kvs) \<le> Suc (length kvs)"
  by (induction kvs) (auto split: prod.splits)

lemma wp_beside_oinv: "oinv q \<Longrightarrow> wp (beside m) (\<lambda>_. oinv) (\<lambda>_. oinv) q"
  by (auto simp: wp_def beside_def split: prod.splits sum.splits)

lemma wp_store_state: "oinv q \<Longrightarrow> wp (store_state st en) (\<lambda>_. oinv) (\<lambda>_. oinv) q"
  using length_update_le[of st en "pkce_store q"]
  by (auto simp: wp_def store_state_def oinv_def distinct_update)

lemma oinv_authorize: 
  assumes "oinv q"
  shows "oinv (snd (oauth_authorize sha e role q))"
proof (rule wp_final)
  have c: "oinv q \<Longrightarrow> wp cleanup_stores (\<lambda>_. oinv) (\<lambda>_. oinv) q" for q
    using oinv_cleanup[of q] by (auto simp: wp_def cleanup_stores_def seq_def beside_now modify_def)
  show "wp (oauth_authorize sha e role) (\<lambda>_. oinv) (\<lambda>_. oinv) q"
    unfolding oauth_authorize_def using assms
    by (auto simp: wp_simps intro!: wp_mono[OF wp_beside_oinv] wp_mono[OF c] wp_mono[OF wp_store_state] split: prod.splits)
qed

lemma oinv_callback: 
  assumes "oinv q"
  shows "oinv (snd (oauth_callback cr repr e code st q))"
proof (rule wp_final)
  have pop: "oinv q \<Longrightarrow> wp (pop_state st) (\<lambda>_. oinv) (\<lambda>_. oinv) q" for q
    by (auto simp: wp_def pop_state_def oinv_def distinct_delete intro: order_trans[OF length_delete_le])
  show "wp (oauth_callback cr repr e code st) (\<lambda>_. oinv) (\<lambda>_. oinv) q"
    unfolding oauth_callback_def using assms
    by (auto simp: wp_simps intro!: wp_mono[OF wp_beside_oinv] wp_mono[OF pop] split: prod.splits option.splits)
      (auto simp: oinv_def distinct_update)
qed

lemma oinv_exchange:
  assumes "oinv q"
  shows "oinv (snd (exchange_temp_code e code q))"
proof (rule wp_final)
  have pop: "oinv q \<Longrightarrow> wp (pop_temp code) (\<lambda>_. oinv) (\<lambda>_. oinv) q" for q
    by (auto simp: wp_def pop_temp_def oinv_def distinct_delete)
  show "wp (exchange_temp_code e code) (\<lambda>_. oinv) (\<lambda>_. oinv) q"
    unfolding exchange_temp_code_def using assms
    by (auto simp: wp_simps intro!: wp_mono[OF wp_beside_oinv] wp_mono[OF pop] split: option.splits)
qed

interpretation oauth_stores: invariant_system ostart ostep oinv
proof
  show "ostart q \<Longrightarrow> oinv q" for q by (simp add: ostart_def oinv_def)
next
  show "oinv q \<Longrightarrow> ostep q q' \<Longrightarrow> oinv q'" for q q'
    by (erule ostepE) (simp_all add: oinv_authorize oinv_callback oinv_exchange oinv_cleanup)
qed

text \<open>
  The store of started logins never holds more than 1001 entries and no state twice, in whatever order
  logins are started, completed, exchanged and cleaned up; an unauthenticated client cannot fill the memory.
\<close>

theorem oauth_stores_bounded:
  assumes "ostart q" and "ostep\<^sup>*\<^sup>* q q'"
  shows "length (pkce_store q') \<le> 1001 \<and> distinct (map fst (pkce_store q')) \<and> distinct (map fst (token_store q'))"
  using oauth_stores.inv_reachable[OF assms] by (simp add: oinv_def MAX_STATES_def)

definition sample_stores :: "database \<Rightarrow> stores" where
  "sample_stores d = \<lparr>pkce_store = [], token_store = [], outside = sample_state d\<rparr>"

lemma oauth_stores_bounded_witness:
  "length (pkce_store (snd (oauth_authorize (\<lambda>s. s) (sample_env agreeing) ''user'' (sample_stores empty_database)))) \<le> 1001"
proof -
  have "ostart (sample_stores empty_database)" by (simp add: ostart_def sample_stores_def)
  from oauth_stores_bounded[OF this r_into_rtranclp[of ostep, OF ostep.authorize]] show ?thesis by blast
qed

section \<open>Who is logged in\<close>

lemma match_account_mem: "match_account d email role = Inr (Some u) \<Longrightarrow>
    u \<in> set (users d) \<and> u_email u = email \<and> (u_role u = role \<or> (role = USER \<and> u_role u = ADMIN))"
  by (auto simp: match_account_def find_user_by_email_role_def split: option.splits if_splits dest!: find_Some_iff_mem)

lemma linked_user_same: "linked_user pf u = Inr v \<Longrightarrow>
    u_id v = u_id u \<and> u_email v = u_email u \<and> u_role v = u_role u \<and> u_is_active v = u_is_active u"
  by (auto simp: linked_user_def andthen_Inr_iff Let_def split: if_splits)

lemma oauth_user_new: "oauth_user pf email = Inr v \<Longrightarrow>
    u_email v = email \<and> u_role v = USER \<and> u_is_active v"
  by (auto simp: oauth_user_def andthen_Inr_iff)

text \<open>The account: one the database has afterwards, of the address DataGSM gave and the role asked for.\<close>

lemma oauth_account_run:
  assumes "oauth_account e pf role s = (Inr v, s')" and "ids_ok (db s)"
  shows "find (\<lambda>x. u_id x = u_id v) (users (db s')) = Some v \<and> pf_email pf = JStr (u_email v) \<and>
     (u_role v = role \<or> (role = USER \<and> u_role v = ADMIN)) \<and>
     (\<forall>x \<in> set (users (db s)). u_id x \<noteq> u_id v \<longrightarrow> x \<in> set (users (db s'))) \<and>
     u_id v \<in> insert (next_id (db s)) (u_id ` set (users (db s)))"
proof -
  from assms(1) obtain email m where em: "pf_email pf = JStr email" "match_account (db s) email role = Inr m"
    and rest: "(case m of
       Some u \<Rightarrow>
         seq (lift (linked_user pf u)) (\<lambda>v. seq (commit e (set_user (u_id u) (\<lambda>_. v) (db s))) (\<lambda>_. ret v))
     | None \<Rightarrow>
         if role \<noteq> USER then raise (Http 404 ''no-account'')
         else seq (lift (oauth_user pf email)) (\<lambda>v.
              seq (commit e (add_user v (db s))) (\<lambda>_. ret (v\<lparr>u_id := next_id (db s)\<rparr>)))) s = (Inr v, s')"
    unfolding oauth_account_def by (auto simp: run_iffs split: json.splits)
  show ?thesis
  proof (cases m)
    case (Some u)
    with rest have v: "linked_user pf u = Inr v" "commit e (set_user (u_id u) (\<lambda>_. v) (db s)) s = (Inr (), s')"
      by (auto simp: run_iffs)
    note mem = match_account_mem[OF em(2)[unfolded Some]] and same = linked_user_same[OF v(1)]
    have d: "users (db s') = update_rows (\<lambda>x. u_id x = u_id u) (\<lambda>_. v) (users (db s))"
      using commit_constraints[OF v(2)] by (simp add: set_user_def)
    have "distinct (map u_id (users (db s')))"
      using assms(2) same unfolding d ids_ok_def update_rows_def by (simp add: o_def if_distrib cong: if_cong)
    moreover have "v \<in> set (users (db s'))" unfolding d using mem by (auto simp: set_update_rows)
    ultimately have "find (\<lambda>x. u_id x = u_id v) (users (db s')) = Some v" by (rule user_table.lookup_unique)
    moreover have "x \<in> set (users (db s'))" if "x \<in> set (users (db s))" "u_id x \<noteq> u_id v" for x
      unfolding d using that same by (auto simp: set_update_rows)
    ultimately show ?thesis using em(1) mem same by auto
  next
    case None
    with rest obtain w where w: "role = USER" "oauth_user pf email = Inr w" "v = w\<lparr>u_id := next_id (db s)\<rparr>"
      "commit e (add_user w (db s)) s = (Inr (), s')" by (auto simp: run_iffs split: if_splits)
    have d: "users (db s') = users (db s) @ [v]"
      using commit_constraints[OF w(4)] by (simp add: add_user_def w(3))
    have "find (\<lambda>x. u_id x = u_id v) (users (db s')) = Some v"
      unfolding d using assms(2) user_table.insert_lookup[of "users (db s)" "next_id (db s)" w]
      by (simp add: w(3) ids_ok_def)
    then show ?thesis using em(1) oauth_user_new[OF w(2)] w(1,3) d by auto
  qed
qed

lemma parse_profile_email: "parse_profile repr info = Inr pf \<Longrightarrow> obj_get info ''email'' JNull = Inr (pf_email pf)"
  by (clarsimp simp: parse_profile_def andthen_Inr_iff)

lemma issue_tokens_frame: "issue_tokens cr e i s = (Inr tk, s') \<Longrightarrow> s' = s"
  by (simp add: issue_tokens_run)

text \<open>
  C23. A login with DataGSM ends at the right account: when the callback redirects, the code in the address
  it redirects to can be exchanged for the next minute, the access token it gives identifies, at every
  endpoint, an active account with the address DataGSM reported for this login and the role the login was
  started with (or the administrator's, for the role user), and every other account is as it was.
\<close>

theorem oauth_login_identifies:
  assumes "jwt_ok cr" and "\<forall>c. jwt_encode cr c \<noteq> []" and "ids_ok (db (outside q))"
    and "\<forall>u \<in> set (users (db (outside q))). 0 \<le> u_id u" and "0 \<le> next_id (db (outside q))"
    and "0 < ACCESS_TOKEN_EXPIRE_MINUTES (conf e)"
    and "oauth_callback cr repr e code state q = (Inr url, q')"
  shows "\<exists>temp tk pk info s2 u. url = FRONTEND_URL (conf e) @ ''/auth/callback?code='' @ temp \<and>
     map_of (token_store q') temp = Some \<lparr>te_tokens = tk, te_expires = clk (outside q') + 60 * second\<rparr> \<and>
     exchange_temp_code e temp q' = (Inr (auth_cookies (conf e) tk), q'\<lparr>token_store := AList.delete temp (token_store q')\<rparr>) \<and>
     get_current_user cr (Some (tk_access tk)) None (outside q') = (Inr u, outside q') \<and>
     map_of (pkce_store q) state = Some pk \<and> clk (outside q) \<le> pk_expires pk \<and>
     fetch_userinfo e code (pk_verifier pk) (outside q) = (Inr info, s2) \<and>
     obj_get info ''email'' JNull = Inr (JStr (u_email u)) \<and>
     (u_role u = target_role (pk_role pk) \<or> (target_role (pk_role pk) = USER \<and> u_role u = ADMIN)) \<and>
     (\<forall>x \<in> set (users (db (outside q))). u_id x \<noteq> u_id u \<longrightarrow> x \<in> set (users (db (outside q'))))"
proof -
  from assms(7) obtain pk s3 u tk temp s4 s5 where
    pk: "map_of (pkce_store q) state = Some pk" "\<not> pk_expires pk < clk (outside q)"
    and login: "datagsm_login repr e code pk (outside q) = (Inr u, s3)" "u_is_active u"
    and tk5: "issue_tokens cr e (u_id u) s3 = (Inr tk, s5)"
    and temp5: "token_urlsafe e 48 s5 = (Inr temp, s4)"
    and url: "url = callback_url (conf e) temp"
    and q': "q' = q\<lparr>pkce_store := AList.delete state (pkce_store q), outside := s4,
        token_store := AList.update temp \<lparr>te_tokens = tk, te_expires = clk s4 + TEMP_TTL\<rparr> (token_store q)\<rparr>"
    unfolding oauth_callback_def by (clarsimp simp: run_iffs split: option.splits)
  from login obtain info pf s2 where
    info: "fetch_userinfo e code (pk_verifier pk) (outside q) = (Inr info, s2)" "parse_profile repr info = Inr pf"
    and acc: "oauth_account e pf (target_role (pk_role pk)) s2 = (Inr u, s3)" "u_is_active u"
    unfolding datagsm_login_def by (auto simp: run_iffs)
  have tk: "issue_tokens cr e (u_id u) s3 = (Inr tk, s3)" and temp: "token_urlsafe e 48 s3 = (Inr temp, s4)"
    using tk5 temp5 issue_tokens_frame[OF tk5] by simp_all
  have "keeps db (fetch_userinfo e code (pk_verifier pk))"
    unfolding fetch_userinfo_def by (intro keeps_intros)
  then have d2: "db s2 = db (outside q)" using info(1) by (rule keepsD)
  have d4: "db s4 = db s3" "clk s4 = clk s3"
    using keepsD[OF keeps_random_bytes(2) temp] keepsD[OF keeps_random_bytes(4) temp] by simp_all
  note acct = oauth_account_run[OF acc(1) assms(3)[folded d2], unfolded d2]
  have email: "obj_get info ''email'' JNull = Inr (JStr (u_email u))"
    using parse_profile_email[OF info(2)] acct by simp
  have id: "0 \<le> u_id u" using acct assms(4,5) by auto
  have access: "tk_access tk = jwt_encode cr \<lparr>c_exp = clk s4 + ACCESS_TOKEN_EXPIRE_MINUTES (conf e) * minute,
      c_sub = Some (show_int (u_id u)), c_type = Some ''access''\<rparr>"
    using tk d4 by (simp add: issue_tokens_run)
  have valid: "clk s4 < clk s4 + ACCESS_TOKEN_EXPIRE_MINUTES (conf e) * minute" using assms(6) by simp
  have caller: "get_current_user cr (Some (tk_access tk)) None (outside q') = (Inr u, outside q')"
    unfolding access using assms(1,2) valid id acct acc(2) d4
    by (simp add: q' get_current_user_def str_or_def prog_defs now_def jwt_ok_def py_int_show)
  have entry: "map_of (token_store q') temp = Some \<lparr>te_tokens = tk, te_expires = clk (outside q') + TEMP_TTL\<rparr>"
    by (simp add: q' update_conv')
  have "exchange_temp_code e temp q' = (Inr (auth_cookies (conf e) tk), q'\<lparr>token_store := AList.delete temp (token_store q')\<rparr>)"
    using entry by (simp add: exchange_temp_code_def pop_temp_def seq_def beside_now raise_if_def ret_def TEMP_TTL_def second_def)
  then show ?thesis
    using url entry caller pk info(1) email acct d4
    by (intro exI[of _ temp] exI[of _ tk] exI[of _ pk] exI[of _ info] exI[of _ s2] exI[of _ u])
      (auto simp: callback_url_def TEMP_TTL_def q')
qed

definition datagsm :: "call list \<Rightarrow> call \<Rightarrow> exn + json" where
  "datagsm hist c = (case c of
     OauthToken code verifier \<Rightarrow>
       Inr (JList [JInt 200, JObj [(''data'', JObj [(''access_token'', JStr ''at'')])]])
   | OauthUserinfo tok \<Rightarrow>
       Inr (JList [JInt 200, JObj [(''email'', JStr ''s@gsm.hs.kr''), (''id'', JInt 5), (''grade'', JInt 2)]])
   | _ \<Rightarrow> Inr JNull)"

definition login_stores :: stores where
  "login_stores = \<lparr>pkce_store = [(''st'', \<lparr>pk_verifier = ''v'', pk_expires = STORE_TTL, pk_role = ''user''\<rparr>)],
     token_store = [], outside = sample_state login_db\<rparr>"

lemma oauth_login_identifies_witness:
  "\<exists>temp tk q' u. oauth_callback sample_crypto (\<lambda>_. []) (sample_env datagsm) ''c'' ''st'' login_stores =
      (Inr (''http://localhost:3000/auth/callback?code='' @ temp), q') \<and>
     exchange_temp_code (sample_env datagsm) temp q' =
       (Inr (auth_cookies sample_settings tk), q'\<lparr>token_store := AList.delete temp (token_store q')\<rparr>) \<and>
     get_current_user sample_crypto (Some (tk_access tk)) None (outside q') = (Inr u, outside q') \<and> u_email u = ''s@gsm.hs.kr''"
proof -
  let ?run = "oauth_callback sample_crypto (\<lambda>_. []) (sample_env datagsm) ''c'' ''st'' login_stores"
  have "\<not> isl (fst (datagsm_login (\<lambda>_. []) (sample_env datagsm) ''c''
      \<lparr>pk_verifier = ''v'', pk_expires = STORE_TTL, pk_role = ''user''\<rparr> (sample_state login_db)))
    \<and> u_is_active (projr (fst (datagsm_login (\<lambda>_. []) (sample_env datagsm) ''c''
      \<lparr>pk_verifier = ''v'', pk_expires = STORE_TTL, pk_role = ''user''\<rparr> (sample_state login_db))))" by code_simp
  then obtain u s3 where login: "datagsm_login (\<lambda>_. []) (sample_env datagsm) ''c''
      \<lparr>pk_verifier = ''v'', pk_expires = STORE_TTL, pk_role = ''user''\<rparr> (sample_state login_db) = (Inr u, s3)" "u_is_active u"
    by (smt (verit) prod.collapse sum.collapse(2))
  obtain temp s4 where temp: "token_urlsafe (sample_env datagsm) 48 s3 = (Inr temp, s4)"
    using token_urlsafe_total by blast
  have start: "clk (sample_state login_db) = 0" "\<not> STORE_TTL < 0"
    by (simp_all add: sample_state_def STORE_TTL_def second_def)
  obtain url q' where run: "?run = (Inr url, q')"
    using login temp start
    by (simp add: oauth_callback_def seq_def pop_state_def beside_now beside_def raise_if_def ret_def modify_def
        login_stores_def issue_tokens_def create_access_token_def create_refresh_token_def now_def gets_def)
  have jwt: "\<forall>c. jwt_encode sample_crypto c \<noteq> []" by (simp add: sample_crypto_def enc_text_def)
  have ids: "ids_ok (db (outside login_stores))" "\<forall>u \<in> set (users (db (outside login_stores))). 0 \<le> u_id u"
    "0 \<le> next_id (db (outside login_stores))" "0 < ACCESS_TOKEN_EXPIRE_MINUTES (conf (sample_env datagsm))"
    by (simp_all add: ids_ok_def login_stores_def login_db_def sample_defs)
  have info: "fst (fetch_userinfo (sample_env datagsm) ''c'' v (outside login_stores)) =
      Inr (JObj [(''email'', JStr ''s@gsm.hs.kr''), (''id'', JInt 5), (''grade'', JInt 2)])" for v
    by (simp add: fetch_userinfo_def prog_defs ext_eq datagsm_def sample_env_def)
  have c: "conf (sample_env datagsm) = sample_settings" "FRONTEND_URL sample_settings = ''http://localhost:3000''"
    by (simp_all add: sample_env_def sample_settings_def default_settings_def)
  from oauth_login_identifies[OF sample_jwt_ok jwt ids run, unfolded c] show ?thesis
  proof (elim exE conjE)
    fix temp tk pk i s2 v
    assume "url = ''http://localhost:3000'' @ ''/auth/callback?code='' @ temp"
      and ex: "exchange_temp_code (sample_env datagsm) temp q' =
       (Inr (auth_cookies sample_settings tk), q'\<lparr>token_store := AList.delete temp (token_store q')\<rparr>)"
      and me: "get_current_user sample_crypto (Some (tk_access tk)) None (outside q') = (Inr v, outside q')"
      and "fetch_userinfo (sample_env datagsm) ''c'' (pk_verifier pk) (outside login_stores) = (Inr i, s2)"
      and "obj_get i ''email'' JNull = Inr (JStr (u_email v))"
    then have "u_email v = ''s@gsm.hs.kr''" and "?run = (Inr (''http://localhost:3000/auth/callback?code='' @ temp), q')"
      using info[of "pk_verifier pk"] run by auto
    with ex me show ?thesis by blast
  qed
qed

end
