(* ===== verification/Background.thy ===== *)
theory Background
  imports Oauth DeleteVm
begin

text \<open>
  What the background tasks of \<open>main.py\<close> share: the texts of their notifications (UTF-8, since the tasks
  search them), the time until the next hour of a schedule, the \<open>while True\<close> with its counter of consecutive
  failures, and the two tasks that only report: the notifications to administrators about VMs that expire
  soon, and the daily report to Discord.
\<close>

section \<open>Texts\<close>

definition txt_expiring :: string where
  "txt_expiring =
    [CHR 0xEB, CHR 0xA7, CHR 0x8C, CHR 0xEB, CHR 0xA3, CHR 0x8C, CHR '' '', CHR 0xEC, CHR 0x9E, CHR 0x84,
     CHR 0xEB, CHR 0xB0, CHR 0x95, CHR '' '', CHR ''V'', CHR ''M'']"

definition txt_count :: string where
  "txt_count =
    [CHR 0xEA, CHR 0xB0, CHR 0x9C, CHR '':'', CHR '' '']"

definition txt_days :: string where
  "txt_days =
    [CHR 0xEC, CHR 0x9D, CHR 0xBC, CHR '' '']"

definition txt_hours :: string where
  "txt_hours =
    [CHR 0xEC, CHR 0x8B, CHR 0x9C, CHR 0xEA, CHR 0xB0, CHR 0x84, CHR '')'']"

definition txt_until :: string where
  "txt_until =
    [CHR 0xEB, CHR 0xA7, CHR 0x8C, CHR 0xEB, CHR 0xA3, CHR 0x8C, CHR 0xEA, CHR 0xB9, CHR 0x8C, CHR 0xEC,
     CHR 0xA7, CHR 0x80]"

definition txt_left :: string where
  "txt_left =
    [CHR 0xEC, CHR 0x9D, CHR 0xBC, CHR '' '', CHR 0xEB, CHR 0x82, CHR 0xA8, CHR 0xEC, CHR 0x95, CHR 0x98,
     CHR 0xEC, CHR 0x8A, CHR 0xB5, CHR 0xEB, CHR 0x8B, CHR 0x88, CHR 0xEB, CHR 0x8B, CHR 0xA4, CHR ''.'',
     CHR '' '', CHR 0xEC, CHR 0x97, CHR 0xB0, CHR 0xEC, CHR 0x9E, CHR 0xA5, CHR 0xED, CHR 0x95, CHR 0xB4,
     CHR 0xEC, CHR 0xA3, CHR 0xBC, CHR 0xEC, CHR 0x84, CHR 0xB8, CHR 0xEC, CHR 0x9A, CHR 0x94, CHR ''.'']"

definition txt_grace_mark :: string where
  "txt_grace_mark =
    [CHR ''3'', CHR 0xEC, CHR 0x9D, CHR 0xBC, CHR '' '', CHR 0xED, CHR 0x9B, CHR 0x84, CHR '' '', CHR 0xEC,
     CHR 0x99, CHR 0x84, CHR 0xEC, CHR 0xA0, CHR 0x84, CHR '' '', CHR 0xEC, CHR 0x82, CHR 0xAD, CHR 0xEC,
     CHR 0xA0, CHR 0x9C]"

definition txt_failing :: string where
  "txt_failing =
    [CHR '']'', CHR '' '', CHR 0xEB, CHR 0xB0, CHR 0xB1, CHR 0xEA, CHR 0xB7, CHR 0xB8, CHR 0xEB, CHR 0x9D,
     CHR 0xBC, CHR 0xEC, CHR 0x9A, CHR 0xB4, CHR 0xEB, CHR 0x93, CHR 0x9C, CHR '' '', CHR 0xED, CHR 0x83,
     CHR 0x9C, CHR 0xEC, CHR 0x8A, CHR 0xA4, CHR 0xED, CHR 0x81, CHR 0xAC, CHR '' '', CHR 0xEC, CHR 0x97,
     CHR 0xB0, CHR 0xEC, CHR 0x86, CHR 0x8D, CHR '' '']"

definition txt_check :: string where
  "txt_check =
    [CHR 0xED, CHR 0x9A, CHR 0x8C, CHR '' '', CHR 0xEC, CHR 0x8B, CHR 0xA4, CHR 0xED, CHR 0x8C, CHR 0xA8,
     CHR '' '', CHR 0xE2, CHR 0x80, CHR 0x94, CHR '' '', CHR 0xEC, CHR 0xA0, CHR 0x90, CHR 0xEA, CHR 0xB2,
     CHR 0x80, CHR 0xEC, CHR 0x9D, CHR 0xB4, CHR '' '', CHR 0xED, CHR 0x95, CHR 0x84, CHR 0xEC, CHR 0x9A,
     CHR 0x94, CHR 0xED, CHR 0x95, CHR 0xA9, CHR 0xEB, CHR 0x8B, CHR 0x88, CHR 0xEB, CHR 0x8B, CHR 0xA4,
     CHR ''.'']"

definition txt_snapshot :: string where
  "txt_snapshot =
    [CHR 0xEC, CHR 0x9E, CHR 0x90, CHR 0xEB, CHR 0x8F, CHR 0x99, CHR '' '', CHR 0xEC, CHR 0x9D, CHR 0xBC,
     CHR 0xEC, CHR 0x9D, CHR 0xBC, CHR '' '', CHR 0xEC, CHR 0x8A, CHR 0xA4, CHR 0xEB, CHR 0x83, CHR 0x85,
     CHR 0xEC, CHR 0x83, CHR 0xB7]"

definition txt_no_owner :: string where
  "txt_no_owner =
    [CHR ''('', CHR 0xEC, CHR 0x86, CHR 0x8C, CHR 0xEC, CHR 0x9C, CHR 0xA0, CHR 0xEC, CHR 0x9E, CHR 0x90,
     CHR '' '', CHR 0xEC, CHR 0x97, CHR 0x86, CHR 0xEC, CHR 0x9D, CHR 0x8C, CHR '')'']"

definition txt_stopped :: string where
  "txt_stopped =
    [CHR 0xEC, CHR 0x9D, CHR 0xB4, CHR ''('', CHR 0xEA, CHR 0xB0, CHR 0x80, CHR '')'', CHR '' '', CHR 0xEB,
     CHR 0xA7, CHR 0x8C, CHR 0xEB, CHR 0xA3, CHR 0x8C, CHR 0xEB, CHR 0x90, CHR 0x98, CHR 0xEC, CHR 0x96,
     CHR 0xB4, CHR '' '', CHR 0xEC, CHR 0xA0, CHR 0x95, CHR 0xEC, CHR 0xA7, CHR 0x80, CHR 0xEB, CHR 0x90,
     CHR 0x98, CHR 0xEC, CHR 0x97, CHR 0x88, CHR 0xEC, CHR 0x8A, CHR 0xB5, CHR 0xEB, CHR 0x8B, CHR 0x88,
     CHR 0xEB, CHR 0x8B, CHR 0xA4, CHR ''.'', CHR '' '']"

definition txt_removed :: string where
  "txt_removed =
    [CHR 0xEC, CHR 0x9D, CHR 0xB4, CHR ''('', CHR 0xEA, CHR 0xB0, CHR 0x80, CHR '')'', CHR '' '', CHR 0xEB,
     CHR 0xA7, CHR 0x8C, CHR 0xEB, CHR 0xA3, CHR 0x8C, CHR 0xEB, CHR 0x90, CHR 0x98, CHR 0xEC, CHR 0x96,
     CHR 0xB4, CHR '' '', CHR 0xEC, CHR 0x9E, CHR 0x90, CHR 0xEB, CHR 0x8F, CHR 0x99, CHR '' '', CHR 0xEC,
     CHR 0x82, CHR 0xAD, CHR 0xEC, CHR 0xA0, CHR 0x9C, CHR 0xEB, CHR 0x90, CHR 0x98, CHR 0xEC, CHR 0x97,
     CHR 0x88, CHR 0xEC, CHR 0x8A, CHR 0xB5, CHR 0xEB, CHR 0x8B, CHR 0x88, CHR 0xEB, CHR 0x8B, CHR 0xA4,
     CHR ''.'']"

definition txt_will_be :: string where
  "txt_will_be =
    [CHR 0xEB, CHR 0x90, CHR 0xA9, CHR 0xEB, CHR 0x8B, CHR 0x88, CHR 0xEB, CHR 0x8B, CHR 0xA4, CHR ''.'']"

text \<open>
  SQL's \<open>LIKE\<close>: \<open>%\<close> stands for any text, \<open>_\<close> for one character, a backslash takes the meaning of the
  next character away. \<open>column.contains(x)\<close> is \<open>LIKE '%x%'\<close>, and \<open>x\<close> is not escaped unless asked for.
\<close>

definition continuation :: "char \<Rightarrow> bool" where
  "continuation c \<longleftrightarrow> 128 \<le> (of_char c :: nat) \<and> (of_char c :: nat) < 192"

fun sql_like :: "string \<Rightarrow> string \<Rightarrow> bool" where
  "sql_like [] s = (s = [])"
| "sql_like (p # ps) s =
     (if p = CHR ''%'' then list_ex (sql_like ps) (suffixes s)
      else if p = CHR ''_'' then s \<noteq> [] \<and> sql_like ps (dropWhile continuation (tl s))
      else if p = CHR 0x5C then
        (case ps of [] \<Rightarrow> False | c # cs \<Rightarrow> s \<noteq> [] \<and> hd s = c \<and> sql_like cs (tl s))
      else s \<noteq> [] \<and> hd s = p \<and> sql_like ps (tl s))"

definition sql_contains :: "string \<Rightarrow> string \<Rightarrow> bool" where
  "sql_contains t x = sql_like (''%'' @ x @ ''%'') t"

section \<open>The next hour of a schedule\<close>

text \<open>\<open>today.replace(hour=h)\<close> raises \<open>ValueError\<close> when \<open>h\<close> is no hour.\<close>

fun first_after :: "int \<Rightarrow> int \<Rightarrow> int list \<Rightarrow> exn + int option" where
  "first_after t today [] = Inr None"
| "first_after t today (h # hs) =
     (if h < 0 \<or> 23 < h then Inl (ValueError ''hour'')
      else if t < today + h * hour then Inr (Some (today + h * hour - t))
      else first_after t today hs)"

definition next_notify_sleep :: "int \<Rightarrow> int list \<Rightarrow> exn + int" where
  "next_notify_sleep t hours =
     (let today = t - t mod day; sorted_hours = sort hours
      in andthen (first_after t today sorted_hours) (\<lambda>r. case r of
           Some d \<Rightarrow> Inr d
         | None \<Rightarrow> (case sorted_hours of [] \<Rightarrow> Inl OtherException | h # _ \<Rightarrow> Inr (today + day + h * hour - t))))"

section \<open>A task that never ends\<close>

definition FAILURE_NOTIFY_THRESHOLD :: int where "FAILURE_NOTIFY_THRESHOLD = 5"

definition FAST_RETRY :: int where "FAST_RETRY = 300 * second"

definition active_admins :: "database \<Rightarrow> user list" where
  "active_admins d = filter (\<lambda>u. u_role u = ADMIN \<and> u_is_active u) (users d)"

definition notify_each :: "int list \<Rightarrow> string \<Rightarrow> string \<Rightarrow> int \<Rightarrow> database \<Rightarrow> database" where
  "notify_each ids ty msg t d = fold (\<lambda>i d. add_notification i ty msg t d) ids d"

definition failure_text :: "string \<Rightarrow> int \<Rightarrow> string" where
  "failure_text task n = ''['' @ task @ txt_failing @ show_int n @ txt_check"

definition notify_admins_background_failure :: "env \<Rightarrow> string \<Rightarrow> int \<Rightarrow> (sys, unit) prog" where
  "notify_admins_background_failure e task n =
     catch
       (seq (gets db) (\<lambda>d.
        seq now (\<lambda>t.
        commit e (notify_each (map u_id (active_admins d)) ''error'' (failure_text task n) t d))))
       (\<lambda>_. ret ())"

text \<open>
  One turn of the \<open>while True\<close> that five tasks have in common, with the number \<open>n\<close> of consecutive failures
  before it: the body inside the \<open>try\<close>, the handler that counts and reports at the fifth failure, and the
  pause. \<open>rest\<close> is the pause after a success.
\<close>

definition task_turn :: "env \<Rightarrow> string \<Rightarrow> (sys, unit) prog \<Rightarrow> (sys, unit) prog \<Rightarrow> int \<Rightarrow> (sys, int) prog" where
  "task_turn e task body rest n =
     seq (catch (seq body (\<lambda>_. ret 0))
       (\<lambda>_. seq (if n + 1 = FAILURE_NOTIFY_THRESHOLD then notify_admins_background_failure e task (n + 1) else ret ())
              (\<lambda>_. ret (n + 1)))) (\<lambda>n'.
     seq (if 0 < n' then sleep FAST_RETRY else rest) (\<lambda>_. ret n'))"

text \<open>The first \<open>k\<close> turns of a task.\<close>

fun turns :: "nat \<Rightarrow> (int \<Rightarrow> ('s, int) prog) \<Rightarrow> int \<Rightarrow> ('s, int) prog" where
  "turns 0 turn n = ret n"
| "turns (Suc k) turn n = seq (turn n) (turns k turn)"

section \<open>Telling the administrators what expires soon\<close>

text \<open>\<open>expires_at\<close> is set, and lies after \<open>lo\<close> and not after \<open>hi\<close>.\<close>

definition expires_in :: "int \<Rightarrow> int \<Rightarrow> vm \<Rightarrow> bool" where
  "expires_in lo hi v \<longleftrightarrow> (case vm_expires_at v of None \<Rightarrow> False | Some x \<Rightarrow> lo < x \<and> x \<le> hi)"

definition expiry :: "vm \<Rightarrow> int" where
  "expiry v = (case vm_expires_at v of None \<Rightarrow> 0 | Some x \<Rightarrow> x)"

definition soon_vms :: "database \<Rightarrow> int \<Rightarrow> vm list" where
  "soon_vms d t = filter (expires_in t (t + 3 * day)) (vms d)"

definition soon_part :: "int \<Rightarrow> vm \<Rightarrow> string" where
  "soon_part t v =
     (let delta = expiry v - t
      in vm_name v @ ''('' @ show_int (delta div day) @ txt_days @ show_int (delta mod day div hour) @ txt_hours)"

definition soon_text :: "int \<Rightarrow> vm list \<Rightarrow> string" where
  "soon_text t vs =
     txt_expiring @ '' '' @ show_nat (length vs) @ txt_count @ join '', '' (map (soon_part t) vs)"

text \<open>A notification of this kind that was made today.\<close>

definition told_today :: "int \<Rightarrow> int \<Rightarrow> notification \<Rightarrow> bool" where
  "told_today t i n \<longleftrightarrow> n_user_id n = i \<and> n_type n = ''info'' \<and> sql_like (txt_expiring @ ''%'') (n_message n) \<and>
     t - t mod day \<le> n_created_at n"

definition untold :: "int \<Rightarrow> database \<Rightarrow> int list" where
  "untold t d = filter (\<lambda>i. \<not> list_ex (told_today t i) (notifications d)) (map u_id (active_admins d))"

definition send_admin_expiry_notifications :: "env \<Rightarrow> int \<Rightarrow> (sys, unit) prog" where
  "send_admin_expiry_notifications e t =
     seq (gets db) (\<lambda>d.
     if soon_vms d t = [] then ret ()
     else seq now (\<lambda>t'. commit e (notify_each (untold t d) ''info'' (soon_text t (soon_vms d t)) t' d)))"

definition NOTIFY_HOURS :: "int list" where "NOTIFY_HOURS = [0, 6, 12, 18]"

text \<open>Waiting for an hour of the schedule, unless the last turn failed.\<close>

definition wait_for_hour :: "int list \<Rightarrow> int \<Rightarrow> (sys, unit) prog" where
  "wait_for_hour hours n =
     (if n = 0 then seq now (\<lambda>t. seq (lift (next_notify_sleep t hours)) sleep) else ret ())"

definition admin_expiry_notify_turn :: "env \<Rightarrow> int \<Rightarrow> (sys, int) prog" where
  "admin_expiry_notify_turn e n =
     task_turn e ''expiry-notify''
       (seq (wait_for_hour NOTIFY_HOURS n) (\<lambda>_. seq now (\<lambda>t. send_admin_expiry_notifications e t)))
       (ret ()) n"

section \<open>The daily report\<close>

record node_report =
  nr_name :: string
  nr_load :: "(rat \<times> rat \<times> rat option) option"
  nr_ok :: bool

record vm_report =
  vr_name :: string
  vr_owner_email :: string
  vr_days_left :: int
  vr_expires_at :: int

definition report_node :: "env \<Rightarrow> server \<Rightarrow> (sys, node_report) prog" where
  "report_node e srv =
     catch
       (seq (get_server_resource_usage e srv) (\<lambda>u.
        ret \<lparr>nr_name = srv_name srv, nr_load = Some (cpu_pct u, ram_pct u, disk_pct u),
             nr_ok = (cpu_pct u < 90 \<and> ram_pct u < 90)\<rparr>))
       (\<lambda>_. ret \<lparr>nr_name = srv_name srv, nr_load = None, nr_ok = False\<rparr>)"

definition report_vm :: "database \<Rightarrow> int \<Rightarrow> vm \<Rightarrow> vm_report" where
  "report_vm d t v =
     \<lparr>vr_name = vm_name v,
      vr_owner_email = (case find (\<lambda>u. vm_owner_id v = Some (u_id u)) (users d) of
          None \<Rightarrow> txt_no_owner | Some u \<Rightarrow> u_email u),
      vr_days_left = (expiry v - t) div day, vr_expires_at = expiry v\<rparr>"

definition collect_discord_daily_report :: "env \<Rightarrow> int \<Rightarrow> (sys, node_report list \<times> vm_report list) prog" where
  "collect_discord_daily_report e t =
     seq (gets db) (\<lambda>d.
     seq (map_each (filter srv_is_active (servers d)) (report_node e)) (\<lambda>nodes.
     ret (nodes, map (report_vm d t) (sort_key expiry (soon_vms d t)))))"

text \<open>
  The lines of the message. How Python writes their numbers, dates and pictures is the parameter \<open>render\<close>
  of the task below.
\<close>

datatype report_line =
    Title int
  | Blank
  | Node_Heading
  | Node_Failed string
  | Node_Load string rat rat "rat option" bool
  | Vm_Heading
  | Vm_Expiring string string int int

definition shortened :: "string \<Rightarrow> string" where
  "shortened name = (if length name \<le> 40 then name else take 37 name @ ''...'')"

definition node_line :: "node_report \<Rightarrow> report_line" where
  "node_line n = (case nr_load n of
       None \<Rightarrow> Node_Failed (nr_name n)
     | Some (cpu, ram, disk) \<Rightarrow> Node_Load (nr_name n) cpu ram disk (nr_ok n))"

definition vm_line :: "vm_report \<Rightarrow> report_line" where
  "vm_line v = Vm_Expiring (shortened (vr_name v)) (vr_owner_email v) (vr_days_left v) (vr_expires_at v)"

definition format_discord_daily_message :: "node_report list \<times> vm_report list \<Rightarrow> int \<Rightarrow> report_line list" where
  "format_discord_daily_message report t =
     [Title t, Blank, Node_Heading] @ map node_line (fst report) @
     (if snd report = [] then [] else [Blank, Vm_Heading] @ map vm_line (snd report))"

definition send_discord_message :: "env \<Rightarrow> string \<Rightarrow> (sys, unit) prog" where
  "send_discord_message e content =
     (if DISCORD_WEBHOOK_URL (conf e) = [] then ret ()
      else seq (ext e (DiscordPost content)) (\<lambda>_. ret ()))"

definition discord_daily_turn :: "env \<Rightarrow> (report_line list \<Rightarrow> string) \<Rightarrow> int \<Rightarrow> (sys, int) prog" where
  "discord_daily_turn e render n =
     task_turn e ''discord-daily''
       (seq (wait_for_hour [DISCORD_DAILY_HOUR (conf e)] n) (\<lambda>_.
        seq now (\<lambda>t.
        seq (collect_discord_daily_report e t) (\<lambda>report.
        seq (send_discord_message e (render (format_discord_daily_message report t))) (\<lambda>_.
        sleep (60 * second))))))
       (ret ()) n"

section \<open>The schedule\<close>

lemma find_sorted_least: "sorted xs \<Longrightarrow> find p xs = Some h \<Longrightarrow> x \<in> set xs \<Longrightarrow> p x \<Longrightarrow> h \<le> x"
  by (induction xs) (auto split: if_splits)

lemma first_after_find:
  "\<forall>h \<in> set hs. 0 \<le> h \<and> h \<le> 23 \<Longrightarrow> first_after t today hs =
     Inr (map_option (\<lambda>h. today + h * hour - t) (find (\<lambda>h. t < today + h * hour) hs))"
  by (induction hs) auto

lemma hour_of_day:
  assumes "day dvd today" and "0 \<le> h" and "h \<le> 23" and "today \<le> t" and "t < today + day" and "t mod day = h * hour"
  shows "t = today + h * hour"
proof -
  have "today mod day = 0" using assms(1) by simp
  then have "(t - today) mod day = t mod day" using mod_diff_eq[of t day today] by simp
  moreover have "(t - today) mod day = t - today" using assms(4,5) by (intro mod_pos_pos_trivial) simp_all
  ultimately show ?thesis using assms(6) by simp
qed

lemma mod_of_hour:
  assumes "day dvd today" and "0 \<le> h" and "h \<le> 23"
  shows "(today + h * hour) mod day = h * hour"
proof -
  have "h * hour \<le> 23 * hour" using assms(3) by (intro mult_right_mono) (simp_all add: less_imp_le)
  moreover have "23 * hour < day" using time_pos(3) unfolding day_def by linarith
  ultimately have "h * hour < day" by (rule le_less_trans)
  moreover have "0 \<le> h * hour" using assms(2) by (intro mult_nonneg_nonneg) (simp_all add: less_imp_le)
  ultimately have "0 \<le> h * hour" "h * hour < day" by simp_all
  then show ?thesis using assms(1) by (elim dvdE) simp
qed

text \<open>
  A scheduled task sleeps until the next hour of its schedule: the pause is positive, at most a day, ends at
  an hour of the schedule, and passes none.
\<close>

theorem next_notify_sleep_next:
  assumes "hours \<noteq> []" and "\<forall>h \<in> set hours. 0 \<le> h \<and> h \<le> 23"
  shows "\<exists>d. next_notify_sleep t hours = Inr d \<and> 0 < d \<and> d \<le> day \<and> (\<exists>h \<in> set hours. (t + d) mod day = h * hour) \<and>
     (\<forall>d' h. 0 < d' \<and> d' < d \<and> h \<in> set hours \<longrightarrow> (t + d') mod day \<noteq> h * hour)"
proof -
  let ?today = "t - t mod day" and ?hs = "sort hours"
  have today: "day dvd ?today" "?today \<le> t" "t < ?today + day"
    using pos_mod_bound[of day t] pos_mod_sign[of day t] by (simp_all add: dvd_minus_mod)
  then have tomorrow: "day dvd ?today + day" by simp
  have hs: "\<forall>h \<in> set ?hs. 0 \<le> h \<and> h \<le> 23" using assms(2) by simp
  have upto: "h * hour \<le> 23 * hour" "0 \<le> h * hour" if "h \<in> set hours" for h
    using assms(2) that by (auto intro!: mult_right_mono simp: less_imp_le)
  have late: "23 * hour < day" using time_pos(3) unfolding day_def by linarith
  have run: "next_notify_sleep t hours = (case find (\<lambda>h. t < ?today + h * hour) ?hs of
       Some h \<Rightarrow> Inr (?today + h * hour - t)
     | None \<Rightarrow> (case ?hs of [] \<Rightarrow> Inl OtherException | h # _ \<Rightarrow> Inr (?today + day + h * hour - t)))"
    by (simp add: next_notify_sleep_def Let_def first_after_find[OF hs] split: option.split)
  show ?thesis
  proof (cases "find (\<lambda>h. t < ?today + h * hour) ?hs")
    case (Some h)
    have h: "h \<in> set hours" "t < ?today + h * hour" using find_Some_iff_mem[OF Some] by simp_all
    let ?d = "?today + h * hour - t"
    have "(t + d') mod day \<noteq> g * hour" if "0 < d'" "d' < ?d" "g \<in> set hours" for d' g
    proof
      assume eq: "(t + d') mod day = g * hour"
      have in_day: "?today \<le> t + d'" "t + d' < ?today + day" using that(1,2) today upto[OF h(1)] late by linarith+
      have "t + d' = ?today + g * hour"
        by (rule hour_of_day[OF today(1) _ _ in_day eq]) (use assms(2) that(3) in auto)
      then have "t < ?today + g * hour" "g * hour < h * hour" using that by linarith+
      moreover have "h \<le> g" using find_sorted_least[OF sorted_sort Some, of g] that(3) calculation(1) by simp
      ultimately show False by simp
    qed
    moreover have "t + ?d = ?today + h * hour" by linarith
    then have "(t + ?d) mod day = h * hour" using mod_of_hour[OF today(1)] assms(2) h(1) by (simp only:)
    moreover have "0 < ?d" "?d \<le> day" using h(2) upto[OF h(1)] late today by linarith+
    ultimately show ?thesis using run Some h(1) by (intro exI[of _ ?d]) auto
  next
    case None
    obtain h rest where hr: "?hs = h # rest" using assms(1) by (cases ?hs) (auto dest: arg_cong[where f = length])
    have h: "h \<in> set hours" "\<And>g. g \<in> set hours \<Longrightarrow> h \<le> g"
      using hr sorted_sort[of hours] by (metis list.set_intros(1) set_sort, metis hr set_ConsD set_sort sorted_simps(2) order_refl)
    have past: "?today + g * hour \<le> t" if "g \<in> set hours" for g
      using None that by (auto simp: find_None_all not_less)
    let ?d = "?today + day + h * hour - t"
    have "(t + d') mod day \<noteq> g * hour" if "0 < d'" "d' < ?d" "g \<in> set hours" for d' g
    proof
      assume eq: "(t + d') mod day = g * hour"
      have g: "0 \<le> g" "g \<le> 23" using assms(2) that(3) by auto
      have "h * hour \<le> g * hour" using h(2)[OF that(3)] by (intro mult_right_mono) (simp_all add: less_imp_le)
      show False
      proof (cases "t + d' < ?today + day")
        case True
        have "?today \<le> t + d'" using that(1) today by linarith
        from hour_of_day[OF today(1) g this True eq] have "t + d' = ?today + g * hour" .
        then show False using past[OF that(3)] that(1) by linarith
      next
        case False
        have in_day: "?today + day \<le> t + d'" "t + d' < ?today + day + day"
          using False that(2) upto[OF h(1)] late by linarith+
        from hour_of_day[OF tomorrow g in_day eq] have "t + d' = ?today + day + g * hour" .
        then show False using that(2) \<open>h * hour \<le> g * hour\<close> by linarith
      qed
    qed
    moreover have "t + ?d = ?today + day + h * hour" by linarith
    then have "(t + ?d) mod day = h * hour" using mod_of_hour[OF tomorrow] assms(2) h(1) by (simp only:)
    moreover have "0 < ?d" "?d \<le> day" using past[OF h(1)] upto[OF h(1)] today by linarith+
    ultimately show ?thesis using run None hr h(1) by (intro exI[of _ ?d]) auto
  qed
qed

lemma next_notify_sleep_next_witness:
  "\<exists>d. next_notify_sleep (13 * hour) NOTIFY_HOURS = Inr d \<and> 0 < d \<and> d = 5 * hour"
proof -
  have hours: "NOTIFY_HOURS \<noteq> []" "\<forall>h \<in> set NOTIFY_HOURS. 0 \<le> h \<and> h \<le> 23" by (simp_all add: NOTIFY_HOURS_def)
  have "next_notify_sleep (13 * hour) NOTIFY_HOURS = Inr (5 * hour)" by code_simp
  then show ?thesis using next_notify_sleep_next[OF hours, of "13 * hour"] by auto
qed

section \<open>Failing tasks\<close>

lemma notify_each_simps [simp]:
  "users (notify_each ids ty msg t d) = users d" "vms (notify_each ids ty msg t d) = vms d"
  "constraints_ok (notify_each ids ty msg t d) = constraints_ok d"
  unfolding notify_each_def
  by (induction ids arbitrary: d; simp add: add_notification_def constraints_ok_def)+

lemma notifications_notify_each:
  "\<exists>ns. notifications (notify_each ids ty msg t d) = notifications d @ ns \<and> map n_user_id ns = ids \<and>
     (\<forall>n \<in> set ns. n_type n = ty \<and> n_message n = msg \<and> n_created_at n = t)"
  unfolding notify_each_def
proof (induction ids arbitrary: d)
  case (Cons i ids)
  from Cons[of "add_notification i ty msg t d"] show ?case
    by (auto simp: add_notification_def)
qed simp

lemma notify_admins_run:
  assumes "db_answers e" and "constraints_ok (db s)"
  shows "\<exists>s' t. notify_admins_background_failure e task n s = (Inr (), s') \<and> clk s \<le> clk s' \<and>
     db s' = notify_each (map u_id (active_admins (db s))) ''error'' (failure_text task n) t (db s)"
  using assms db_answersD[OF assms(1)]
  by (auto simp: notify_admins_background_failure_def prog_defs now_def commit_def ext_eq split: sum.split)

lemma failing_turn:
  assumes "db_answers e" and "constraints_ok (db s)" and "body s = (Inl x, s1)" and "db s1 = db s" and "0 \<le> n"
  shows "\<exists>s'. task_turn e task body rest n s = (Inr (n + 1), s') \<and> clk s1 + FAST_RETRY \<le> clk s' \<and>
     users (db s') = users (db s) \<and> constraints_ok (db s') \<and>
     map n_user_id (notifications (db s')) =
       map n_user_id (notifications (db s)) @ (if n = 4 then map u_id (active_admins (db s)) else [])"
proof (cases "n = 4")
  case True
  from notify_admins_run[OF assms(1), of s1 task "n + 1"] assms(2,4) obtain s2 t where
    s2: "notify_admins_background_failure e task (n + 1) s1 = (Inr (), s2)" "clk s1 \<le> clk s2"
      "db s2 = notify_each (map u_id (active_admins (db s))) ''error'' (failure_text task (n + 1)) t (db s)" by auto
  from notifications_notify_each obtain ns where
    "notifications (db s2) = notifications (db s) @ ns" "map n_user_id ns = map u_id (active_admins (db s))"
    unfolding s2(3) by blast
  then show ?thesis
    using s2 True assms(2,3) by (simp add: task_turn_def prog_defs FAILURE_NOTIFY_THRESHOLD_def sleep_def)
next
  case False
  then show ?thesis
    using assms by (simp add: task_turn_def prog_defs FAILURE_NOTIFY_THRESHOLD_def sleep_def)
qed

lemma failing_turns:
  assumes "db_answers e" and "\<And>n s. \<exists>x s1. body n s = (Inl x, s1) \<and> db s1 = db s \<and> clk s \<le> clk s1"
    and "constraints_ok (db s)" and "0 \<le> n"
  shows "\<exists>s'. turns k (\<lambda>n. task_turn e task (body n) (rest n) n) n s = (Inr (n + int k), s') \<and>
     clk s + int k * FAST_RETRY \<le> clk s' \<and> users (db s') = users (db s) \<and>
     map n_user_id (notifications (db s')) = map n_user_id (notifications (db s)) @
       (if n < 5 \<and> 5 \<le> n + int k then map u_id (active_admins (db s)) else [])"
  using assms(3,4)
proof (induction k arbitrary: s n)
  case (Suc k)
  obtain x s1 where s1: "body n s = (Inl x, s1)" "db s1 = db s" "clk s \<le> clk s1" using assms(2) by blast
  from failing_turn[where body = "body n" and rest = "rest n" and task = task, OF assms(1) Suc.prems(1) s1(1,2) Suc.prems(2)]
  obtain s2 where
    s2: "task_turn e task (body n) (rest n) n s = (Inr (n + 1), s2)" "clk s1 + FAST_RETRY \<le> clk s2"
      "users (db s2) = users (db s)" "constraints_ok (db s2)"
      "map n_user_id (notifications (db s2)) =
        map n_user_id (notifications (db s)) @ (if n = 4 then map u_id (active_admins (db s)) else [])" by blast
  have a: "active_admins (db s2) = active_admins (db s)" by (simp add: active_admins_def s2(3))
  from Suc.IH[OF s2(4), of "n + 1"] Suc.prems(2) obtain s3 where
    "turns k (\<lambda>n. task_turn e task (body n) (rest n) n) (n + 1) s2 = (Inr (n + 1 + int k), s3)"
    "clk s2 + int k * FAST_RETRY \<le> clk s3" "users (db s3) = users (db s2)"
    "map n_user_id (notifications (db s3)) = map n_user_id (notifications (db s2)) @
       (if n + 1 < 5 \<and> 5 \<le> n + 1 + int k then map u_id (active_admins (db s2)) else [])" by fastforce
  then show ?case
    using s2 s1(3) unfolding a by (auto simp: seq_def algebra_simps)
qed (auto simp: ret_def)



section \<open>One notification a day\<close>

definition plain_char :: "char \<Rightarrow> bool" where
  "plain_char c \<longleftrightarrow> c \<noteq> CHR ''%'' \<and> c \<noteq> CHR ''_'' \<and> c \<noteq> CHR 0x5C"

lemma sql_like_any: "sql_like ''%'' s"
  by (auto simp: list_ex_iff)

lemma sql_like_plain: "list_all plain_char p \<Longrightarrow> sql_like (p @ q) (p @ s) = sql_like q s"
  by (induction p) (auto simp: plain_char_def)

lemma sql_like_prefix: "list_all plain_char p \<Longrightarrow> sql_like (p @ ''%'') (p @ s)"
  using sql_like_plain[of p "''%''" s] sql_like_any by blast

lemma plain_expiring: "list_all plain_char txt_expiring"
  by (simp add: txt_expiring_def plain_char_def)

lemma soon_text_like: "sql_like (txt_expiring @ ''%'') (soon_text t vs)"
  unfolding soon_text_def by (rule sql_like_prefix[OF plain_expiring])

lemma count_new_rows:
  assumes "map n_user_id ns = ids" and "distinct ids" and "\<forall>n \<in> set ns. p n \<longleftrightarrow> n_user_id n = i"
  shows "count_rows p ns = (if i \<in> set ids then 1 else 0)"
  using assms by (induction ns arbitrary: ids) (auto split: if_splits)

lemma list_ex_count: "list_ex p rows \<longleftrightarrow> 0 < count_rows p rows"
  by (induction rows) (auto simp: add_pos_nonneg)

text \<open>
  The administrators hear of the VMs that are about to expire at least once and at most once a day, however
  often the task runs: after a run with such VMs every active administrator has the notification of the day,
  one who had it gets no second one, and with no such VM nothing happens.
\<close>

theorem admins_told_once_a_day:
  assumes "distinct (map u_id (users (db s)))" and "t \<le> clk s"
    and "send_admin_expiry_notifications e t s = (Inr (), s')"
  shows "if soon_vms (db s) t = [] then db s' = db s
     else \<forall>u \<in> set (active_admins (db s)). count_rows (told_today t (u_id u)) (notifications (db s')) =
       max 1 (count_rows (told_today t (u_id u)) (notifications (db s)))"
proof (cases "soon_vms (db s) t = []")
  case True
  then show ?thesis using assms(3) by (auto simp: send_admin_expiry_notifications_def run_iffs)
next
  case False
  let ?msg = "soon_text t (soon_vms (db s) t)"
  from assms(3) False have "commit e (notify_each (untold t (db s)) ''info'' ?msg (clk s) (db s)) s = (Inr (), s')"
    by (simp add: send_admin_expiry_notifications_def run_iffs)
  then have d: "db s' = notify_each (untold t (db s)) ''info'' ?msg (clk s) (db s)"
    by (auto dest: commit_constraints)
  from notifications_notify_each[of "untold t (db s)" "''info''" ?msg "clk s" "db s"] obtain ns where
    ns: "notifications (db s') = notifications (db s) @ ns" "map n_user_id ns = untold t (db s)"
      "\<forall>n \<in> set ns. n_type n = ''info'' \<and> n_message n = ?msg \<and> n_created_at n = clk s"
    unfolding d by blast
  have today: "t - t mod day \<le> clk s" using assms(2) pos_mod_sign[of day t] time_pos(4) by linarith
  have dist: "distinct (untold t (db s))"
    using assms(1) by (auto simp: untold_def active_admins_def distinct_map_filter)
  have told: "\<forall>n \<in> set ns. told_today t i n \<longleftrightarrow> n_user_id n = i" for i
    using ns(3) soon_text_like[of t "soon_vms (db s) t"] today by (auto simp: told_today_def)
  have "count_rows (told_today t (u_id u)) (notifications (db s')) =
      max 1 (count_rows (told_today t (u_id u)) (notifications (db s)))" if "u \<in> set (active_admins (db s))" for u
  proof -
    have mem: "u_id u \<in> set (untold t (db s)) \<longleftrightarrow> \<not> 0 < count_rows (told_today t (u_id u)) (notifications (db s))"
      using that by (auto simp: untold_def list_ex_count)
    have nn: "count_rows (told_today t (u_id u)) (notifications (db s)) = 0 \<or>
        1 \<le> count_rows (told_today t (u_id u)) (notifications (db s))"
      using count_rows_nonneg[of "told_today t (u_id u)" "notifications (db s)"] by linarith
    show ?thesis
      unfolding ns(1) count_rows_append count_new_rows[OF ns(2) dist told] using mem nn by (auto simp: max_def)
  qed
  then show ?thesis using False by simp
qed

definition expiring_db :: database where
  "expiring_db = empty_database\<lparr>users := [sample_user 7 ADMIN, sample_user 8 USER],
     vms := [(sample_vm 1 (Some 8))\<lparr>vm_expires_at := Some (2 * day)\<rparr>]\<rparr>"

lemma admins_told_once_a_day_witness:
  "\<exists>s'. send_admin_expiry_notifications (sample_env agreeing) 0 (sample_state expiring_db) = (Inr (), s') \<and>
     count_rows (told_today 0 7) (notifications (db s')) = 1"
proof -
  let ?s = "sample_state expiring_db"
  let ?run = "send_admin_expiry_notifications (sample_env agreeing) 0 ?s"
  have "fst ?run = Inr ()" by code_simp
  then obtain s' where run: "?run = (Inr (), s')" by (cases ?run) auto
  have pre: "distinct (map u_id (users (db ?s)))" "0 \<le> clk ?s" by (simp_all add: expiring_db_def sample_defs)
  have soon: "soon_vms (db ?s) 0 \<noteq> []"
    by (simp add: soon_vms_def expires_in_def expiring_db_def sample_defs)
  have admin: "sample_user 7 ADMIN \<in> set (active_admins (db ?s))" "u_id (sample_user 7 ADMIN) = 7"
    "notifications (db ?s) = []"
    by (simp_all add: active_admins_def expiring_db_def sample_defs)
  show ?thesis using admins_told_once_a_day[OF pre run] soon admin run by auto
qed

end
