(* ===== verification/Expiry.thy ===== *)
theory Expiry
  imports Background
begin

text \<open>
  Two background tasks of \<open>main.py\<close>: the hourly one that stops VMs whose time is over, deletes them three days
  later, warns owners and clears old notifications, and the weekly backup of the gateways' rules.
\<close>

section \<open>VMs in their grace period\<close>

definition EXPIRE_GRACE_DAYS :: int where "EXPIRE_GRACE_DAYS = 3"

definition grace_start :: "int \<Rightarrow> int" where
  "grace_start t = t - EXPIRE_GRACE_DAYS * day"

definition grace_text :: "vm \<Rightarrow> string" where
  "grace_text v = ''VM '' @ [CHR 0x27] @ vm_name v @ [CHR 0x27] @ txt_stopped @ txt_grace_mark @ txt_will_be"

text \<open>The owner has been told since the VM expired.\<close>

definition told_expired :: "vm \<Rightarrow> int \<Rightarrow> notification \<Rightarrow> bool" where
  "told_expired v i n \<longleftrightarrow> n_user_id n = i \<and> py_contains (n_message n) ([CHR 0x27] @ vm_name v @ [CHR 0x27]) \<and>
     sql_contains (n_message n) txt_grace_mark \<and> expiry v \<le> n_created_at n"

text \<open>\<open>if vm.owner_id\<close>.\<close>

definition owner_of :: "vm \<Rightarrow> int option" where
  "owner_of v = (if vm_owner_id v = Some 0 then None else vm_owner_id v)"

definition notify_grace :: "env \<Rightarrow> vm \<Rightarrow> (sys, unit) prog" where
  "notify_grace e v =
     catch
       (case owner_of v of
          None \<Rightarrow> ret ()
        | Some i \<Rightarrow>
            seq (gets db) (\<lambda>d.
            if list_ex (told_expired v i) (notifications d) then ret ()
            else seq now (\<lambda>t. commit e (add_notification i ''error'' (grace_text v) t d))))
       (\<lambda>_. ret ())"

definition stop_expired :: "env \<Rightarrow> vm \<Rightarrow> (sys, unit) prog" where
  "stop_expired e v =
     catch
       (seq (gets db) (\<lambda>d.
        case find (\<lambda>r. srv_id r = vm_server_id v) (servers d) of
          None \<Rightarrow> raise AttributeError
        | Some srv \<Rightarrow>
            seq (get_proxmox_for_server e srv) (\<lambda>_.
            seq (ext e (PveVmStatus (srv_name srv) (vm_vmid v))) (\<lambda>j.
            seq (lift (obj_get j ''status'' JNull)) (\<lambda>st.
            if json_is st ''running'' then seq (ext e (PvePower (srv_name srv) (vm_vmid v) STOP)) (\<lambda>_. ret ())
            else ret ())))))
       (\<lambda>_. ret ())"

definition process_grace_vms :: "env \<Rightarrow> int \<Rightarrow> (sys, unit) prog" where
  "process_grace_vms e t =
     seq (gets db) (\<lambda>d.
     for_each (filter (expires_in (grace_start t) t) (vms d)) (\<lambda>v.
       seq (notify_grace e v) (\<lambda>_. stop_expired e v)))"

section \<open>VMs whose grace period is over\<close>

definition overdue :: "int \<Rightarrow> vm \<Rightarrow> bool" where
  "overdue t v \<longleftrightarrow> (case vm_expires_at v of None \<Rightarrow> False | Some x \<Rightarrow> x \<le> grace_start t)"

definition removed_text :: "vm \<Rightarrow> string" where
  "removed_text v = ''VM '' @ [CHR 0x27] @ vm_name v @ [CHR 0x27] @ txt_removed"

definition delete_overdue :: "env \<Rightarrow> vm \<Rightarrow> (sys, unit) prog" where
  "delete_overdue e v =
     catch
       (seq (delete_vm e v True) (\<lambda>_.
        case owner_of v of
          None \<Rightarrow> ret ()
        | Some i \<Rightarrow>
            seq (gets db) (\<lambda>d.
            seq now (\<lambda>t. commit e (add_notification i ''error'' (removed_text v) t d)))))
       (\<lambda>_. ret ())"

section \<open>Warnings and old notifications\<close>

definition warning_text :: "int \<Rightarrow> vm \<Rightarrow> string" where
  "warning_text t v =
     ''VM '' @ [CHR 0x27] @ vm_name v @ [CHR 0x27] @ '': '' @ txt_until @ show_int ((expiry v - t) div day) @ txt_left"

text \<open>
  Some notification of today to the owner contains the VM's name, taken as a pattern, and the words
  \<open>until the expiry\<close>.
\<close>

definition warned_today :: "int \<Rightarrow> vm \<Rightarrow> int \<Rightarrow> notification \<Rightarrow> bool" where
  "warned_today t v i n \<longleftrightarrow> n_user_id n = i \<and> sql_contains (n_message n) (vm_name v) \<and>
     sql_contains (n_message n) txt_until \<and> t - t mod day \<le> n_created_at n"

text \<open>
  The session does not flush before it queries, so every VM is compared with the notifications that were
  committed before; all new ones are committed together.
\<close>

definition warnings_due :: "int \<Rightarrow> database \<Rightarrow> (int \<times> string) list" where
  "warnings_due t d =
     concat (map (\<lambda>v. case owner_of v of
         None \<Rightarrow> []
       | Some i \<Rightarrow> if list_ex (warned_today t v i) (notifications d) then [] else [(i, warning_text t v)])
       (soon_vms d t))"

definition add_warnings :: "(int \<times> string) list \<Rightarrow> int \<Rightarrow> database \<Rightarrow> database" where
  "add_warnings ws t d = fold (\<lambda>(i, msg) d. add_notification i ''error'' msg t d) ws d"

definition clear_old :: "int \<Rightarrow> database \<Rightarrow> database" where
  "clear_old t d = d\<lparr>notifications := delete_rows (\<lambda>n. n_created_at n < t - 15 * day) (notifications d)\<rparr>"

definition expire_pass :: "env \<Rightarrow> (sys, unit) prog" where
  "expire_pass e =
     seq now (\<lambda>t.
     seq (process_grace_vms e t) (\<lambda>_.
     seq (gets db) (\<lambda>d.
     seq (for_each (filter (overdue t) (vms d)) (delete_overdue e)) (\<lambda>_.
     seq (gets db) (\<lambda>d1.
     seq now (\<lambda>t1.
     seq (commit e (add_warnings (warnings_due t d1) t1 d1)) (\<lambda>_.
     seq (gets db) (\<lambda>d2. commit e (clear_old t d2)))))))))"

definition EXPIRE_LOOP_INTERVAL :: int where "EXPIRE_LOOP_INTERVAL = 3600 * second"

definition expire_vms_turn :: "env \<Rightarrow> int \<Rightarrow> (sys, int) prog" where
  "expire_vms_turn e n = task_turn e ''expire'' (expire_pass e) (sleep EXPIRE_LOOP_INTERVAL) n"

section \<open>The weekly backup\<close>

text \<open>The servers whose gateway has not been backed up in this pass.\<close>

fun backup_servers :: "string list \<Rightarrow> server list \<Rightarrow> server list" where
  "backup_servers seen [] = []"
| "backup_servers seen (srv # srvs) =
     (let ip = opt_str (srv_gateway_ip srv)
      in if ip = [] \<or> ip \<in> set seen then backup_servers seen srvs
         else srv # backup_servers (ip # seen) srvs)"

definition backup_gateway :: "env \<Rightarrow> server \<Rightarrow> (sys, unit) prog" where
  "backup_gateway e srv =
     catch
       (seq (ext e (SshConnect (opt_str (srv_gateway_ip srv)) (opt_str (srv_gateway_user srv)))) (\<lambda>_.
        backup_iptables e (opt_str (srv_gateway_ip srv))))
       (\<lambda>_. ret ())"

definition iptables_backup_pass :: "env \<Rightarrow> (sys, unit) prog" where
  "iptables_backup_pass e = seq (gets db) (\<lambda>d. for_each (backup_servers [] (servers d)) (backup_gateway e))"

definition IPTABLES_BACKUP_INTERVAL :: int where "IPTABLES_BACKUP_INTERVAL = 7 * 24 * 3600 * second"

definition iptables_weekly_backup_turn :: "env \<Rightarrow> int \<Rightarrow> (sys, int) prog" where
  "iptables_weekly_backup_turn e n = task_turn e ''weekly-backup'' (iptables_backup_pass e) (sleep IPTABLES_BACKUP_INTERVAL) n"

section \<open>Frames\<close>

lemma seq_gets: "seq (gets f) k s = k (f s) s"
  by (simp add: seq_def gets_def)

lemma seq_run: "m s = (Inr x, t) \<Longrightarrow> seq m k s = k x t"
  by (simp add: seq_def)

text \<open>What the grace pass may do: the calls beyond those of \<open>s0\<close> lie in \<open>A\<close>, and only notifications change.\<close>

definition grace_frame :: "sys \<Rightarrow> call set \<Rightarrow> sys \<Rightarrow> bool" where
  "grace_frame s0 A s \<longleftrightarrow> (\<exists>ns i. db s = (db s0)\<lparr>notifications := ns, next_id := i\<rparr>) \<and>
     (\<exists>xs. calls s = calls s0 @ xs \<and> set xs \<subseteq> A)"

lemma grace_frame_start: "grace_frame s A s"
  by (auto simp: grace_frame_def intro!: exI[of _ "notifications (db s)"] exI[of _ "next_id (db s)"])

lemma grace_frame_rows: "grace_frame s0 A s \<Longrightarrow> servers (db s) = servers (db s0) \<and> vms (db s) = vms (db s0)"
  by (auto simp: grace_frame_def)

lemma grace_frame_called: "grace_frame s0 A s \<Longrightarrow> c \<in> A \<Longrightarrow> grace_frame s0 A (called e c s)"
  by (auto simp: grace_frame_def)

lemma grace_frame_notify:
  assumes "grace_frame s0 A s" and "c \<in> A"
  shows "grace_frame s0 A ((called e c s)\<lparr>db := add_notification i ty msg t (db s)\<rparr>)"
proof -
  from assms(1) obtain ns k xs where f: "db s = (db s0)\<lparr>notifications := ns, next_id := k\<rparr>"
    "calls s = calls s0 @ xs" "set xs \<subseteq> A" unfolding grace_frame_def by blast
  have "add_notification i ty msg t (db s) =
      (db s0)\<lparr>notifications := notifications (add_notification i ty msg t (db s)), next_id := k + 1\<rparr>"
    by (simp add: f(1) add_notification_def)
  then show ?thesis using f(2,3) assms(2) unfolding grace_frame_def by fastforce
qed

lemma grace_frame_keeps:
  assumes "keeps db m" and "logs A m" and "grace_frame s0 A s"
  shows "wp m (\<lambda>_. grace_frame s0 A) (\<lambda>_. grace_frame s0 A) s"
proof (rule wp_runI)
  have "grace_frame s0 A s'" if "m s = (r, s')" for r s'
    using keepsD[OF assms(1) that] logsD[OF assms(2) that] assms(3) by (auto simp: grace_frame_def)
  then show "m s = (Inr x, s') \<Longrightarrow> grace_frame s0 A s'" "m s = (Inl ex, s') \<Longrightarrow> grace_frame s0 A s'" for x ex s' by blast+
qed

text \<open>The calls of the grace pass: reads, commits, and stops of VMs whose time was over less than three days ago.\<close>

definition grace_calls :: "database \<Rightarrow> int \<Rightarrow> call set" where
  "grace_calls d t = {DbCommit} \<union> range PveConnect \<union> (\<Union>node. range (PveVmStatus node)) \<union>
     {PvePower (srv_name srv) (vm_vmid v) STOP |srv v. srv \<in> set (servers d) \<and> v \<in> set (vms d) \<and>
        srv_id srv = vm_server_id v \<and> expires_in (grace_start t) t v}"

lemma notify_grace_frame:
  assumes "grace_frame s0 A s" and "DbCommit \<in> A"
  shows "wp (notify_grace e v) (\<lambda>_. grace_frame s0 A) (\<lambda>_ _. False) s"
  using assms grace_frame_called[OF assms] grace_frame_notify[OF assms]
  by (auto simp: notify_grace_def wp_simps split: option.split)

lemma stop_expired_frame:
  assumes "grace_frame s0 (grace_calls (db s0) t) s" and "v \<in> set (vms (db s0))" and "expires_in (grace_start t) t v"
  shows "wp (stop_expired e v) (\<lambda>_. grace_frame s0 (grace_calls (db s0) t)) (\<lambda>_ _. False) s"
proof (cases "find (\<lambda>r. srv_id r = vm_server_id v) (servers (db s))")
  case None
  then show ?thesis using assms(1) by (simp add: stop_expired_def wp_simps)
next
  case (Some srv)
  let ?A = "grace_calls (db s0) t"
  have srv: "srv \<in> set (servers (db s0))" "srv_id srv = vm_server_id v"
    using find_Some_iff_mem[OF Some] grace_frame_rows[OF assms(1)] by simp_all
  have A: "PveConnect (srv_id srv) \<in> ?A" "PveVmStatus (srv_name srv) (vm_vmid v) \<in> ?A"
    "PvePower (srv_name srv) (vm_vmid v) STOP \<in> ?A"
    using srv assms(2,3) by (auto simp: grace_calls_def)
  have "wp (get_proxmox_for_server e srv) (\<lambda>_. grace_frame s0 ?A) (\<lambda>_. grace_frame s0 ?A) s"
    by (rule grace_frame_keeps[OF keeps_get_proxmox logs_get_proxmox[OF A(1)] assms(1)])
  then show ?thesis using Some A(2,3)
    by (simp add: stop_expired_def wp_simps) (erule wp_mono; auto intro: grace_frame_called)
qed

lemma process_grace_run:
  "\<exists>s'. process_grace_vms e t s = (Inr (), s') \<and> grace_frame s (grace_calls (db s) t) s'"
proof -
  let ?A = "grace_calls (db s) t"
  have "wp (process_grace_vms e t) (\<lambda>_. grace_frame s ?A) (\<lambda>_ _. False) s"
    unfolding process_grace_vms_def wp_seq wp_gets
  proof (rule wp_for_each[where I = "grace_frame s ?A" and s = s, OF grace_frame_start])
    fix v s1 assume v: "v \<in> set (filter (expires_in (grace_start t) t) (vms (db s)))" and f: "grace_frame s ?A s1"
    have "wp (notify_grace e v) (\<lambda>_. grace_frame s ?A) (\<lambda>_ _. False) s1"
      by (rule notify_grace_frame[OF f]) (simp add: grace_calls_def)
    then have "wp (notify_grace e v) (\<lambda>_. wp (stop_expired e v) (\<lambda>_. grace_frame s ?A) (\<lambda>_ _. False)) (\<lambda>_ _. False) s1"
      by (rule wp_mono) (use v stop_expired_frame in auto)
    then show "wp (seq (notify_grace e v) (\<lambda>_. stop_expired e v)) (\<lambda>_. grace_frame s ?A) (\<lambda>_ _. False) s1"
      by (simp add: wp_seq)
  qed
  then show ?thesis by (auto simp: wp_def split: prod.splits sum.splits)
qed

text \<open>
  The grace pass only stops what has run out: it never raises, the only VMs it switches off are those whose
  time was over less than three days ago, on their own node, it deletes nothing at Proxmox, and of the tables
  it changes the notifications alone.
\<close>

theorem grace_stops_only_expired:
  "\<exists>s'. process_grace_vms e t s = (Inr (), s') \<and>
     (\<exists>ns i. db s' = (db s)\<lparr>notifications := ns, next_id := i\<rparr>) \<and>
     (\<exists>xs. calls s' = calls s @ xs \<and> set xs \<subseteq> {DbCommit} \<union> range PveConnect \<union> (\<Union>node. range (PveVmStatus node)) \<union>
       {PvePower (srv_name srv) (vm_vmid v) STOP |srv v. srv \<in> set (servers (db s)) \<and> v \<in> set (vms (db s)) \<and>
          srv_id srv = vm_server_id v \<and> expires_in (t - 3 * day) t v})"
proof -
  from process_grace_run obtain s' where s': "process_grace_vms e t s = (Inr (), s')"
    "grace_frame s (grace_calls (db s) t) s'" by blast
  from s'(2) obtain ns i xs where "db s' = (db s)\<lparr>notifications := ns, next_id := i\<rparr>"
    "calls s' = calls s @ xs" "set xs \<subseteq> grace_calls (db s) t" unfolding grace_frame_def by blast
  then show ?thesis using s'(1) unfolding grace_calls_def grace_start_def EXPIRE_GRACE_DAYS_def by blast
qed

section \<open>What the hourly pass leaves\<close>

text \<open>Nothing of a VM whose grace period is not over is lost; users, servers and jobs are not touched.\<close>

definition spared :: "database \<Rightarrow> int \<Rightarrow> database \<Rightarrow> bool" where
  "spared d0 t d \<longleftrightarrow> set (vms d) \<subseteq> set (vms d0) \<and> (\<forall>v \<in> set (vms d0). \<not> overdue t v \<longrightarrow> v \<in> set (vms d)) \<and>
     (\<forall>p \<in> set (vm_ports d0). (\<forall>v \<in> set (vms d0). vm_id v = p_vm_id p \<longrightarrow> \<not> overdue t v) \<longrightarrow> p \<in> set (vm_ports d)) \<and>
     (\<forall>r \<in> set (https_routes d0). (\<forall>v \<in> set (vms d0). vm_id v = r_vm_id r \<longrightarrow> \<not> overdue t v) \<longrightarrow> r \<in> set (https_routes d)) \<and>
     users d = users d0 \<and> servers d = servers d0 \<and> jobs d = jobs d0"

lemma spared_start: "spared d t d"
  by (simp add: spared_def)

lemma spared_notes [simp]: "spared d0 t (d\<lparr>notifications := ns\<rparr>) = spared d0 t d"
  "spared d0 t (d\<lparr>notifications := ns, next_id := i\<rparr>) = spared d0 t d"
  by (simp_all add: spared_def)

lemma spared_notify [simp]: "spared d0 t (add_notification i ty msg u d) = spared d0 t d"
  by (simp add: add_notification_def)

lemma spared_drop:
  assumes "spared d0 t d" and "distinct (map vm_id (vms d0))" and "v \<in> set (vms d0)" and "overdue t v"
  shows "spared d0 t (drop_vm v d)"
proof -
  have "x = v" if "x \<in> set (vms d0)" "vm_id x = vm_id v" for x
    using assms(2,3) that by (auto simp: distinct_map inj_on_def)
  then show ?thesis using assms(1,3,4) by (auto simp: spared_def drop_vm_def)
qed

lemma delete_overdue_spares:
  assumes "spared d0 t (db s)" and "distinct (map vm_id (vms d0))" and "v \<in> set (vms d0)" and "overdue t v"
  shows "wp (delete_overdue e v) (\<lambda>_ s'. spared d0 t (db s')) (\<lambda>_ _. False) s"
proof -
  have rows: "spared d0 t (delete_vm_rows v u (db s))" for u
    using spared_drop[OF assms] by (auto simp: delete_vm_rows_def split: option.split)
  have "wp (delete_vm e v True) (\<lambda>_ s'. spared d0 t (db s')) (\<lambda>_ s'. spared d0 t (db s')) s"
  proof (rule wp_runI)
    show "spared d0 t (db s')" if "delete_vm e v True s = (Inr x, s')" for x s'
      using wp_result[OF delete_vm_run that] rows by auto
    show "spared d0 t (db s')" if "delete_vm e v True s = (Inl x, s')" for x s'
      using undoesD[OF undoes_delete_vm that] assms(1) by simp
  qed
  then show ?thesis
    by (simp add: delete_overdue_def wp_simps) (erule wp_mono; auto split: option.splits)
qed

lemma add_warnings_notes: "\<exists>ns i. add_warnings ws t d = d\<lparr>notifications := ns, next_id := i\<rparr>"
proof (induction ws arbitrary: d)
  case Nil
  then show ?case by (auto simp: add_warnings_def intro!: exI[of _ "notifications d"] exI[of _ "next_id d"])
next
  case (Cons w ws)
  obtain i msg where w: "w = (i, msg)" by fastforce
  from Cons[of "add_notification i ''error'' msg t d"] obtain ns k where
    "add_warnings ws t (add_notification i ''error'' msg t d) = (add_notification i ''error'' msg t d)\<lparr>notifications := ns, next_id := k\<rparr>"
    by blast
  then have "add_warnings (w # ws) t d = d\<lparr>notifications := ns, next_id := k\<rparr>"
    by (simp add: w add_warnings_def add_notification_def)
  then show ?case by blast
qed

lemma overdue_loop:
  assumes "spared d0 t (db s)" and "distinct (map vm_id (vms d0))" and "set vs \<subseteq> set (vms d0)" and "list_all (overdue t) vs"
  shows "wp (for_each vs (delete_overdue e)) (\<lambda>_ s'. spared d0 t (db s')) (\<lambda>_ _. False) s"
  by (rule wp_for_each[where I = "\<lambda>s. spared d0 t (db s)" and s = s, OF assms(1)])
    (use assms(2-4) delete_overdue_spares in \<open>auto simp: list_all_iff\<close>)

text \<open>The pass up to its first commit.\<close>

lemma expire_pass_run:
  assumes "distinct (map vm_id (vms (db s)))"
  shows "\<exists>s1. spared (db s) (clk s) (db s1) \<and> expire_pass e s =
     seq (commit e (add_warnings (warnings_due (clk s) (db s1)) (clk s1) (db s1)))
       (\<lambda>_. seq (gets db) (\<lambda>d2. commit e (clear_old (clk s) d2))) s1"
proof -
  obtain s0 where s0: "process_grace_vms e (clk s) s = (Inr (), s0)" "grace_frame s (grace_calls (db s) (clk s)) s0"
    using process_grace_run by blast
  have sp: "spared (db s) (clk s) (db s0)" and vms0: "vms (db s0) = vms (db s)"
    using s0(2) spared_start by (auto simp: grace_frame_def)
  have "wp (for_each (filter (overdue (clk s)) (vms (db s0))) (delete_overdue e))
      (\<lambda>_ s'. spared (db s) (clk s) (db s')) (\<lambda>_ _. False) s0"
    by (rule overdue_loop[OF sp assms]) (auto simp: vms0 list_all_iff)
  then obtain s1 where "for_each (filter (overdue (clk s)) (vms (db s0))) (delete_overdue e) s0 = (Inr (), s1)"
    "spared (db s) (clk s) (db s1)"
    by (auto simp: wp_def split: prod.splits sum.splits)
  then show ?thesis
    using s0(1) by (intro exI[of _ s1]) (simp add: expire_pass_def seq_now seq_gets seq_run)
qed

text \<open>
  C29. The hourly pass never loses what is still in use: whatever fails during it, a VM whose time is not over for
  three days keeps its row, its ports and its routes, no VM is added or changed, and accounts, servers and
  jobs are as they were.
\<close>

theorem expire_pass_spares:
  assumes "distinct (map vm_id (vms (db s)))" and "expire_pass e s = (r, s')"
  shows "set (vms (db s')) \<subseteq> set (vms (db s)) \<and>
     (\<forall>v \<in> set (vms (db s)). (\<forall>x. vm_expires_at v = Some x \<longrightarrow> clk s - 3 * day < x) \<longrightarrow> v \<in> set (vms (db s')) \<and>
        (\<forall>p \<in> set (vm_ports (db s)). p_vm_id p = vm_id v \<longrightarrow> p \<in> set (vm_ports (db s'))) \<and>
        (\<forall>x \<in> set (https_routes (db s)). r_vm_id x = vm_id v \<longrightarrow> x \<in> set (https_routes (db s')))) \<and>
     users (db s') = users (db s) \<and> servers (db s') = servers (db s) \<and> jobs (db s') = jobs (db s)"
proof -
  from expire_pass_run[OF assms(1)] obtain s1 where s1: "spared (db s) (clk s) (db s1)" and run:
    "seq (commit e (add_warnings (warnings_due (clk s) (db s1)) (clk s1) (db s1)))
       (\<lambda>_. seq (gets db) (\<lambda>d2. commit e (clear_old (clk s) d2))) s1 = (r, s')"
    using assms(2) by metis
  obtain ns i where w: "add_warnings (warnings_due (clk s) (db s1)) (clk s1) (db s1) = (db s1)\<lparr>notifications := ns, next_id := i\<rparr>"
    using add_warnings_notes by blast
  have "wp (seq (commit e ((db s1)\<lparr>notifications := ns, next_id := i\<rparr>))
       (\<lambda>_. seq (gets db) (\<lambda>d2. commit e (clear_old (clk s) d2)))) (\<lambda>_ s'. spared (db s) (clk s) (db s'))
       (\<lambda>_ s'. spared (db s) (clk s) (db s')) s1"
    using s1 by (auto simp: wp_simps clear_old_def)
  then have sp: "spared (db s) (clk s) (db s')"
    using run unfolding w by (auto simp: wp_def)
  have not_over: "\<not> overdue (clk s) v" if "\<forall>x. vm_expires_at v = Some x \<longrightarrow> clk s - 3 * day < x" for v
    using that by (auto simp: overdue_def grace_start_def EXPIRE_GRACE_DAYS_def split: option.splits)
  have same: "w = v" if "w \<in> set (vms (db s))" "v \<in> set (vms (db s))" "vm_id w = vm_id v" for v w
    using assms(1) that by (auto simp: distinct_map inj_on_def)
  show ?thesis
    using sp not_over same unfolding spared_def by metis
qed

definition lively_db :: database where
  "lively_db = empty_database\<lparr>servers := [sample_server], users := [sample_user 7 USER],
     vms := [(sample_vm 1 (Some 7))\<lparr>vm_expires_at := Some day\<rparr>, (sample_vm 2 (Some 7))\<lparr>vm_expires_at := Some (- 4 * day)\<rparr>]\<rparr>"

lemma expire_pass_spares_witness:
  "\<exists>v \<in> set (vms (db (snd (expire_pass (sample_env refusing) (sample_state lively_db))))). vm_id v = 1"
proof -
  let ?s = "sample_state lively_db"
  have d: "distinct (map vm_id (vms (db ?s)))" by (simp add: lively_db_def sample_defs)
  have v: "(sample_vm 1 (Some 7))\<lparr>vm_expires_at := Some day\<rparr> \<in> set (vms (db ?s))" "clk ?s - 3 * day < day"
    by (simp_all add: lively_db_def sample_defs time_defs)
  obtain r s' where run: "expire_pass (sample_env refusing) ?s = (r, s')" by fastforce
  have "(sample_vm 1 (Some 7))\<lparr>vm_expires_at := Some day\<rparr> \<in> set (vms (db s'))"
    using expire_pass_spares[OF d run] v by auto
  then show ?thesis unfolding run by (intro bexI) (simp_all add: sample_vm_def)
qed

section \<open>Warnings\<close>

text \<open>A name that matches itself as a pattern: ASCII, and no backslash.\<close>

definition name_ok :: "string \<Rightarrow> bool" where
  "name_ok x \<longleftrightarrow> list_all (\<lambda>c. (of_char c :: nat) < 128 \<and> c \<noteq> CHR 0x5C) x"

lemma no_continuation: "name_ok x \<Longrightarrow> s \<noteq> [] \<Longrightarrow> \<not> continuation (hd s) \<Longrightarrow> dropWhile continuation (x @ s) = x @ s"
  by (cases x; cases s) (auto simp: name_ok_def continuation_def)

lemma like_itself:
  "name_ok x \<Longrightarrow> s \<noteq> [] \<Longrightarrow> \<not> continuation (hd s) \<Longrightarrow> sql_like q s \<Longrightarrow> sql_like (x @ q) (x @ s)"
proof (induction x)
  case (Cons c x)
  then have x: "name_ok x" "c \<noteq> CHR 0x5C" "sql_like (x @ q) (x @ s)" by (simp_all add: name_ok_def)
  have "x @ s \<in> set (suffixes (c # x @ s))" by (simp add: suffix_def)
  then show ?case using x no_continuation[OF x(1) Cons.prems(2,3)] by (auto simp: list_ex_iff)
qed simp

lemma contains_itself:
  assumes "name_ok x" and "s \<noteq> []" and "\<not> continuation (hd s)"
  shows "sql_contains (a @ x @ s) x"
proof -
  have "sql_like (x @ ''%'') (x @ s)" by (rule like_itself[OF assms sql_like_any])
  moreover have "x @ s \<in> set (suffixes (a @ x @ s))" by (simp add: suffix_def)
  ultimately show ?thesis unfolding sql_contains_def by (auto simp: list_ex_iff)
qed

lemma contains_plain:
  assumes "list_all plain_char p"
  shows "sql_contains (a @ p @ s) p"
proof -
  have "sql_like (p @ ''%'') (p @ s)" by (rule sql_like_prefix[OF assms])
  moreover have "p @ s \<in> set (suffixes (a @ p @ s))" by (simp add: suffix_def)
  ultimately show ?thesis unfolding sql_contains_def by (auto simp: list_ex_iff)
qed

lemma plain_until: "list_all plain_char txt_until"
  by (simp add: txt_until_def plain_char_def)

lemma warning_text_matches:
  assumes "vm_name w = a @ x @ b" and "name_ok x" and "name_ok b"
  shows "sql_contains (warning_text t w) x" "sql_contains (warning_text t w) txt_until"
proof -
  have q: "\<not> continuation (CHR 0x27)" by (simp add: continuation_def)
  let ?tail = "[CHR 0x27] @ '': '' @ txt_until @ show_int ((expiry w - t) div day) @ txt_left"
  have "\<not> continuation (hd (b @ ?tail))" using q assms(3) by (cases b) (auto simp: name_ok_def continuation_def)
  from contains_itself[OF assms(2) _ this, of "''VM '' @ [CHR 0x27] @ a"]
  show "sql_contains (warning_text t w) x" by (simp add: warning_text_def assms(1))
  from contains_plain[OF plain_until, of "''VM '' @ [CHR 0x27] @ vm_name w @ [CHR 0x27] @ '': ''"
      "show_int ((expiry w - t) div day) @ txt_left"]
  show "sql_contains (warning_text t w) txt_until" by (simp add: warning_text_def)
qed

lemma add_warnings_adds:
  "vms (add_warnings ws t d) = vms d \<and> set (notifications d) \<subseteq> set (notifications (add_warnings ws t d)) \<and>
   (\<forall>(i, msg) \<in> set ws. \<exists>n \<in> set (notifications (add_warnings ws t d)). n_user_id n = i \<and> n_message n = msg \<and> n_created_at n = t)"
proof (induction ws arbitrary: d)
  case (Cons w ws)
  obtain i msg where w: "w = (i, msg)" by fastforce
  let ?d = "add_notification i ''error'' msg t d"
  have step: "add_warnings (w # ws) t d = add_warnings ws t ?d" by (simp add: w add_warnings_def)
  have "\<exists>n \<in> set (notifications ?d). n_user_id n = i \<and> n_message n = msg \<and> n_created_at n = t"
    "vms ?d = vms d" "set (notifications d) \<subseteq> set (notifications ?d)"
    by (auto simp: add_notification_def)
  then show ?case using Cons[of ?d] unfolding step by (fastforce simp: w)
qed (simp add: add_warnings_def)


text \<open>
  The name is looked for anywhere in the day's notifications, so the warning about a VM whose name contains
  it counts as its own, and its owner is not told.
\<close>

lemma warning_hidden_by_longer_name:
  assumes "vm_name w = a @ vm_name v @ b" and "name_ok (vm_name v)" and "name_ok b"
    and "n \<in> set (notifications d)" and "n_user_id n = i" and "n_message n = warning_text t w" and "t - t mod day \<le> n_created_at n"

  shows "list_ex (warned_today t v i) (notifications d)"
  using warning_text_matches[OF assms(1-3), of t] assms(4-7) by (auto simp: list_ex_iff warned_today_def)


end
