(* ===== verification/AutoSnapshots.thy ===== *)
theory AutoSnapshots
  imports Expiry SnapshotMachine
begin

text \<open>
  The nightly snapshots of \<open>main.py\<close> (the automatic ones are removed at midnight and made anew a minute after
  their removal has ended), the cleanup of the OAuth stores, and the start and the end of the application.
\<close>

section \<open>Waiting for removals\<close>

text \<open>
  \<open>asyncio.gather\<close> runs the waits side by side; since each of them only polls and sleeps two seconds, they are
  modelled in lockstep: a round polls every task that is still waited for, in order, then all sleep. A wait is
  the node and the task; the deadline is the same for all, because they start together. What comes out of
  \<open>poll_snap_delete\<close> is whether the wait goes on.
\<close>

definition poll_snap_delete :: "env \<Rightarrow> int \<Rightarrow> string \<times> string \<Rightarrow> (sys, bool) prog" where
  "poll_snap_delete e deadline w =
     seq now (\<lambda>t.
     if deadline \<le> t then ret False
     else catch
       (seq (ext e (PveTaskStatus (fst w) (JStr (snd w)))) (\<lambda>task.
        seq (lift (obj_get task ''status'' JNull)) (\<lambda>st. ret (\<not> json_is st ''stopped''))))
       (\<lambda>_. ret True))"

fun poll_round :: "env \<Rightarrow> int \<Rightarrow> (string \<times> string) list \<Rightarrow> (sys, (string \<times> string) list) prog" where
  "poll_round e deadline [] = ret []"
| "poll_round e deadline (w # ws) =
     seq (poll_snap_delete e deadline w) (\<lambda>b.
     seq (poll_round e deadline ws) (\<lambda>left. ret (if b then w # left else left)))"

text \<open>The rounds, with their number as fuel: False says that the fuel has run out.\<close>

fun wait_rounds :: "env \<Rightarrow> int \<Rightarrow> nat \<Rightarrow> (string \<times> string) list \<Rightarrow> (sys, bool) prog" where
  "wait_rounds e deadline 0 ws = ret False"
| "wait_rounds e deadline (Suc fuel) ws =
     seq (poll_round e deadline ws) (\<lambda>left.
     if left = [] then ret True
     else seq (sleep (2 * second)) (\<lambda>_. wait_rounds e deadline fuel left))"

definition SNAP_DELETE_TIMEOUT :: int where "SNAP_DELETE_TIMEOUT = 120 * second"

definition WAIT_ROUNDS :: nat where "WAIT_ROUNDS = 61"

definition wait_snap_deletes :: "env \<Rightarrow> (string \<times> string) list \<Rightarrow> (sys, bool) prog" where
  "wait_snap_deletes e ws = seq now (\<lambda>t. wait_rounds e (t + SNAP_DELETE_TIMEOUT) WAIT_ROUNDS ws)"

section \<open>Removing and making the automatic snapshots\<close>

text \<open>\<open>try\<close> with a handler that only logs: None when the body raised.\<close>

definition attempt :: "('s, 'a) prog \<Rightarrow> ('s, 'a option) prog" where
  "attempt m = catch (seq m (\<lambda>x. ret (Some x))) (\<lambda>_. ret None)"

text \<open>One listed snapshot; the result is the task to wait for, if there is one.\<close>

definition remove_auto_snap :: "env \<Rightarrow> string \<Rightarrow> int \<Rightarrow> json \<Rightarrow> (sys, string list) prog" where
  "remove_auto_snap e node vmid snap =
     seq (lift (obj_get snap ''name'' (JStr []))) (\<lambda>name.
     case name of
       JStr n \<Rightarrow>
         if startswith n AUTO_SNAP_PREFIX then
           seq (ext e (PveSnapshotDelete node vmid n)) (\<lambda>upid.
           ret (case upid of JStr u \<Rightarrow> [u] | _ \<Rightarrow> []))
         else ret []
     | _ \<Rightarrow> raise AttributeError)"

text \<open>An exception ends the loop over a VM's snapshots; the tasks collected before it are kept.\<close>

fun remove_auto_snaps :: "env \<Rightarrow> string \<Rightarrow> int \<Rightarrow> json list \<Rightarrow> (sys, string list) prog" where
  "remove_auto_snaps e node vmid [] = ret []"
| "remove_auto_snaps e node vmid (snap # rest) =
     seq (attempt (remove_auto_snap e node vmid snap)) (\<lambda>r. case r of
       None \<Rightarrow> ret []
     | Some us \<Rightarrow> seq (remove_auto_snaps e node vmid rest) (\<lambda>vs. ret (us @ vs)))"

definition remove_autos_of :: "env \<Rightarrow> database \<Rightarrow> vm \<Rightarrow> (sys, (string \<times> string) list) prog" where
  "remove_autos_of e d v =
     (case find (\<lambda>r. srv_id r = vm_server_id v) (servers d) of
        None \<Rightarrow> ret []
      | Some srv \<Rightarrow>
          seq (attempt
            (seq (get_proxmox_for_server e srv) (\<lambda>_.
             seq (ext e (PveSnapshotList (srv_name srv) (vm_vmid v))) (\<lambda>j. lift (as_list j))))) (\<lambda>r.
          case r of
            None \<Rightarrow> ret []
          | Some listed \<Rightarrow>
              seq (remove_auto_snaps e (srv_name srv) (vm_vmid v) listed) (\<lambda>us.
              ret (map (Pair (srv_name srv)) us))))"

definition make_auto_snap :: "env \<Rightarrow> database \<Rightarrow> string \<Rightarrow> vm \<Rightarrow> (sys, unit) prog" where
  "make_auto_snap e d name v =
     (case find (\<lambda>r. srv_id r = vm_server_id v) (servers d) of
        None \<Rightarrow> ret ()
      | Some srv \<Rightarrow>
          catch
            (seq (get_proxmox_for_server e srv) (\<lambda>_.
             seq (ext e (PveSnapshotPost (srv_name srv) (vm_vmid v) name txt_snapshot)) (\<lambda>_. ret ())))
            (\<lambda>_. ret ()))"

text \<open>\<open>strftime("%Y%m%d")\<close>, for times counted from the midnight that begins 1970.\<close>

definition leap :: "nat \<Rightarrow> bool" where
  "leap y \<longleftrightarrow> 4 dvd y \<and> (\<not> 100 dvd y \<or> 400 dvd y)"

definition month_days :: "nat \<Rightarrow> nat list" where
  "month_days y = [31, if leap y then 29 else 28, 31, 30, 31, 30, 31, 31, 30, 31, 30, 31]"

fun month_of :: "nat list \<Rightarrow> nat \<Rightarrow> nat \<Rightarrow> nat \<times> nat" where
  "month_of [] m n = (m, n + 1)"
| "month_of (l # ls) m n = (if n < l then (m, n + 1) else month_of ls (m + 1) (n - l))"

function year_of :: "nat \<Rightarrow> nat \<Rightarrow> nat \<times> nat" where
  "year_of y n = (let l = (if leap y then 366 else 365) in if n < l then (y, n) else year_of (y + 1) (n - l))"
  by pat_completeness auto
termination by (relation "measure snd") (auto simp: Let_def split: if_splits)

definition date_text :: "int \<Rightarrow> string" where
  "date_text t =
     (let (y, n) = year_of 1970 (nat (t div day)); (m, d) = month_of (month_days y) 1 n
      in zero_pad 4 (show_nat y) @ zero_pad 2 (show_nat m) @ zero_pad 2 (show_nat d))"

definition auto_vms :: "database \<Rightarrow> vm list" where
  "auto_vms d = filter vm_auto_snapshot (vms d)"

definition SNAPSHOT_CREATE_DELAY :: int where "SNAPSHOT_CREATE_DELAY = 60 * second"

text \<open>The body after the wait for midnight. The VMs are read again before the new snapshots are made.\<close>

definition snapshot_pass :: "env \<Rightarrow> (sys, unit) prog" where
  "snapshot_pass e =
     seq (gets db) (\<lambda>d.
     seq (map_each (auto_vms d) (remove_autos_of e d)) (\<lambda>ws.
     seq (if concat ws = [] then ret True else wait_snap_deletes e (concat ws)) (\<lambda>_.
     seq (sleep SNAPSHOT_CREATE_DELAY) (\<lambda>_.
     seq now (\<lambda>t.
     seq (gets db) (\<lambda>d'.
     for_each (auto_vms d') (make_auto_snap e d' (AUTO_SNAP_PREFIX @ ''-'' @ date_text t))))))))"

definition wait_for_midnight :: "int \<Rightarrow> (sys, unit) prog" where
  "wait_for_midnight n =
     (if n = 0 then seq now (\<lambda>t. sleep (t + day - (t + day) mod day - t)) else ret ())"

definition daily_snapshot_turn :: "env \<Rightarrow> int \<Rightarrow> (sys, int) prog" where
  "daily_snapshot_turn e n =
     task_turn e ''auto-snap'' (seq (wait_for_midnight n) (\<lambda>_. snapshot_pass e)) (ret ()) n"

section \<open>The stores, the start and the end\<close>

definition oauth_store_cleanup_turn :: "(stores, unit) prog" where
  "oauth_store_cleanup_turn = seq (catch cleanup_stores (\<lambda>_. ret ())) (\<lambda>_. beside (sleep FAST_RETRY))"

datatype task = Expire_VMs | Iptables_Backup | Daily_Snapshot | Oauth_Cleanup | Expiry_Notify | Discord_Daily

text \<open>\<open>lifespan\<close>: the tasks that run after the start; nothing is started when the store mode is refused.\<close>

definition startup :: "env \<Rightarrow> (proc, task list) prog" where
  "startup e =
     seq (lift (validate_oauth_store_mode (conf e))) (\<lambda>_.
     seq (at_world (sync_servers e)) (\<lambda>_.
     seq (start_vm_creation_worker e) (\<lambda>_.
     ret [Expire_VMs, Iptables_Backup, Daily_Snapshot, Oauth_Cleanup, Expiry_Notify, Discord_Daily])))"

text \<open>The tasks left after the end. \<open>joined\<close> as in \<open>stop_vm_creation_worker\<close>.\<close>

definition shutdown :: "bool \<Rightarrow> (proc, task list) prog" where
  "shutdown joined = seq (stop_vm_creation_worker joined) (\<lambda>_. ret [])"

section \<open>The waits end\<close>

lemma poll_snap_delete_run:
  "wp (poll_snap_delete e deadline w) (\<lambda>b s'. clk s \<le> clk s' \<and> db s' = db s \<and> (deadline \<le> clk s \<longrightarrow> \<not> b)) (\<lambda>_ _. False) s"
  by (simp add: poll_snap_delete_def wp_simps)

lemma poll_round_run:
  "wp (poll_round e deadline ws) (\<lambda>left s'. clk s \<le> clk s' \<and> db s' = db s \<and> (deadline \<le> clk s \<longrightarrow> left = [])) (\<lambda>_ _. False) s"
proof (induction ws arbitrary: s)
  case (Cons w ws)
  have "wp (poll_round e deadline ws)
      (\<lambda>left s'. clk s \<le> clk s' \<and> db s' = db s \<and> (deadline \<le> clk s \<longrightarrow> (if b then w # left else left) = [])) (\<lambda>_ _. False) t"
    if "clk s \<le> clk t" "db t = db s" "deadline \<le> clk s \<longrightarrow> \<not> b" for b t
    by (rule wp_mono[OF Cons]) (use that in auto)
  then show ?case
    by (simp add: wp_seq wp_ret) (rule wp_mono[OF poll_snap_delete_run]; auto)
qed (simp add: wp_ret)

lemma wait_rounds_end:
  assumes "deadline \<le> clk s + int fuel * (2 * second)"
  shows "\<exists>s'. wait_rounds e deadline (Suc fuel) ws s = (Inr True, s') \<and> db s' = db s"
  using assms
proof (induction fuel arbitrary: s ws)
  case 0
  then show ?case
    using poll_round_run[of e deadline ws s] by (auto simp: wp_def seq_def ret_def split: prod.splits sum.splits)
next
  case (Suc fuel)
  obtain left s1 where r: "poll_round e deadline ws s = (Inr left, s1)" "clk s \<le> clk s1" "db s1 = db s"
    using poll_round_run[of e deadline ws s] by (auto simp: wp_def split: prod.splits sum.splits)
  show ?case
  proof (cases "left = []")
    case True
    then show ?thesis using r by (simp add: seq_def ret_def)
  next
    case False
    have "deadline \<le> clk (s1\<lparr>clk := clk s1 + 2 * second\<rparr>) + int fuel * (2 * second)"
      using Suc.prems r(2) by (simp add: algebra_simps)
    from Suc.IH[OF this, of left] obtain s2 where
      "wait_rounds e deadline (Suc fuel) left (s1\<lparr>clk := clk s1 + 2 * second\<rparr>) = (Inr True, s2)" "db s2 = db s1" by auto
    moreover have "wait_rounds e deadline (Suc (Suc fuel)) ws s =
        wait_rounds e deadline (Suc fuel) left (s1\<lparr>clk := clk s1 + 2 * second\<rparr>)"
      using r(1) False by (simp only: wait_rounds.simps(2)[of e deadline "Suc fuel"]) (simp add: seq_def sleep_def modify_def)
    ultimately show ?thesis using r(3) by simp
  qed
qed

text \<open>
  The nightly task never hangs on a removal: whatever Proxmox answers, or if it never answers that a task has
  stopped, the waits for all removals are over after two minutes and at most 61 rounds of polling.
\<close>

theorem wait_snap_deletes_ends: "\<exists>s'. wait_snap_deletes e ws s = (Inr True, s') \<and> db s' = db s"
  using wait_rounds_end[of "clk s + SNAP_DELETE_TIMEOUT" s 60 e ws]
  by (simp add: wait_snap_deletes_def seq_now WAIT_ROUNDS_def SNAP_DELETE_TIMEOUT_def eval_nat_numeral)

section \<open>Only automatic snapshots\<close>

text \<open>The calls of the nightly pass: automatic snapshots, of VMs that ask for them, on their own node.\<close>

definition auto_on :: "database \<Rightarrow> string \<Rightarrow> int \<Rightarrow> bool" where
  "auto_on d node vmid \<longleftrightarrow> (\<exists>v \<in> set (vms d). \<exists>srv \<in> set (servers d). vm_auto_snapshot v \<and> srv_id srv = vm_server_id v \<and>
     node = srv_name srv \<and> vmid = vm_vmid v)"

definition auto_calls :: "database \<Rightarrow> call set" where
  "auto_calls d = range PveConnect \<union> {PveSnapshotList node vmid |node vmid. True} \<union> {PveTaskStatus node j |node j. True} \<union>
     {PveSnapshotDelete node vmid n |node vmid n. startswith n AUTO_SNAP_PREFIX \<and> auto_on d node vmid} \<union>
     {PveSnapshotPost node vmid n descr |node vmid n descr. startswith n AUTO_SNAP_PREFIX \<and> auto_on d node vmid}"

lemma auto_calls_mem [simp, intro]:
  "PveConnect i \<in> auto_calls d" "PveSnapshotList node vmid \<in> auto_calls d" "PveTaskStatus node j \<in> auto_calls d"
  "auto_on d node vmid \<Longrightarrow> startswith n AUTO_SNAP_PREFIX \<Longrightarrow> PveSnapshotDelete node vmid n \<in> auto_calls d"
  "auto_on d node vmid \<Longrightarrow> startswith n AUTO_SNAP_PREFIX \<Longrightarrow> PveSnapshotPost node vmid n descr \<in> auto_calls d"
  by (auto simp: auto_calls_def)

lemma auto_calls_only:
  "PveSnapshotDelete node vmid n \<in> auto_calls d \<Longrightarrow> startswith n AUTO_SNAP_PREFIX \<and> auto_on d node vmid"
  "PveSnapshotPost node vmid n descr \<in> auto_calls d \<Longrightarrow> startswith n AUTO_SNAP_PREFIX \<and> auto_on d node vmid"
  "PveVmDelete node vmid purge \<notin> auto_calls d"
  by (auto simp: auto_calls_def)

lemma keeps_attempt [keeps_intros]: "keeps f m \<Longrightarrow> keeps f (attempt m)"
  unfolding attempt_def by (intro keeps_intros)

lemma logs_attempt [logs_intros]: "logs A m \<Longrightarrow> logs A (attempt m)"
  unfolding attempt_def by (intro logs_intros)

lemma keeps_auto_parts [keeps_intros]:
  "keeps db (remove_auto_snap e node vmid snap)" "keeps db (poll_snap_delete e deadline w)"
  "keeps db (make_auto_snap e d name v)"
  unfolding remove_auto_snap_def poll_snap_delete_def make_auto_snap_def
  by (intro keeps_intros)+

lemma keeps_remove_auto_snaps [keeps_intros]: "keeps db (remove_auto_snaps e node vmid xs)"
  by (induction xs) (auto intro!: keeps_intros)

lemma keeps_remove_autos_of [keeps_intros]: "keeps db (remove_autos_of e d v)"
  unfolding remove_autos_of_def by (intro keeps_intros)

lemma keeps_poll_round [keeps_intros]: "keeps db (poll_round e deadline ws)"
  by (induction ws) (auto intro!: keeps_intros)

lemma keeps_wait_rounds [keeps_intros]: "keeps db (wait_rounds e deadline fuel ws)"
  by (induction fuel arbitrary: ws) (auto intro!: keeps_intros)

lemma logs_remove_auto_snap:
  "auto_on d node vmid \<Longrightarrow> logs (auto_calls d) (remove_auto_snap e node vmid snap)"
  unfolding remove_auto_snap_def by (intro logs_intros) (auto split: json.splits intro!: logs_intros)

lemma logs_remove_auto_snaps:
  "auto_on d node vmid \<Longrightarrow> logs (auto_calls d) (remove_auto_snaps e node vmid xs)"
  by (induction xs) (auto intro!: logs_intros logs_remove_auto_snap)

lemma logs_remove_autos_of:
  assumes "v \<in> set (auto_vms d)"
  shows "logs (auto_calls d) (remove_autos_of e d v)"
proof (cases "find (\<lambda>r. srv_id r = vm_server_id v) (servers d)")
  case (Some srv)
  then have "auto_on d (srv_name srv) (vm_vmid v)"
    using assms find_Some_iff_mem[OF Some] by (auto simp: auto_on_def auto_vms_def)
  then show ?thesis
    unfolding remove_autos_of_def Some
    by (auto intro!: logs_intros logs_get_proxmox logs_remove_auto_snaps)
qed (auto simp: remove_autos_of_def intro!: logs_intros)

lemma logs_make_auto_snap:
  assumes "v \<in> set (auto_vms d)" and "startswith name AUTO_SNAP_PREFIX"
  shows "logs (auto_calls d) (make_auto_snap e d name v)"
proof (cases "find (\<lambda>r. srv_id r = vm_server_id v) (servers d)")
  case (Some srv)
  then have "auto_on d (srv_name srv) (vm_vmid v)"
    using assms find_Some_iff_mem[OF Some] by (auto simp: auto_on_def auto_vms_def)
  then show ?thesis
    unfolding make_auto_snap_def Some using assms(2)
    by (auto intro!: logs_intros logs_get_proxmox)
qed (auto simp: make_auto_snap_def intro!: logs_intros)

lemma logs_waits [logs_intros]: "logs (auto_calls d) (wait_rounds e deadline fuel ws)"
proof (induction fuel arbitrary: ws)
  case (Suc fuel)
  have "logs (auto_calls d) (poll_round e deadline ws)"
    unfolding poll_snap_delete_def
    by (induction ws) (auto simp: poll_snap_delete_def intro!: logs_intros)
  then show ?case using Suc by (auto intro!: logs_intros)
qed (auto intro!: logs_intros)

lemma logs_each_in: "(\<And>x. x \<in> set xs \<Longrightarrow> logs A (f x)) \<Longrightarrow> logs A (for_each xs f)"
  "(\<And>x. x \<in> set xs \<Longrightarrow> logs A (g x)) \<Longrightarrow> logs A (map_each xs g)"
  by (induction xs) (auto intro!: logs_intros)

lemma seq_assoc: "seq (seq m k) l = seq m (\<lambda>x. seq (k x) l)"
  by (rule HOL.ext) (simp add: seq_def split: prod.splits sum.splits)

text \<open>
  C32. The nightly task touches only automatic snapshots: whatever Proxmox answers, every snapshot it deletes and
  every one it makes has a name that begins with the automatic prefix and belongs to a VM whose owner has
  switched automatic snapshots on, on the node of that VM; the tables stay as they are.
\<close>

theorem snapshot_pass_only_automatic:
  assumes "snapshot_pass e s = (r, s')"
  shows "db s' = db s \<and> (\<exists>xs. calls s' = calls s @ xs \<and>
     (\<forall>node vmid n descr. PveSnapshotDelete node vmid n \<in> set xs \<or> PveSnapshotPost node vmid n descr \<in> set xs \<longrightarrow>
        startswith n ''auto-daily'' \<and> (\<exists>v \<in> set (vms (db s)). \<exists>srv \<in> set (servers (db s)).
          vm_auto_snapshot v \<and> srv_id srv = vm_server_id v \<and> node = srv_name srv \<and> vmid = vm_vmid v)) \<and>
     (\<forall>node vmid purge. PveVmDelete node vmid purge \<notin> set xs))"
proof -
  let ?A = "auto_calls (db s)"
  let ?first = "seq (map_each (auto_vms (db s)) (remove_autos_of e (db s))) (\<lambda>ws.
     seq (if concat ws = [] then ret True else wait_snap_deletes e (concat ws)) (\<lambda>_.
     seq (sleep SNAPSHOT_CREATE_DELAY) (\<lambda>_. now)))"
  let ?second = "\<lambda>t. for_each (auto_vms (db s)) (make_auto_snap e (db s) (AUTO_SNAP_PREFIX @ ''-'' @ date_text t))"
  have first: "logs ?A ?first" "keeps db ?first"
    unfolding wait_snap_deletes_def by (intro logs_intros logs_each_in logs_remove_autos_of; assumption) (intro keeps_intros)
  have second: "logs ?A (?second t)" "keeps db (?second t)" for t
    by (intro logs_each_in logs_make_auto_snap; simp add: startswith_def AUTO_SNAP_PREFIX_def) (intro keeps_intros)
  have "snapshot_pass e s = seq ?first (\<lambda>t. seq (gets db) (\<lambda>d'. for_each (auto_vms d')
      (make_auto_snap e d' (AUTO_SNAP_PREFIX @ ''-'' @ date_text t)))) s"
    by (simp add: snapshot_pass_def seq_gets seq_assoc)
  then have whole: "snapshot_pass e s = seq ?first (\<lambda>t. seq (gets db) (\<lambda>d'. for_each (auto_vms d')
      (make_auto_snap e d' (AUTO_SNAP_PREFIX @ ''-'' @ date_text t)))) s" .
  have "db s' = db s \<and> (\<exists>xs. calls s' = calls s @ xs \<and> set xs \<subseteq> ?A)"
  proof (cases "?first s")
    case (Pair r1 s1)
    have d1: "db s1 = db s" by (rule keepsD[OF first(2) Pair])
    obtain xs where xs: "calls s1 = calls s @ xs" "set xs \<subseteq> ?A" using logsD[OF first(1) Pair] by auto
    show ?thesis
    proof (cases r1)
      case (Inl a)
      then have "s' = s1" using whole Pair assms by (simp add: seq_def)
      then show ?thesis using d1 xs by blast
    next
      case (Inr t)
      then have run: "?second t s1 = (r, s')"
        using whole Pair assms d1 by (simp add: seq_run seq_gets)
      obtain ys where "calls s' = calls s1 @ ys" "set ys \<subseteq> ?A" using logsD[OF second(1) run] by auto
      then show ?thesis using xs d1 keepsD[OF second(2) run] by (intro conjI exI[of _ "xs @ ys"]) auto
    qed
  qed
  then show ?thesis
    using auto_calls_only unfolding auto_on_def AUTO_SNAP_PREFIX_def by blast
qed

definition listing_pve :: "call list \<Rightarrow> call \<Rightarrow> exn + json" where
  "listing_pve hist c = (case c of
     PveSnapshotList node vmid \<Rightarrow> Inr (JList [JObj [(''name'', JStr ''mine'')], JObj [(''name'', JStr ''auto-daily-19700101'')]])
   | PveSnapshotDelete node vmid n \<Rightarrow> Inr (JStr ''up'')
   | PveTaskStatus node j \<Rightarrow> Inr (JObj [(''status'', JStr ''stopped'')])
   | _ \<Rightarrow> Inr JNull)"

definition nightly_db :: database where
  "nightly_db = empty_database\<lparr>servers := [sample_server], vms := [(sample_vm 1 (Some 7))\<lparr>vm_auto_snapshot := True\<rparr>, sample_vm 2 None]\<rparr>"

lemma snapshot_pass_only_automatic_witness:
  "calls (snd (snapshot_pass (sample_env listing_pve) (sample_state nightly_db))) =
     [PveConnect 1, PveSnapshotList ''node1'' 101, PveSnapshotDelete ''node1'' 101 ''auto-daily-19700101'',
      PveTaskStatus ''node1'' (JStr ''up''), PveSnapshotPost ''node1'' 101 ''auto-daily-19700101'' txt_snapshot] \<and>
   PveSnapshotDelete ''node1'' 101 ''mine'' \<notin> set (calls (snd (snapshot_pass (sample_env listing_pve) (sample_state nightly_db))))"
proof -
  obtain r s' where run: "snapshot_pass (sample_env listing_pve) (sample_state nightly_db) = (r, s')" by fastforce
  have "calls (snd (snapshot_pass (sample_env listing_pve) (sample_state nightly_db))) =
     [PveConnect 1, PveSnapshotList ''node1'' 101, PveSnapshotDelete ''node1'' 101 ''auto-daily-19700101'',
      PveTaskStatus ''node1'' (JStr ''up''), PveSnapshotPost ''node1'' 101 ''auto-daily-19700101'' txt_snapshot]" by code_simp
  moreover have "calls (sample_state nightly_db) = []" by (simp add: sample_state_def)
  moreover have "\<not> startswith ''mine'' ''auto-daily''" by code_simp
  ultimately show ?thesis
    using snapshot_pass_only_automatic[OF run] run by fastforce
qed

end
