(* ===== verification/NodeStats.thy ===== *)
theory NodeStats
  imports Monitor Access Sample "HOL-Library.AList"
begin

text \<open>
  The rest of \<open>services/mon_service.py\<close> (the free memory of a server, and the server with the most of it) and
  \<open>api/routes/monitoring.py\<close>: the metrics of the nodes, cached for thirty seconds per node, and which of them
  a user sees. The lock of a node makes the look-up and the filling of its cache entry one step, so a request
  is run as a whole. Checking the reply against its response model is left to FastAPI.
\<close>

section \<open>The free memory of a server\<close>

definition free_ram :: "json \<Rightarrow> exn + int" where
  "free_ram node_status =
     andthen (obj_get node_status ''memory'' (JObj [])) (\<lambda>memory.
     andthen (obj_get memory ''total'' (JInt 0)) (\<lambda>t.
     andthen (obj_get memory ''used'' (JInt 0)) (\<lambda>u.
     andthen (as_num t) (\<lambda>total_memory.
     andthen (as_num u) (\<lambda>used_memory.
     Inr \<lfloor>(total_memory - used_memory) / (1024 * 1024)\<rfloor>)))))"

definition set_free_ram :: "int \<Rightarrow> int \<Rightarrow> database \<Rightarrow> database" where
  "set_free_ram i mb d =
     d\<lparr>servers := update_rows (\<lambda>r. srv_id r = i) (\<lambda>r. r\<lparr>srv_last_free_ram_mb := mb\<rparr>) (servers d)\<rparr>"

definition update_server_stats :: "env \<Rightarrow> server \<Rightarrow> (sys, int option) prog" where
  "update_server_stats e srv =
     catch
       (seq (get_proxmox_for_server e srv) (\<lambda>_.
        seq (ext e (PveNodeStatus (srv_name srv))) (\<lambda>node_status.
        seq (lift (free_ram node_status)) (\<lambda>mb.
        seq (gets db) (\<lambda>d.
        seq (commit e (set_free_ram (srv_id srv) mb d)) (\<lambda>_. ret (Some mb)))))))
       (\<lambda>_. seq (catch (seq (gets db) (\<lambda>d. commit e (set_free_ram (srv_id srv) 0 d))) (\<lambda>_. ret ()))
              (\<lambda>_. ret None))"

section \<open>The best server\<close>

text \<open>The names of an iterable that may hold \<open>None\<close>.\<close>

definition names_of :: "string option list \<Rightarrow> string set" where
  "names_of ns = {n. Some n \<in> set ns}"

lemma names_of_code [code]: "names_of ns = set (List.map_filter (\<lambda>x. x) ns)"
  by (force simp: names_of_def List.map_filter_def)

definition server_eligible :: "string option list option \<Rightarrow> string option list option \<Rightarrow> server \<Rightarrow> bool" where
  "server_eligible allowed excluded r \<longleftrightarrow> srv_is_active r \<and>
     (case allowed of
        None \<Rightarrow> True
      | Some ns \<Rightarrow> if names_of ns \<noteq> {} then srv_name r \<in> names_of ns else srv_id r = - 1) \<and>
     (case excluded of None \<Rightarrow> True | Some ns \<Rightarrow> srv_name r \<notin> names_of ns)"

text \<open>\<open>max(xs, key=f)\<close>: the first of the largest.\<close>

fun first_max :: "('a \<Rightarrow> int) \<Rightarrow> 'a \<Rightarrow> 'a list \<Rightarrow> 'a" where
  "first_max f best [] = best"
| "first_max f best (x # xs) = first_max f (if f best < f x then x else best) xs"

text \<open>The rows are read again after the commits, which expire the loaded objects.\<close>

definition get_best_server ::
  "env \<Rightarrow> int \<Rightarrow> string option list option \<Rightarrow> string option list option \<Rightarrow> (sys, server) prog" where
  "get_best_server e required allowed excluded =
     seq (gets db) (\<lambda>d.
     let active = filter (server_eligible allowed excluded) (servers d) in
     if active = [] then raise (Http (if allowed \<noteq> None \<or> excluded \<noteq> None then 503 else 500) ''no-server'')
     else
       seq (for_each active (\<lambda>r. seq (update_server_stats e r) (\<lambda>_. ret ()))) (\<lambda>_.
       seq (gets db) (\<lambda>d'.
       case filter (\<lambda>r. srv_id r \<in> srv_id ` set active \<and> required \<le> srv_last_free_ram_mb r) (servers d') of
         [] \<Rightarrow> raise (Http 507 ''no-ram'')
       | r # rs \<Rightarrow> ret (first_max srv_last_free_ram_mb r rs))))"

section \<open>The cached metrics\<close>

datatype node_stats =
    Online rat rat rat rat json
  | Offline

type_synonym node_identity = "string \<times> string \<times> int \<times> string"

record stats_entry =
  se_expires :: int
  se_identity :: node_identity
  se_stats :: node_stats

text \<open>The cache of the process, and what the process sees besides.\<close>

record node_monitor =
  stats_cache :: "(int \<times> stats_entry) list"
  network :: sys

definition onto :: "(sys, 'a) prog \<Rightarrow> (node_monitor, 'a) prog" where
  "onto m = (\<lambda>q. case m (network q) of (r, s') \<Rightarrow> (r, q\<lparr>network := s'\<rparr>))"

definition NODE_STATS_TTL :: int where "NODE_STATS_TTL = 30 * second"

definition identity_of :: "server \<Rightarrow> node_identity" where
  "identity_of srv = (srv_name srv, srv_ip_address srv, srv_port srv, srv_api_user srv)"

definition gib :: rat where "gib = 1024 ^ 3"

definition read_node_stats :: "json \<Rightarrow> exn + node_stats" where
  "read_node_stats node_status =
     andthen (obj_get node_status ''cpu'' (JInt 0)) (\<lambda>c.
     andthen (as_num c) (\<lambda>cpu.
     andthen (obj_get node_status ''memory'' (JObj [])) (\<lambda>memory.
     andthen (obj_get memory ''total'' (JInt 0)) (\<lambda>t.
     andthen (as_num t) (\<lambda>total_ram.
     andthen (obj_get memory ''used'' (JInt 0)) (\<lambda>u.
     andthen (as_num u) (\<lambda>used_ram.
     andthen (obj_get node_status ''uptime'' (JInt 0)) (\<lambda>uptime.
     Inr (Online (round1 (cpu * 100)) (round1 (total_ram / gib)) (round1 (used_ram / gib))
       (round1 (total_ram / gib - used_ram / gib)) uptime)))))))))"

definition ask_node :: "env \<Rightarrow> server \<Rightarrow> (sys, node_stats) prog" where
  "ask_node e srv =
     catch
       (seq (get_proxmox_for_server e srv) (\<lambda>_.
        seq (ext e (PveNodeStatus (srv_name srv))) (\<lambda>node_status. lift (read_node_stats node_status))))
       (\<lambda>_. ret Offline)"

definition stats_hit :: "int \<Rightarrow> node_identity \<Rightarrow> stats_entry option \<Rightarrow> node_stats option" where
  "stats_hit t ident cached = (case cached of
       None \<Rightarrow> None
     | Some en \<Rightarrow> if t < se_expires en \<and> se_identity en = ident then Some (se_stats en) else None)"

definition get_cached_node_stats :: "env \<Rightarrow> server \<Rightarrow> (node_monitor, node_stats) prog" where
  "get_cached_node_stats e srv =
     seq (gets stats_cache) (\<lambda>cache.
     seq (onto now) (\<lambda>t.
     case stats_hit t (identity_of srv) (map_of cache (srv_id srv)) of
       Some st \<Rightarrow> ret st
     | None \<Rightarrow>
         seq (onto (ask_node e srv)) (\<lambda>st.
         seq (onto now) (\<lambda>t'.
         seq (modify (\<lambda>q. q\<lparr>stats_cache := AList.update (srv_id srv)
                \<lparr>se_expires = t' + NODE_STATS_TTL, se_identity = identity_of srv, se_stats = st\<rparr> (stats_cache q)\<rparr>)) (\<lambda>_.
         ret st)))))"

section \<open>The metrics a user sees\<close>

definition sees_node :: "database \<Rightarrow> user \<Rightarrow> server \<Rightarrow> bool" where
  "sees_node d u srv \<longleftrightarrow> srv_is_active srv \<and>
     (u_role u = ADMIN \<or> u_role u = PROJECT_OWNER \<or>
      list_ex (\<lambda>v. vm_owner_id v = Some (u_id u) \<and> vm_server_id v = srv_id srv) (vms d))"

fun collect_stats :: "env \<Rightarrow> server list \<Rightarrow> (string \<times> node_stats) list \<Rightarrow> (node_monitor, (string \<times> node_stats) list) prog" where
  "collect_stats e [] all_stats = ret all_stats"
| "collect_stats e (srv # srvs) all_stats =
     seq (get_cached_node_stats e srv) (\<lambda>st. collect_stats e srvs (AList.update (srv_name srv) st all_stats))"

text \<open>The reply: whether it says that there is no active server, and the metrics by node name.\<close>

definition get_system_stats :: "env \<Rightarrow> user \<Rightarrow> (node_monitor, bool \<times> (string \<times> node_stats) list) prog" where
  "get_system_stats e u =
     seq (gets (\<lambda>q. db (network q))) (\<lambda>d.
     let srvs = filter (sees_node d u) (servers d) in
     if srvs = [] then ret (True, [])
     else seq (collect_stats e srvs []) (\<lambda>st. ret (False, st)))"

section \<open>The choice of the best server\<close>

text \<open>Only the column with the free memory has changed.\<close>

definition only_ram :: "database \<Rightarrow> database \<Rightarrow> bool" where
  "only_ram d d' \<longleftrightarrow> (\<exists>f. d' = d\<lparr>servers := map (\<lambda>r. r\<lparr>srv_last_free_ram_mb := f r\<rparr>) (servers d)\<rparr>)"

lemma only_ram_refl: "only_ram d d"
  unfolding only_ram_def by (rule exI[of _ srv_last_free_ram_mb]) simp

lemma only_ram_set: 
  assumes "only_ram d0 d"
  shows "only_ram d0 (set_free_ram i mb d)"
proof -
  from assms obtain f where d: "d = d0\<lparr>servers := map (\<lambda>r. r\<lparr>srv_last_free_ram_mb := f r\<rparr>) (servers d0)\<rparr>"
    by (auto simp: only_ram_def)
  show ?thesis
    unfolding only_ram_def set_free_ram_def d update_rows_def
    by (rule exI[of _ "\<lambda>r. if srv_id r = i then mb else f r"]) simp
qed

lemma update_server_stats_run:
  assumes "only_ram d0 (db s)"
  shows "wp (update_server_stats e srv) (\<lambda>_ s'. only_ram d0 (db s')) (\<lambda>_ _. False) s"
proof -
  have prox: "wp (get_proxmox_for_server e srv) (\<lambda>_ s'. only_ram d0 (db s')) (\<lambda>_ s'. only_ram d0 (db s')) s"
    using keepsD[OF keeps_get_proxmox] assms by (intro wp_runI) metis+
  have zero: "wp (catch (seq (gets db) (\<lambda>d. commit e (set_free_ram (srv_id srv) 0 d))) (\<lambda>_. ret ()))
      (\<lambda>_ s'. only_ram d0 (db s')) (\<lambda>_ _. False) t" if "only_ram d0 (db t)" for t
    using that only_ram_set by (simp add: wp_simps)
  show ?thesis
    unfolding update_server_stats_def wp_catch wp_seq
    by (rule wp_mono[OF prox]) (use zero only_ram_set in \<open>auto simp: wp_simps\<close>)
qed

lemma seq_gets_run: "seq (gets f) k s = k (f s) s"
  by (simp add: seq_def gets_def)

lemma only_ram_eligible:
  "server_eligible allowed excluded (r\<lparr>srv_last_free_ram_mb := x\<rparr>) = server_eligible allowed excluded r"
  by (simp add: server_eligible_def split: option.split)

lemma first_max_best: "first_max f b xs \<in> set (b # xs) \<and> (\<forall>x \<in> set (b # xs). f x \<le> f (first_max f b xs))"
  by (induction xs arbitrary: b) force+

text \<open>The rows the loop has loaded, as they are afterwards, are the eligible ones.\<close>

lemma refreshed_eligible:
  assumes "only_ram d d'" and "distinct (map srv_id (servers d))"
  shows "filter (\<lambda>r. srv_id r \<in> srv_id ` set (filter (server_eligible allowed excluded) (servers d)) \<and> p r) (servers d') =
     filter (\<lambda>r. server_eligible allowed excluded r \<and> p r) (servers d')"
proof (rule filter_cong[OF refl])
  fix r assume "r \<in> set (servers d')"
  then obtain r0 x where r0: "r0 \<in> set (servers d)" "r = r0\<lparr>srv_last_free_ram_mb := x\<rparr>"
    using assms(1) by (auto simp: only_ram_def)
  have "srv_id r \<in> srv_id ` set (filter (server_eligible allowed excluded) (servers d)) \<longleftrightarrow> server_eligible allowed excluded r0"
    using r0 assms(2) by (auto simp: distinct_map inj_on_def)
  then show "(srv_id r \<in> srv_id ` set (filter (server_eligible allowed excluded) (servers d)) \<and> p r) =
      (server_eligible allowed excluded r \<and> p r)"
    using r0(2) by (simp add: only_ram_eligible)
qed

text \<open>
  The server with the most free memory is chosen: a server that is returned is active, allowed and not
  excluded, has the memory asked for, and no eligible server has more; an error says that no server is eligible
  (503 under restrictions, 500 without), or that all eligible ones have too little (507). Nothing but the column
  with the free memory is written, whatever Proxmox answers.
\<close>

theorem best_server_is_best:
  assumes "distinct (map srv_id (servers (db s)))"
  shows "\<exists>r s'. get_best_server e required allowed excluded s = (r, s') \<and> only_ram (db s) (db s') \<and>
     (let eligible = filter (server_eligible allowed excluded) (servers (db s')) in
      case r of
        Inr srv \<Rightarrow> srv \<in> set eligible \<and> required \<le> srv_last_free_ram_mb srv \<and>
          list_all (\<lambda>x. srv_last_free_ram_mb x \<le> srv_last_free_ram_mb srv) eligible
      | Inl x \<Rightarrow> if eligible = [] then x = Http (if allowed = None \<and> excluded = None then 500 else 503) ''no-server''
          else x = Http 507 ''no-ram'' \<and> list_all (\<lambda>x. srv_last_free_ram_mb x < required) eligible)"
proof -
  let ?el = "server_eligible allowed excluded"
  let ?active = "filter ?el (servers (db s))"
  have none: "filter ?el (servers d') = [] \<longleftrightarrow> ?active = []" if "only_ram (db s) d'" for d'
    using that by (auto simp: only_ram_def filter_empty_conv only_ram_eligible)
  have loop: "wp (for_each ?active (\<lambda>r. seq (update_server_stats e r) (\<lambda>_. ret ())))
      (\<lambda>_ s'. only_ram (db s) (db s')) (\<lambda>_ _. False) s"
    by (rule wp_for_each[where I = "\<lambda>t. only_ram (db s) (db t)" and s = s, OF only_ram_refl])
      (simp add: wp_simps update_server_stats_run)
  show ?thesis
  proof (cases "?active = []")
    case True
    then show ?thesis
      using only_ram_refl by (auto simp: get_best_server_def seq_gets_run raise_def Let_def)
  next
    case False
    from loop obtain s1 where s1: "for_each ?active (\<lambda>r. seq (update_server_stats e r) (\<lambda>_. ret ())) s = (Inr (), s1)"
      "only_ram (db s) (db s1)" by (auto simp: wp_def split: prod.splits sum.splits)
    let ?fit = "filter (\<lambda>r. ?el r \<and> required \<le> srv_last_free_ram_mb r) (servers (db s1))"
    have run: "get_best_server e required allowed excluded s =
        (case ?fit of [] \<Rightarrow> raise (Http 507 ''no-ram'') | r # rs \<Rightarrow> ret (first_max srv_last_free_ram_mb r rs)) s1"
      using False s1(1) refreshed_eligible[OF s1(2) assms, of allowed excluded "\<lambda>r. required \<le> srv_last_free_ram_mb r"]
      by (simp add: get_best_server_def seq_gets_run Let_def seq_def[of "for_each _ _"])
    show ?thesis
    proof (cases ?fit)
      case Nil
      then show ?thesis
        using run s1(2) none[OF s1(2)] False by (auto simp: raise_def Let_def filter_empty_conv list_all_iff not_le)
    next
      case (Cons b rs)
      let ?m = "first_max srv_last_free_ram_mb b rs"
      have m: "?m \<in> set ?fit" "\<And>x. x \<in> set ?fit \<Longrightarrow> srv_last_free_ram_mb x \<le> srv_last_free_ram_mb ?m"
        using first_max_best[of srv_last_free_ram_mb b rs] unfolding Cons by blast+
      have best: "?m \<in> set (servers (db s1))" "?el ?m" "required \<le> srv_last_free_ram_mb ?m"
        using m(1) by simp_all
      have "srv_last_free_ram_mb x \<le> srv_last_free_ram_mb ?m" if "x \<in> set (servers (db s1))" "?el x" for x
        using m that by (cases "required \<le> srv_last_free_ram_mb x") fastforce+
      then show ?thesis
        using run s1(2) best unfolding Cons by (simp add: ret_def Let_def list_all_iff)
    qed
  qed
qed

text \<open>A server that answers, one that is not allowed.\<close>

definition ram_pve :: "call list \<Rightarrow> call \<Rightarrow> exn + json" where
  "ram_pve hist c = (case c of
     PveNodeStatus node \<Rightarrow> Inr (JObj [(''cpu'', JFloat (1/4)),
       (''memory'', JObj [(''total'', JInt (64 * 1024 ^ 3)), (''used'', JInt (16 * 1024 ^ 3))]), (''uptime'', JInt 60)])
   | _ \<Rightarrow> Inr JNull)"

definition ram_db :: database where
  "ram_db = empty_database\<lparr>servers := [sample_server, sample_server\<lparr>srv_id := 2, srv_name := ''node2''\<rparr>]\<rparr>"

lemma best_server_is_best_witness:
  "\<exists>srv s'. get_best_server (sample_env ram_pve) 1024 (Some [Some ''node2'', None]) None (sample_state ram_db) = (Inr srv, s') \<and>
     srv_name srv = ''node2'' \<and> 1024 \<le> srv_last_free_ram_mb srv"
proof -
  have dist: "distinct (map srv_id (servers (db (sample_state ram_db))))" by (simp add: ram_db_def sample_defs)
  have "case fst (get_best_server (sample_env ram_pve) 1024 (Some [Some ''node2'', None]) None (sample_state ram_db)) of
      Inl _ \<Rightarrow> False | Inr srv \<Rightarrow> srv_name srv = ''node2''" by code_simp
  then show ?thesis
    using best_server_is_best[OF dist, of "sample_env ram_pve" 1024 "Some [Some ''node2'', None]" None]
    by (fastforce simp: Let_def split: sum.splits)
qed

section \<open>The metrics are cached, and shown to those who may see them\<close>

lemma ask_node_total: "\<exists>st s'. ask_node e srv s = (Inr st, s') \<and> db s' = db s \<and>
    (\<exists>c xs. calls s' = calls s @ c # xs \<and> set (c # xs) \<subseteq> {PveConnect (srv_id srv), PveNodeStatus (srv_name srv)})"
proof -
  have "wp (ask_node e srv) (\<lambda>_ s'. db s' = db s \<and>
      (\<exists>c xs. calls s' = calls s @ c # xs \<and> set (c # xs) \<subseteq> {PveConnect (srv_id srv), PveNodeStatus (srv_name srv)}))
    (\<lambda>_ _. False) s"
    unfolding ask_node_def get_proxmox_for_server_def
    by (auto simp: wp_simps)
  then show ?thesis by (auto simp: wp_def split: prod.splits sum.splits)
qed

lemma onto_run: "m (network q) = (r, s') \<Longrightarrow> onto m q = (r, q\<lparr>network := s'\<rparr>)"
  by (simp add: onto_def)

lemma monitor_code [code]: "onto m q = (case m (network q) of (r, s') \<Rightarrow> (r, q\<lparr>network := s'\<rparr>))"
  by (simp add: onto_def)

definition answer_cached :: "node_monitor \<Rightarrow> server \<Rightarrow> node_stats option" where
  "answer_cached q srv = stats_hit (clk (network q)) (identity_of srv) (map_of (stats_cache q) (srv_id srv))"

lemma cached_run:
  "get_cached_node_stats e srv q =
     (case answer_cached q srv of
        Some st \<Rightarrow> (Inr st, q)
      | None \<Rightarrow> (case ask_node e srv (network q) of
          (Inl x, s') \<Rightarrow> (Inl x, q\<lparr>network := s'\<rparr>)
        | (Inr st, s') \<Rightarrow> (Inr st, q\<lparr>network := s', stats_cache := AList.update (srv_id srv)
            \<lparr>se_expires = clk s' + NODE_STATS_TTL, se_identity = identity_of srv, se_stats = st\<rparr> (stats_cache q)\<rparr>)))"
  by (auto simp: get_cached_node_stats_def answer_cached_def seq_def gets_def onto_def now_def modify_def ret_def
      split: option.split prod.split sum.split)

text \<open>
  The metrics of a node are asked for at most once in thirty seconds and are never older than that. A request
  always gets metrics, or the word that the node is offline: if the cache holds unexpired ones of this very
  connection it gets those, nobody is asked and nothing changes; otherwise the node is asked, and its answer is
  what the cache gives out to everybody from then on for thirty seconds and not a moment longer. Entries of other
  nodes and the tables stay.
\<close>

theorem node_stats_cached:
  "\<exists>st q'. get_cached_node_stats e srv q = (Inr st, q') \<and> db (network q') = db (network q) \<and>
     (case answer_cached q srv of
        Some st0 \<Rightarrow> st = st0 \<and> q' = q
      | None \<Rightarrow> calls (network q') \<noteq> calls (network q) \<and>
          (\<forall>s. answer_cached (q'\<lparr>network := s\<rparr>) srv = (if clk s < clk (network q') + 30 * second then Some st else None))) \<and>
     (\<forall>i. i = srv_id srv \<or> map_of (stats_cache q') i = map_of (stats_cache q) i)"
proof (cases "answer_cached q srv")
  case None
  from ask_node_total[of e srv "network q"] obtain st s' where
    "ask_node e srv (network q) = (Inr st, s')" "db s' = db (network q)" "calls s' \<noteq> calls (network q)" by force
  then show ?thesis
    using None by (auto simp: cached_run answer_cached_def[of "_\<lparr>network := _\<rparr>"] stats_hit_def update_conv' NODE_STATS_TTL_def)
qed (simp add: cached_run)

definition ram_monitor :: node_monitor where
  "ram_monitor = \<lparr>stats_cache = [], network = sample_state ram_db\<rparr>"

text \<open>The node is asked once; the second request, by another user a little later, is answered from the cache.\<close>

lemma node_stats_cached_example:
  "let (r, q) = get_cached_node_stats (sample_env ram_pve) sample_server ram_monitor
   in r = Inr (Online 25 64 16 48 (JInt 60)) \<and>
      get_cached_node_stats (sample_env refusing) sample_server q = (r, q) \<and>
      fst (get_cached_node_stats (sample_env refusing) sample_server
        (q\<lparr>network := (network q)\<lparr>clk := 30 * second\<rparr>\<rparr>)) = Inr Offline"
  by code_simp

text \<open>The cache entries a list of look-ups leaves.\<close>

lemma collect_stats_run:
  assumes "distinct (map srv_id srvs)" and "distinct (map srv_name srvs)"
  shows "\<exists>st q'. collect_stats e srvs acc q = (Inr st, q') \<and> db (network q') = db (network q) \<and>
     (\<forall>i. i \<in> srv_id ` set srvs \<or> map_of (stats_cache q') i = map_of (stats_cache q) i) \<and>
     (\<forall>n. n \<in> srv_name ` set srvs \<or> map_of st n = map_of acc n) \<and>
     (\<forall>r \<in> set srvs. \<exists>en. map_of (stats_cache q') (srv_id r) = Some en \<and> se_identity en = identity_of r \<and>
        map_of st (srv_name r) = Some (se_stats en))"
  using assms
proof (induction srvs arbitrary: acc q)
  case (Cons r srvs)
  have one: "\<exists>st q1. get_cached_node_stats e r q = (Inr st, q1) \<and> db (network q1) = db (network q) \<and>
      (\<forall>i. i = srv_id r \<or> map_of (stats_cache q1) i = map_of (stats_cache q) i) \<and>
      (\<exists>en. map_of (stats_cache q1) (srv_id r) = Some en \<and> se_identity en = identity_of r \<and> se_stats en = st)"
  proof (cases "answer_cached q r")
    case None
    from ask_node_total[of e r "network q"] obtain st s' where
      "ask_node e r (network q) = (Inr st, s')" "db s' = db (network q)" by blast
    then show ?thesis using None by (auto simp: cached_run update_conv')
  next
    case (Some st)
    then show ?thesis
      by (auto simp: cached_run answer_cached_def stats_hit_def split: option.splits if_splits)
  qed
  then obtain st1 q1 en1 where q1: "get_cached_node_stats e r q = (Inr st1, q1)" "db (network q1) = db (network q)"
    "\<And>i. i \<noteq> srv_id r \<Longrightarrow> map_of (stats_cache q1) i = map_of (stats_cache q) i"
    "map_of (stats_cache q1) (srv_id r) = Some en1" "se_identity en1 = identity_of r" "se_stats en1 = st1" by metis
  have "distinct (map srv_id srvs)" "distinct (map srv_name srvs)" using Cons.prems by simp_all
  from Cons.IH[OF this, of "AList.update (srv_name r) st1 acc" q1] obtain st q' where
    q': "collect_stats e srvs (AList.update (srv_name r) st1 acc) q1 = (Inr st, q')" "db (network q') = db (network q1)"
      "\<And>i. i \<notin> srv_id ` set srvs \<Longrightarrow> map_of (stats_cache q') i = map_of (stats_cache q1) i"
      "\<And>n. n \<notin> srv_name ` set srvs \<Longrightarrow> map_of st n = map_of (AList.update (srv_name r) st1 acc) n"
      "\<And>x. x \<in> set srvs \<Longrightarrow> \<exists>en. map_of (stats_cache q') (srv_id x) = Some en \<and> se_identity en = identity_of x \<and>
         map_of st (srv_name x) = Some (se_stats en)" by metis
  have "map_of (stats_cache q') (srv_id r) = Some en1" "map_of st (srv_name r) = Some st1"
    using q'(3)[of "srv_id r"] q'(4)[of "srv_name r"] q1(4) Cons.prems by (auto simp: update_conv')
  moreover have "collect_stats e (r # srvs) acc q = (Inr st, q')" using q'(1) q1(1) by (simp add: seq_def)
  moreover have "map_of (stats_cache q') i = map_of (stats_cache q) i" if "i \<notin> srv_id ` set (r # srvs)" for i
    using q'(3)[of i] q1(3)[of i] that by simp
  moreover have "map_of st n = map_of acc n" if "n \<notin> srv_name ` set (r # srvs)" for n
    using q'(4)[of n] that by (simp add: update_conv')
  ultimately show ?case
    using q'(2,5) q1(2,5,6) by (intro exI[of _ st] exI[of _ q']) fastforce
qed (simp add: ret_def)

text \<open>
  C34. A user sees the metrics of exactly the nodes that concern him. The request never fails; its reply names every
  active node for an administrator or a project owner, for other users the active nodes that hold a VM of theirs,
  and no other; each entry is what the cache then holds for that node under its present address and account, so
  the reply for one user never depends on who asked before; entries of nodes he does not see are not touched.
\<close>

theorem system_stats_visible:
  assumes "distinct (map srv_id (servers (db (network q))))" and "distinct (map srv_name (servers (db (network q))))"
  shows "\<exists>b st q'. get_system_stats e u q = (Inr (b, st), q') \<and> db (network q') = db (network q) \<and>
     b = (st = []) \<and>
     dom (map_of st) = {srv_name r |r. r \<in> set (servers (db (network q))) \<and> srv_is_active r \<and>
        (u_role u \<in> {ADMIN, PROJECT_OWNER} \<or>
         (\<exists>v \<in> set (vms (db (network q))). vm_owner_id v = Some (u_id u) \<and> vm_server_id v = srv_id r))} \<and>
     (\<forall>r \<in> set (servers (db (network q))).
        if sees_node (db (network q)) u r
        then \<exists>en. map_of (stats_cache q') (srv_id r) = Some en \<and> se_identity en = identity_of r \<and>
               map_of st (srv_name r) = Some (se_stats en)
        else map_of (stats_cache q') (srv_id r) = map_of (stats_cache q) (srv_id r))"
proof -
  let ?d = "db (network q)"
  let ?srvs = "filter (sees_node ?d u) (servers ?d)"
  have names: "{srv_name r |r. r \<in> set (servers ?d) \<and> srv_is_active r \<and> (u_role u \<in> {ADMIN, PROJECT_OWNER} \<or>
      (\<exists>v \<in> set (vms ?d). vm_owner_id v = Some (u_id u) \<and> vm_server_id v = srv_id r))} = srv_name ` set ?srvs"
    by (auto simp: sees_node_def list_ex_iff image_iff)
  have dist: "distinct (map srv_id ?srvs)" "distinct (map srv_name ?srvs)"
    using assms by (simp_all add: distinct_map_filter)
  obtain st q' where run: "collect_stats e ?srvs [] q = (Inr st, q')" "db (network q') = ?d"
    "\<And>i. i \<in> srv_id ` set ?srvs \<or> map_of (stats_cache q') i = map_of (stats_cache q) i"
    "\<And>n. n \<in> srv_name ` set ?srvs \<or> map_of st n = None"
    "\<And>r. r \<in> set ?srvs \<Longrightarrow> \<exists>en. map_of (stats_cache q') (srv_id r) = Some en \<and> se_identity en = identity_of r \<and>
       map_of st (srv_name r) = Some (se_stats en)"
    using collect_stats_run[OF dist, of e "[]" q] by (auto simp del: set_filter)
  have dom: "dom (map_of st) = srv_name ` set ?srvs"
  proof (intro set_eqI iffI)
    fix n assume "n \<in> srv_name ` set ?srvs"
    then obtain r where "r \<in> set ?srvs" "n = srv_name r" by blast
    then show "n \<in> dom (map_of st)" using run(5)[of r] by auto
  qed (metis run(4) domIff)
  have unseen: "srv_id r \<notin> srv_id ` set ?srvs" if "r \<in> set (servers ?d)" "\<not> sees_node ?d u r" for r
    using assms(1) that by (auto simp: distinct_map inj_on_def)
  have each: "\<forall>r \<in> set (servers ?d). if sees_node ?d u r
      then \<exists>en. map_of (stats_cache q') (srv_id r) = Some en \<and> se_identity en = identity_of r \<and>
             map_of st (srv_name r) = Some (se_stats en)
      else map_of (stats_cache q') (srv_id r) = map_of (stats_cache q) (srv_id r)"
    using run(5) run(3) unseen by auto
  show ?thesis
  proof (cases "?srvs = []")
    case True
    then have "get_system_stats e u q = (Inr (True, []), q)"
      by (simp add: get_system_stats_def seq_gets_run Let_def ret_def)
    moreover have "q' = q" "st = []" using run(1) True by (simp_all add: ret_def)
    ultimately show ?thesis unfolding names using each dom by (intro exI[of _ True] exI[of _ "[]"] exI[of _ q]) simp
  next
    case False
    then have "get_system_stats e u q = (Inr (False, st), q')"
      using run(1) by (simp add: get_system_stats_def seq_gets_run Let_def ret_def seq_def[of "collect_stats _ _ _"])
    moreover have "st \<noteq> []" using dom False by (auto simp del: set_filter)
    ultimately show ?thesis unfolding names using each dom run(2) by (intro exI[of _ False] exI[of _ st] exI[of _ q']) simp
  qed
qed

text \<open>A user with a VM on the second node only.\<close>

lemma system_stats_visible_witness:
  "\<exists>b st q'. get_system_stats (sample_env ram_pve) (sample_user 7 USER)
      (ram_monitor\<lparr>network := sample_state (ram_db\<lparr>vms := [(sample_vm 1 (Some 7))\<lparr>vm_server_id := 2\<rparr>]\<rparr>)\<rparr>) = (Inr (b, st), q') \<and>
     dom (map_of st) = {''node2''}"
proof -
  let ?q = "ram_monitor\<lparr>network := sample_state (ram_db\<lparr>vms := [(sample_vm 1 (Some 7))\<lparr>vm_server_id := 2\<rparr>]\<rparr>)\<rparr>"
  have dist: "distinct (map srv_id (servers (db (network ?q))))" "distinct (map srv_name (servers (db (network ?q))))"
    by (simp_all add: ram_db_def sample_defs)
  have "{srv_name r |r. r \<in> set (servers (db (network ?q))) \<and> srv_is_active r \<and>
      (u_role (sample_user 7 USER) \<in> {ADMIN, PROJECT_OWNER} \<or>
       (\<exists>v \<in> set (vms (db (network ?q))). vm_owner_id v = Some (u_id (sample_user 7 USER)) \<and> vm_server_id v = srv_id r))} =
     {''node2''}"
    by (auto simp: ram_db_def sample_defs intro!: exI[of _ "sample_server\<lparr>srv_id := 2, srv_name := ''node2''\<rparr>"])
  then show ?thesis using system_stats_visible[OF dist, of "sample_env ram_pve" "sample_user 7 USER"] by metis
qed

end
