(* ===== verification/Inbox.thy ===== *)
theory Inbox
  imports Access Schemas
begin

text \<open>
  \<open>api/routes/notifications.py\<close> and \<open>api/routes/faq.py\<close>: what a user does with the notifications he has
  received, and the questions users ask and administrators answer. Times are numbers; the order the database
  gives to rows of the same time is taken to be that of the table.
\<close>

section \<open>Notifications\<close>

definition newest_first :: "('r \<Rightarrow> int) \<Rightarrow> 'r list \<Rightarrow> 'r list" where
  "newest_first key rows = sort_key (\<lambda>r. - key r) rows"

record notification_view =
  nv_id :: int
  nv_type :: string
  nv_message :: string
  nv_is_read :: bool
  nv_created_at :: int

definition view_notification :: "notification \<Rightarrow> notification_view" where
  "view_notification n = \<lparr>nv_id = n_id n, nv_type = n_type n, nv_message = n_message n, nv_is_read = n_is_read n,
     nv_created_at = n_created_at n\<rparr>"

definition get_notifications :: "user \<Rightarrow> (sys, notification_view list) prog" where
  "get_notifications u =
     seq (gets db) (\<lambda>d.
     ret (map view_notification
       (take 50 (newest_first n_created_at (filter (\<lambda>n. n_user_id n = u_id u) (notifications d))))))"

definition own_notification :: "user \<Rightarrow> int \<Rightarrow> database \<Rightarrow> notification option" where
  "own_notification u i d = find (\<lambda>n. n_id n = i \<and> n_user_id n = u_id u) (notifications d)"

definition read_row :: "notification \<Rightarrow> notification" where
  "read_row n = n\<lparr>n_is_read := True\<rparr>"

definition mark_as_read :: "env \<Rightarrow> user \<Rightarrow> int \<Rightarrow> (sys, unit) prog" where
  "mark_as_read e u notification_id =
     seq (gets db) (\<lambda>d.
     case own_notification u notification_id d of
       None \<Rightarrow> raise (Http 404 ''no-notification'')
     | Some n \<Rightarrow> commit e (d\<lparr>notifications := update_rows (\<lambda>x. n_id x = n_id n) read_row (notifications d)\<rparr>))"

definition mark_all_as_read :: "env \<Rightarrow> user \<Rightarrow> (sys, unit) prog" where
  "mark_all_as_read e u =
     seq (gets db) (\<lambda>d.
     commit e (d\<lparr>notifications := update_rows (\<lambda>x. n_user_id x = u_id u \<and> \<not> n_is_read x) read_row (notifications d)\<rparr>))"

definition delete_notification :: "env \<Rightarrow> user \<Rightarrow> int \<Rightarrow> (sys, unit) prog" where
  "delete_notification e u notification_id =
     seq (gets db) (\<lambda>d.
     case own_notification u notification_id d of
       None \<Rightarrow> raise (Http 404 ''no-notification'')
     | Some n \<Rightarrow> commit e (d\<lparr>notifications := delete_rows (\<lambda>x. n_id x = n_id n) (notifications d)\<rparr>))"

section \<open>Questions\<close>

definition question_not_empty :: "string \<Rightarrow> exn + string" where
  "question_not_empty v0 =
     (let v = py_strip v0 in
      if v = [] then Inl (ValueError ''no-question'')
      else if 500 < cp_len v then Inl (ValueError ''long-question'')
      else Inr v)"

definition answer_not_empty :: "string \<Rightarrow> exn + string" where
  "answer_not_empty v0 = (let v = py_strip v0 in if v = [] then Inl (ValueError ''no-answer'') else Inr v)"

record faq_response =
  fr_id :: int
  fr_user_email :: string
  fr_question :: string
  fr_answer :: "string option"
  fr_answered_at :: "int option"
  fr_created_at :: int

definition faq_view :: "database \<Rightarrow> faq_question \<Rightarrow> faq_response" where
  "faq_view d q = \<lparr>fr_id = f_id q,
     fr_user_email = (case find (\<lambda>u. u_id u = f_user_id q) (users d) of None \<Rightarrow> [] | Some u \<Rightarrow> u_email u),
     fr_question = f_question q, fr_answer = f_answer q, fr_answered_at = f_answered_at q, fr_created_at = f_created_at q\<rparr>"

definition get_faq_questions :: "user \<Rightarrow> (sys, faq_response list) prog" where
  "get_faq_questions u =
     seq (gets db) (\<lambda>d.
     ret (map (faq_view d) (newest_first f_created_at
       (if u_role u = ADMIN then faqs d else filter (\<lambda>q. f_user_id q = u_id u) (faqs d)))))"

text \<open>The body has passed its validator when the endpoint runs; a refused body is a 422.\<close>

definition create_faq_question :: "env \<Rightarrow> user \<Rightarrow> string \<Rightarrow> (sys, faq_response) prog" where
  "create_faq_question e u body =
     seq (lift (question_not_empty body)) (\<lambda>question.
     seq now (\<lambda>t.
     seq (gets db) (\<lambda>d.
     let q = \<lparr>f_id = next_id d, f_user_id = u_id u, f_question = question, f_answer = None, f_answered_at = None,
              f_created_at = t\<rparr> in
     seq (commit e (add_faq q d)) (\<lambda>_.
     ret \<lparr>fr_id = f_id q, fr_user_email = u_email u, fr_question = f_question q, fr_answer = None,
          fr_answered_at = None, fr_created_at = f_created_at q\<rparr>))))"

definition set_answer :: "int \<Rightarrow> string \<Rightarrow> int \<Rightarrow> database \<Rightarrow> database" where
  "set_answer i txt t d =
     d\<lparr>faqs := update_rows (\<lambda>q. f_id q = i) (\<lambda>q. q\<lparr>f_answer := Some txt, f_answered_at := Some t\<rparr>) (faqs d)\<rparr>"

definition answer_faq_question :: "env \<Rightarrow> user \<Rightarrow> int \<Rightarrow> string \<Rightarrow> (sys, faq_response) prog" where
  "answer_faq_question e u question_id body =
     seq (lift (get_current_active_admin u)) (\<lambda>admin.
     seq (lift (answer_not_empty body)) (\<lambda>txt.
     seq (gets db) (\<lambda>d.
     case find (\<lambda>q. f_id q = question_id) (faqs d) of
       None \<Rightarrow> raise (Http 404 ''no-question'')
     | Some q \<Rightarrow>
         seq now (\<lambda>t.
         seq (commit e (set_answer (f_id q) txt t d)) (\<lambda>_.
         ret (faq_view d (q\<lparr>f_answer := Some txt, f_answered_at := Some t\<rparr>)))))))"

definition delete_faq_question :: "env \<Rightarrow> user \<Rightarrow> int \<Rightarrow> (sys, unit) prog" where
  "delete_faq_question e u question_id =
     seq (gets db) (\<lambda>d.
     case find (\<lambda>q. f_id q = question_id) (faqs d) of
       None \<Rightarrow> raise (Http 404 ''no-question'')
     | Some q \<Rightarrow>
         if u_role u \<noteq> ADMIN \<and> f_user_id q \<noteq> u_id u then raise (Http 403 ''forbidden'')
         else commit e (d\<lparr>faqs := delete_rows (\<lambda>x. f_id x = f_id q) (faqs d)\<rparr>))"

section \<open>Only one's own notifications\<close>

interpretation inbox_guard: owner_guard own_notification notifications "\<lambda>i d n. n_id n = i" "\<lambda>n. Some (n_user_id n)" "\<lambda>_. False"
  by unfold_locales (auto simp: own_notification_def find_None_all dest!: find_Some_iff_mem)

lemma others_update:
  assumes "\<And>x. x \<in> set rows \<Longrightarrow> p x \<Longrightarrow> \<not> q x" and "\<And>x. q (f x) = q x"
  shows "filter q (update_rows p f rows) = filter q rows"
  using assms(1) by (induction rows) (auto simp: update_rows_def assms(2))

lemma others_delete:
  "(\<And>x. x \<in> set rows \<Longrightarrow> p x \<Longrightarrow> \<not> q x) \<Longrightarrow> filter q (delete_rows p rows) = filter q rows"
  by (auto simp: delete_rows_def intro!: filter_cong)

text \<open>
  A user can do nothing to the notifications of others: whatever number he sends, and whether the request
  succeeds or is refused, marking one as read, marking all and deleting one leave every notification of every
  other user as it is, in its place, and touch no other table; on his own they set the mark or delete, and
  nothing else.
\<close>

theorem inbox_only_own:
  assumes "distinct (map n_id (notifications (db s)))"
    and "request \<in> {mark_as_read e u i, mark_all_as_read e u, delete_notification e u i}" and "request s = (r, s')"
  shows "filter (\<lambda>n. n_user_id n \<noteq> u_id u) (notifications (db s')) = filter (\<lambda>n. n_user_id n \<noteq> u_id u) (notifications (db s)) \<and>
     db s' = (db s)\<lparr>notifications := notifications (db s')\<rparr> \<and>
     (\<forall>n \<in> set (notifications (db s')). \<exists>n0 \<in> set (notifications (db s)). n = n0 \<or> n = n0\<lparr>n_is_read := True\<rparr>)"
proof -
  let ?others = "\<lambda>n. n_user_id n \<noteq> u_id u"
  let ?ok = "\<lambda>d. filter ?others (notifications d) = filter ?others (notifications (db s)) \<and>
     d = (db s)\<lparr>notifications := notifications d\<rparr> \<and>
     (\<forall>n \<in> set (notifications d). \<exists>n0 \<in> set (notifications (db s)). n = n0 \<or> n = n0\<lparr>n_is_read := True\<rparr>)"
  have own: "\<not> ?others x" if "own_notification u i (db s) = Some n" "x \<in> set (notifications (db s))" "n_id x = n_id n" for n x
    using inbox_guard.lookup_sound[OF that(1)] that(2,3) assms(1) by (auto simp: distinct_map dest!: inj_onD)
  have marked: "\<exists>n0 \<in> set (notifications (db s)). n = n0 \<or> n = n0\<lparr>n_is_read := True\<rparr>"
    if "n \<in> set (update_rows p read_row (notifications (db s)))" for n p
  proof -
    from that obtain q where "q \<in> set (notifications (db s))" "n = (if p q then read_row q else q)"
      unfolding set_update_rows by blast
    then show ?thesis by (intro bexI[of _ q]) (auto simp: read_row_def)
  qed
  have read: "?ok (db s\<lparr>notifications := update_rows p read_row (notifications (db s))\<rparr>)"
    if "\<And>x. x \<in> set (notifications (db s)) \<Longrightarrow> p x \<Longrightarrow> \<not> ?others x" for p
    using others_update[of "notifications (db s)" p ?others read_row, OF that] marked[of _ p] by (simp add: read_row_def)
  have gone: "?ok (db s\<lparr>notifications := delete_rows p (notifications (db s))\<rparr>)"
    if "\<And>x. x \<in> set (notifications (db s)) \<Longrightarrow> p x \<Longrightarrow> \<not> ?others x" for p
    using others_delete[of "notifications (db s)" p ?others, OF that] by auto
  have same: "\<forall>n \<in> set (notifications (db s)). \<exists>n0 \<in> set (notifications (db s)). n = n0 \<or> n = n0\<lparr>n_is_read := True\<rparr>"
    by blast
  have one: "?ok (db s\<lparr>notifications := update_rows (\<lambda>x. n_id x = n_id n) read_row (notifications (db s))\<rparr>)"
    "?ok (db s\<lparr>notifications := delete_rows (\<lambda>x. n_id x = n_id n) (notifications (db s))\<rparr>)"
    if "own_notification u i (db s) = Some n" for n
    by (rule read gone, use own[OF that] in blast)+
  have "wp (mark_as_read e u i) (\<lambda>_ t. ?ok (db t)) (\<lambda>_ t. ?ok (db t)) s"
    using one same by (simp add: mark_as_read_def wp_simps)
  moreover have "wp (mark_all_as_read e u) (\<lambda>_ t. ?ok (db t)) (\<lambda>_ t. ?ok (db t)) s"
    using read[of "\<lambda>x. n_user_id x = u_id u \<and> \<not> n_is_read x"] same by (simp add: mark_all_as_read_def wp_simps)
  moreover have "wp (delete_notification e u i) (\<lambda>_ t. ?ok (db t)) (\<lambda>_ t. ?ok (db t)) s"
    using one same by (simp add: delete_notification_def wp_simps)
  ultimately have "wp request (\<lambda>_ t. ?ok (db t)) (\<lambda>_ t. ?ok (db t)) s" using assms(2) by blast
  then show ?thesis using assms(3) by (cases r) (auto simp: wp_def)
qed

definition inbox_db :: database where
  "inbox_db = empty_database\<lparr>notifications :=
     [\<lparr>n_id = 1, n_user_id = 7, n_type = ''info'', n_message = ''a'', n_is_read = False, n_created_at = 5\<rparr>,
      \<lparr>n_id = 2, n_user_id = 8, n_type = ''info'', n_message = ''b'', n_is_read = False, n_created_at = 9\<rparr>,
      \<lparr>n_id = 3, n_user_id = 7, n_type = ''error'', n_message = ''c'', n_is_read = False, n_created_at = 9\<rparr>]\<rparr>"

lemma inbox_only_own_witness:
  "\<exists>n \<in> set (notifications (db (snd (delete_notification (sample_env agreeing) (sample_user 7 USER) 2 (sample_state inbox_db))))).
     n_id n = 2"
proof -
  let ?m = "delete_notification (sample_env agreeing) (sample_user 7 USER) 2"
  obtain r s' where run: "?m (sample_state inbox_db) = (r, s')" by fastforce
  have "distinct (map n_id (notifications (db (sample_state inbox_db))))" by (simp add: inbox_db_def sample_defs)
  moreover have "?m \<in> {mark_as_read (sample_env agreeing) (sample_user 7 USER) 2, mark_all_as_read (sample_env agreeing) (sample_user 7 USER),
      delete_notification (sample_env agreeing) (sample_user 7 USER) 2}" by simp
  ultimately
  have "filter (\<lambda>n. n_user_id n \<noteq> 7) (notifications (db s')) = filter (\<lambda>n. n_user_id n \<noteq> 7) (notifications inbox_db)"
    using inbox_only_own[of "sample_state inbox_db" ?m "sample_env agreeing" "sample_user 7 USER" 2 r s', OF _ _ run]
    by (simp add: sample_user_def sample_state_def)
  moreover have "filter (\<lambda>n. n_user_id n \<noteq> 7) (notifications inbox_db) = [notifications inbox_db ! 1]" "n_id (notifications inbox_db ! 1) = 2"
    by (simp_all add: inbox_db_def)
  ultimately show ?thesis unfolding run by (metis filter_is_subset list.set_intros(1) snd_conv subsetD)
qed

lemma newest_first_sorted: "sorted_wrt (\<lambda>a b. key b \<le> key a) (newest_first key rows)"
  using sorted_sort_key[of "\<lambda>r. - key r" rows] by (simp add: newest_first_def sorted_map)

lemma set_newest_first [simp]: "set (newest_first key rows) = set rows"
  by (simp add: newest_first_def)

text \<open>
  The list of notifications is the user's own, newest first, at most fifty; one of his that is missing is no newer
  than any of the fifty that are shown.
\<close>

theorem inbox_lists_newest:
  "\<exists>ns. get_notifications u s = (Inr (map view_notification ns), s) \<and> length ns \<le> 50 \<and>
     sorted_wrt (\<lambda>a b. n_created_at b \<le> n_created_at a) ns \<and>
     set ns \<subseteq> {n \<in> set (notifications (db s)). n_user_id n = u_id u} \<and>
     (\<forall>n \<in> {n \<in> set (notifications (db s)). n_user_id n = u_id u} - set ns.
        length ns = 50 \<and> list_all (\<lambda>m. n_created_at n \<le> n_created_at m) ns)"
proof -
  let ?all = "newest_first n_created_at (filter (\<lambda>n. n_user_id n = u_id u) (notifications (db s)))"
  let ?ns = "take 50 ?all"
  have sorted: "sorted_wrt (\<lambda>a b. n_created_at b \<le> n_created_at a) (?ns @ drop 50 ?all)"
    using newest_first_sorted[of n_created_at] by (simp del: append_take_drop_id add: append_take_drop_id)
  then have "sorted_wrt (\<lambda>a b. n_created_at b \<le> n_created_at a) ?ns"
    "\<And>n m. m \<in> set ?ns \<Longrightarrow> n \<in> set (drop 50 ?all) \<Longrightarrow> n_created_at n \<le> n_created_at m"
    unfolding sorted_wrt_append by blast+
  moreover have "n \<in> set (drop 50 ?all)" if "n \<in> set (notifications (db s))" "n_user_id n = u_id u" "n \<notin> set ?ns" for n
  proof -
    have "set ?ns \<union> set (drop 50 ?all) = set ?all" by (metis append_take_drop_id set_append)
    moreover have "n \<in> set ?all" using that(1,2) by simp
    ultimately show ?thesis using that(3) by blast
  qed
  moreover have "length ?ns = 50" if "n \<in> set (drop 50 ?all)" for n using that by (cases "length ?all \<le> 50") auto
  moreover have "set ?ns \<subseteq> set ?all" by (rule set_take_subset)
  ultimately show ?thesis
    by (intro exI[of _ ?ns]) (auto simp: get_notifications_def seq_def gets_def ret_def list_all_iff)
qed

lemma inbox_lists_newest_witness:
  "fst (get_notifications (sample_user 7 USER) (sample_state inbox_db)) =
     Inr (map view_notification [notifications inbox_db ! 2, notifications inbox_db ! 0])"
proof -
  have "fst (get_notifications (sample_user 7 USER) (sample_state inbox_db)) =
     Inr (map view_notification [notifications inbox_db ! 2, notifications inbox_db ! 0])" by code_simp
  then show ?thesis using inbox_lists_newest[of "sample_user 7 USER" "sample_state inbox_db"] by blast
qed

section \<open>Who may read, answer and delete a question\<close>

definition asked :: "sys \<Rightarrow> user \<Rightarrow> string \<Rightarrow> faq_question" where
  "asked s u v = \<lparr>f_id = next_id (db s), f_user_id = u_id u, f_question = v, f_answer = None, f_answered_at = None,
     f_created_at = clk s\<rparr>"

lemma create_faq_db:
  assumes "P (db s)" and "\<And>v. question_not_empty body = Inr v \<Longrightarrow> P (add_faq (asked s u v) (db s))"
  shows "P (db (snd (create_faq_question e u body s)))"
  by (rule wp_final) (use assms in \<open>simp add: create_faq_question_def asked_def wp_simps Let_def\<close>)

text \<open>
  Rights on questions: everybody reads exactly his own questions, an administrator all; only an administrator
  changes an answer, and an answer changes one question and there only the answer and its time; a question goes away
  only by its author or an administrator; a new one is the caller's, unanswered, between 1 and 500 characters, and
  the last row of the table.
\<close>

theorem faq_rights:
  "set (map fr_id (case fst (get_faq_questions u s) of Inl _ \<Rightarrow> [] | Inr qs \<Rightarrow> qs)) =
      f_id ` {q \<in> set (faqs (db s)). u_role u = ADMIN \<or> f_user_id q = u_id u} \<and>
   (let d = db (snd (answer_faq_question e u i body s)) in
      d = db s \<or> (u_role u = ADMIN \<and> (\<exists>t. d = set_answer i (py_strip body) t (db s)))) \<and>
   (let d = db (snd (delete_faq_question e u i s)) in
      d = db s \<or> (\<exists>q \<in> set (faqs (db s)). f_id q = i \<and> (u_role u = ADMIN \<or> f_user_id q = u_id u) \<and>
         d = (db s)\<lparr>faqs := delete_rows (\<lambda>x. f_id x = i) (faqs (db s))\<rparr>)) \<and>
   (let d = db (snd (create_faq_question e u body s)) in
      d = db s \<or> (\<exists>q. d = add_faq q (db s) \<and> f_user_id q = u_id u \<and> f_answer q = None \<and>
         f_question q = py_strip body \<and> f_question q \<noteq> [] \<and> cp_len (f_question q) \<le> 500))"
proof -
  have "set (map fr_id (case fst (get_faq_questions u s) of Inl _ \<Rightarrow> [] | Inr qs \<Rightarrow> qs)) =
      f_id ` {q \<in> set (faqs (db s)). u_role u = ADMIN \<or> f_user_id q = u_id u}"
    by (auto simp: get_faq_questions_def seq_def gets_def ret_def faq_view_def image_iff)
  moreover let ?A = "\<lambda>d. d = db s \<or> (u_role u = ADMIN \<and> (\<exists>t. d = set_answer i (py_strip body) t (db s)))"
  have "?A (db (snd (answer_faq_question e u i body s)))"
    by (rule wp_final[where I = "\<lambda>t. ?A (db t)"])
      (auto simp: answer_faq_question_def answer_not_empty_def get_current_active_admin_def wp_simps Let_def
        split: if_splits dest!: find_Some_iff_mem)
  moreover let ?D = "\<lambda>d. d = db s \<or> (\<exists>q \<in> set (faqs (db s)). f_id q = i \<and> (u_role u = ADMIN \<or> f_user_id q = u_id u) \<and>
      d = (db s)\<lparr>faqs := delete_rows (\<lambda>x. f_id x = i) (faqs (db s))\<rparr>)"
  have "?D (db (snd (delete_faq_question e u i s)))"
    by (rule wp_final[where I = "\<lambda>t. ?D (db t)"]) (auto simp: delete_faq_question_def wp_simps dest!: find_Some_iff_mem)
  moreover let ?C = "\<lambda>d. d = db s \<or> (\<exists>q. d = add_faq q (db s) \<and> f_user_id q = u_id u \<and> f_answer q = None \<and>
      f_question q = py_strip body \<and> f_question q \<noteq> [] \<and> cp_len (f_question q) \<le> 500)"
  have "?C (db (snd (create_faq_question e u body s)))"
  proof (rule create_faq_db[where P = ?C])
    fix v assume "question_not_empty body = Inr v"
    then have "v = py_strip body" "v \<noteq> []" "cp_len v \<le> 500"
      by (auto simp: question_not_empty_def Let_def split: if_splits)
    then show "?C (add_faq (asked s u v) (db s))"
      by (intro disjI2 exI[of _ "asked s u v"]) (simp add: asked_def)
  qed simp
  ultimately show ?thesis by (simp only: Let_def)
qed

end
