(* ===== verification/Serverless.thy ===== *)
theory Serverless
  imports Sessions "HOL-Library.AList"
begin

text \<open>
  \<open>api/routes/serverless.py\<close>: the requests that are passed on to the service for functions. The service and the
  HTTP client are outside: \<open>Upstream\<close> is the request sent, its reply is a list of the status, the content and the
  content type.
\<close>

section \<open>The request and its address\<close>

record http_request =
  hr_method :: string
  hr_content_type :: "string option"
  hr_body :: string
  hr_query :: "(string \<times> string) list"

text \<open>\<open>dict(request.query_params)\<close>: of a repeated key the last value stays.\<close>

definition query_dict :: "(string \<times> string) list \<Rightarrow> (string \<times> string) list" where
  "query_dict kvs = fold (\<lambda>(k, v). AList.update k v) kvs []"

definition functions_url :: "settings \<Rightarrow> string \<Rightarrow> string" where
  "functions_url c path =
     (if path \<noteq> [] then SERVERLESS_SERVICE_URL c @ ''/functions/'' @ path
      else SERVERLESS_SERVICE_URL c @ ''/functions'')"

definition identity_headers :: "http_request \<Rightarrow> user \<Rightarrow> (string \<times> string) list" where
  "identity_headers req u =
     [(''Content-Type'', case hr_content_type req of None \<Rightarrow> ''application/json'' | Some ct \<Rightarrow> ct),
      (''X-User-Id'', show_int (u_id u)),
      (''X-User-Role'', role_value (u_role u))]"

section \<open>Passing it on\<close>

record http_response =
  hp_status :: int
  hp_content :: string
  hp_media_type :: string

fun upstream_response :: "json \<Rightarrow> exn + http_response" where
  "upstream_response (JList [JInt status, JStr content, JStr ct]) =
     Inr \<lparr>hp_status = status, hp_content = content, hp_media_type = ct\<rparr>"
| "upstream_response (JList [JInt status, JStr content, JNull]) =
     Inr \<lparr>hp_status = status, hp_content = content, hp_media_type = ''application/json''\<rparr>"
| "upstream_response _ = Inl OtherException"

definition proxy :: "env \<Rightarrow> http_request \<Rightarrow> string \<Rightarrow> user \<Rightarrow> (sys, http_response) prog" where
  "proxy e req path u =
     seq (catch
           (ext e (Upstream (hr_method req) (functions_url (conf e) path) (identity_headers req u) (hr_body req)
              (query_dict (hr_query req))))
           (\<lambda>x. if x = ConnectionError \<or> x = TimeoutError then raise (Http 502 ''serverless-unavailable'') else raise x))
       (\<lambda>upstream. lift (upstream_response upstream))"

text \<open>The two routes, with the methods they accept and the guard; other methods are refused by the router.\<close>

definition functions_root :: "crypto \<Rightarrow> env \<Rightarrow> string option \<Rightarrow> string option \<Rightarrow> http_request \<Rightarrow> (sys, http_response) prog" where
  "functions_root cr e cookie bearer req =
     seq (raise_if (hr_method req \<notin> {''GET'', ''POST''}) (Http 405 ''method'')) (\<lambda>_.
     seq (get_current_user cr cookie bearer) (\<lambda>u. proxy e req [] u))"

definition functions_proxy ::
  "crypto \<Rightarrow> env \<Rightarrow> string option \<Rightarrow> string option \<Rightarrow> http_request \<Rightarrow> string \<Rightarrow> (sys, http_response) prog" where
  "functions_proxy cr e cookie bearer req path =
     seq (raise_if (hr_method req \<notin> {''GET'', ''POST'', ''PUT'', ''DELETE'', ''PATCH''}) (Http 405 ''method'')) (\<lambda>_.
     seq (get_current_user cr cookie bearer) (\<lambda>u. proxy e req path u))"

section \<open>Speaking for the caller only\<close>

lemma current_user_run:
  assumes "get_current_user cr cookie bearer s = (r, s')"
  shows "s' = s \<and> (\<forall>u. r = Inr u \<longrightarrow> u \<in> set (users (db s)) \<and> u_is_active u \<and>
     (\<exists>token c. str_or cookie bearer = Some token \<and> jwt_decode cr (clk s) token = Some c \<and>
        c_type c = Some ''access'' \<and> (\<exists>sub. c_sub c = Some sub \<and> py_int sub = Inr (u_id u))))"
proof -
  have "wp (get_current_user cr cookie bearer)
      (\<lambda>u t. t = s \<and> u \<in> set (users (db s)) \<and> u_is_active u \<and>
        (\<exists>token c. str_or cookie bearer = Some token \<and> jwt_decode cr (clk s) token = Some c \<and>
           c_type c = Some ''access'' \<and> (\<exists>sub. c_sub c = Some sub \<and> py_int sub = Inr (u_id u))))
      (\<lambda>_ t. t = s) s"
    by (auto simp: get_current_user_def wp_simps dest!: find_Some_iff_mem)
  then show ?thesis using assms by (auto simp: wp_def split: sum.splits)
qed

lemma seq_raise_if: "seq (raise_if b x) k s = (if b then (Inl x, s) else k () s)"
  by (simp add: seq_def raise_if_def raise_def ret_def)

lemma proxy_run:
  "proxy e req path u s =
     ((case answer e (calls s) (Upstream (hr_method req) (functions_url (conf e) path) (identity_headers req u) (hr_body req)
          (query_dict (hr_query req))) of
        Inl x \<Rightarrow> if x = ConnectionError \<or> x = TimeoutError then Inl (Http 502 ''serverless-unavailable'') else Inl x
      | Inr j \<Rightarrow> upstream_response j),
      called e (Upstream (hr_method req) (functions_url (conf e) path) (identity_headers req u) (hr_body req)
          (query_dict (hr_query req))) s)"
  by (simp add: proxy_def seq_def catch_def ext_eq raise_def lift_def split: sum.split)

text \<open>
  C35. The service for functions is told the truth about the caller. A request that reaches it was made by an active
  user with a valid access token, is sent exactly once, and carries that user's id and role whatever headers, query
  or body the client has sent; the tables stay; and the reply is passed through, except that a service that is down
  or too slow becomes a 502.
\<close>

theorem proxy_speaks_for_caller:
  assumes "functions_proxy cr e cookie bearer req path s = (r, s')"
  shows "db s' = db s \<and> (calls s' = calls s \<and> (\<exists>x. r = Inl x) \<or>
     (\<exists>u \<in> set (users (db s)). u_is_active u \<and>
        (\<exists>token c sub. str_or cookie bearer = Some token \<and> jwt_decode cr (clk s) token = Some c \<and>
           c_type c = Some ''access'' \<and> c_sub c = Some sub \<and> py_int sub = Inr (u_id u)) \<and>
        (let sent = Upstream (hr_method req) (functions_url (conf e) path)
            [(''Content-Type'', case hr_content_type req of None \<Rightarrow> ''application/json'' | Some ct \<Rightarrow> ct),
             (''X-User-Id'', show_int (u_id u)), (''X-User-Role'', role_value (u_role u))]
            (hr_body req) (query_dict (hr_query req)) in
         calls s' = calls s @ [sent] \<and>
         r = (case answer e (calls s) sent of
                Inl x \<Rightarrow> Inl (if x = ConnectionError \<or> x = TimeoutError then Http 502 ''serverless-unavailable'' else x)
              | Inr j \<Rightarrow> upstream_response j))))"
proof (cases "hr_method req \<in> {''GET'', ''POST'', ''PUT'', ''DELETE'', ''PATCH''}")
  case True
  then have start: "functions_proxy cr e cookie bearer req path s =
      seq (get_current_user cr cookie bearer) (\<lambda>u. proxy e req path u) s"
    unfolding functions_proxy_def seq_raise_if by (simp only: not_True_eq_False if_False)
  obtain r0 s0 where g: "get_current_user cr cookie bearer s = (r0, s0)" by fastforce
  note g' = current_user_run[OF g]
  show ?thesis
  proof (cases r0)
    case (Inl x)
    then have "r = Inl x" "s' = s" using assms g g' unfolding start by (simp_all add: seq_def)
    then show ?thesis by simp
  next
    case (Inr u)
    then have run: "proxy e req path u s = (r, s')" using assms g g' unfolding start by (simp add: seq_def)
    let ?sent = "Upstream (hr_method req) (functions_url (conf e) path) (identity_headers req u) (hr_body req) (query_dict (hr_query req))"
    have "db s' = db s" "calls s' = calls s @ [?sent]" using run unfolding proxy_run by auto
    moreover have "r = (case answer e (calls s) ?sent of
        Inl x \<Rightarrow> Inl (if x = ConnectionError \<or> x = TimeoutError then Http 502 ''serverless-unavailable'' else x)
      | Inr j \<Rightarrow> upstream_response j)"
      using run unfolding proxy_run by (auto split: sum.splits)
    moreover from g' Inr have "u \<in> set (users (db s))" "u_is_active u"
      "\<exists>token c sub. str_or cookie bearer = Some token \<and> jwt_decode cr (clk s) token = Some c \<and>
         c_type c = Some ''access'' \<and> c_sub c = Some sub \<and> py_int sub = Inr (u_id u)" by blast+
    ultimately show ?thesis
      unfolding Let_def identity_headers_def by (intro conjI disjI2 bexI[of _ u])
  qed
next
  case False
  then have "(r, s') = (Inl (Http 405 ''method''), s)"
    using assms unfolding functions_proxy_def seq_raise_if by (simp only: if_True not_False_eq_True)
  then show ?thesis by simp
qed

text \<open>A client that claims to be somebody else in the query is passed on under the name of its token.\<close>

definition forwarding :: "call list \<Rightarrow> call \<Rightarrow> exn + json" where
  "forwarding hist c = (case c of
     Upstream m url hs body q \<Rightarrow> Inr (JList [JInt 201, JStr url, JNull])
   | _ \<Rightarrow> Inl OtherException)"

definition caller_state :: sys where
  "caller_state = sample_state (empty_database\<lparr>users := [sample_user 7 USER, sample_user 8 ADMIN]\<rparr>)"

definition caller_token :: string where
  "caller_token = jwt_encode sample_crypto \<lparr>c_exp = 5, c_sub = Some ''7'', c_type = Some ''access''\<rparr>"

lemma proxy_speaks_for_caller_witness:
  "let s' = snd (functions_proxy sample_crypto (sample_env forwarding) (Some caller_token) None
        \<lparr>hr_method = ''GET'', hr_content_type = None, hr_body = [], hr_query = [(''X-User-Id'', ''8'')]\<rparr> ''run'' caller_state)
   in calls s' = [Upstream ''GET'' ''http://serverless:3001/functions/run''
        [(''Content-Type'', ''application/json''), (''X-User-Id'', ''7''), (''X-User-Role'', ''user'')] [] [(''X-User-Id'', ''8'')]] \<and>
      db s' = db caller_state"
proof -
  let ?run = "functions_proxy sample_crypto (sample_env forwarding) (Some caller_token) None
        \<lparr>hr_method = ''GET'', hr_content_type = None, hr_body = [], hr_query = [(''X-User-Id'', ''8'')]\<rparr> ''run'' caller_state"
  obtain r s' where run: "?run = (r, s')" by fastforce
  have "calls (snd ?run) = [Upstream ''GET'' ''http://serverless:3001/functions/run''
        [(''Content-Type'', ''application/json''), (''X-User-Id'', ''7''), (''X-User-Role'', ''user'')] [] [(''X-User-Id'', ''8'')]]"
    by code_simp
  then show ?thesis
    using conjunct1[OF proxy_speaks_for_caller[OF run]] by (simp only: Let_def run snd_conv simp_thms)
qed

end
