(* ===== verification/Isolation.thy ===== *)
theory Isolation
  imports PortRoutes
begin

text \<open>
  The endpoints on one VM, of four routers, as one table; what all of them keep. Which rows a request may change is
  an interface: an invariant of the tables that a few operations on rows of one's own VMs keep is kept by every
  endpoint. It is used twice, for the well-formedness of the tables, and for the rows of other people's VMs.
\<close>

section \<open>The endpoints\<close>

datatype vm_endpoint =
    Ep_Status
  | Ep_Metrics string
  | Ep_Resize resize_request
  | Ep_Purpose string
  | Ep_Extend
  | Ep_Control vm_action
  | Ep_Snapshots
  | Ep_Snapshot_New string string
  | Ep_Snapshot_Rollback string
  | Ep_Snapshot_Delete string
  | Ep_Auto_Snapshot
  | Ep_Auto_Toggle
  | Ep_Delete bool
  | Ep_Rules
  | Ep_Rule_Add firewall_rule
  | Ep_Rule_Delete int
  | Ep_Ports
  | Ep_Port_Add port_create
  | Ep_Port_Restore
  | Ep_Port_Delete int
  | Ep_Forwarded
  | Ep_Routes
  | Ep_Route_Add route_create
  | Ep_Route_Delete int

definition quietly :: "('s, 'a) prog \<Rightarrow> ('s, unit) prog" where
  "quietly m = seq m (\<lambda>_. ret ())"

fun serve :: "env \<Rightarrow> string \<Rightarrow> int \<Rightarrow> user \<Rightarrow> vm_endpoint \<Rightarrow> (sys, unit) prog" where
  "serve e node vmid u Ep_Status = quietly (get_vm_status e node vmid u)"
| "serve e node vmid u (Ep_Metrics tf) = quietly (get_vm_metrics e node vmid tf u)"
| "serve e node vmid u (Ep_Resize r) = quietly (resize_vm e node vmid r u)"
| "serve e node vmid u (Ep_Purpose p) = quietly (update_vm_purpose e node vmid p u)"
| "serve e node vmid u Ep_Extend = quietly (extend_vm e node vmid u)"
| "serve e node vmid u (Ep_Control a) = quietly (control_vm e node vmid a u)"
| "serve e node vmid u Ep_Snapshots = quietly (list_snapshots e node vmid u)"
| "serve e node vmid u (Ep_Snapshot_New n descr) = quietly (create_snapshot e node vmid n descr u)"
| "serve e node vmid u (Ep_Snapshot_Rollback n) = quietly (rollback_snapshot e node vmid n u)"
| "serve e node vmid u (Ep_Snapshot_Delete n) = quietly (delete_snapshot e node vmid n u)"
| "serve e node vmid u Ep_Auto_Snapshot = quietly (get_auto_snapshot node vmid u)"
| "serve e node vmid u Ep_Auto_Toggle = quietly (toggle_auto_snapshot e node vmid u)"
| "serve e node vmid u (Ep_Delete purge) = delete_vm_endpoint e node vmid purge u"
| "serve e node vmid u Ep_Rules = quietly (get_firewall_rules e node vmid u)"
| "serve e node vmid u (Ep_Rule_Add r) = quietly (add_firewall_rule e node vmid r u)"
| "serve e node vmid u (Ep_Rule_Delete pos) = delete_firewall_rule e node vmid pos u"
| "serve e node vmid u Ep_Ports = quietly (get_custom_ports node vmid u)"
| "serve e node vmid u (Ep_Port_Add b) = quietly (add_custom_port e node vmid b u)"
| "serve e node vmid u Ep_Port_Restore = quietly (restore_default_ports e node vmid u)"
| "serve e node vmid u (Ep_Port_Delete i) = delete_custom_port e node vmid i u"
| "serve e node vmid u Ep_Forwarded = quietly (get_forwarded_ports node vmid u)"
| "serve e node vmid u Ep_Routes = quietly (get_https_routes e node vmid u)"
| "serve e node vmid u (Ep_Route_Add b) = quietly (add_https_route e node vmid b u)"
| "serve e node vmid u (Ep_Route_Delete i) = delete_https_route e node vmid i u"

section \<open>Invariants the row operations keep\<close>

lemma keeps_pick_port [keeps_intros]: "keeps db (pick_port e)"
proof -
  have "keeps db (try_random_port e n lo hi)" for n lo hi
    by (induction n) (auto intro!: keeps_intros)
  then show ?thesis unfolding pick_port_def allocate_random_port_def by (intro keeps_intros)
qed

locale vm_row_invariant =
  fixes P :: "database \<Rightarrow> bool" and own :: "int set" and u :: user
  assumes found: "P d \<Longrightarrow> find_owned_vm vmid u node d = Some v \<Longrightarrow> vm_id v \<in> own"
    and change: "P d \<Longrightarrow> i \<in> own \<Longrightarrow> (\<And>x. vm_id (f x) = vm_id x) \<Longrightarrow> (\<And>x. vm_owner_id (f x) = vm_owner_id x) \<Longrightarrow>
        P (set_vm i f d)"
    and remove: "P d \<Longrightarrow> find_owned_vm vmid u node d0 = Some v \<Longrightarrow> vm_id v \<in> own \<Longrightarrow> P (delete_vm_rows v t d)"
    and ports: "P d \<Longrightarrow> (\<And>p. p \<in> set ps \<Longrightarrow> p_vm_id p \<in> own) \<Longrightarrow> constraints_ok (foldl (\<lambda>w p. add_port p w) d ps) \<Longrightarrow>
        P (foldl (\<lambda>w p. add_port p w) d ps)"
    and no_port: "P d \<Longrightarrow> (\<And>p. p \<in> set (vm_ports d) \<Longrightarrow> p_id p = i \<Longrightarrow> p_vm_id p \<in> own) \<Longrightarrow> P (drop_port i d)"
    and route: "P d \<Longrightarrow> r_vm_id r \<in> own \<Longrightarrow> constraints_ok (add_route_row r d) \<Longrightarrow> P (add_route_row r d)"
    and synced: "P d \<Longrightarrow> (\<And>r. r \<in> set (https_routes d) \<Longrightarrow> r_id r = i \<Longrightarrow> r_vm_id r \<in> own) \<Longrightarrow> P (set_synced i d)"
    and no_route: "P d \<Longrightarrow> (\<And>r. r \<in> set (https_routes d) \<Longrightarrow> r_id r = i \<Longrightarrow> r_vm_id r \<in> own) \<Longrightarrow> P (drop_route i d)"
    and ids: "P d \<Longrightarrow> ids_ok d"
begin

lemma looked_up:
  "(\<And>v d. find_owned_vm vmid u node d = Some v \<Longrightarrow> vm_id v \<in> own \<Longrightarrow> db_inv P (k v)) \<Longrightarrow>
     db_inv P (seq (get_vm_with_owner_check vmid u node) k)"
  unfolding db_inv_wp by (auto simp: wp_seq wp_get_vm dest: found split: option.split)

lemma on_vm:
  "(\<And>v srv d. find_owned_vm vmid u (Some node) d = Some v \<Longrightarrow> vm_id v \<in> own \<Longrightarrow> db_inv P (k v srv)) \<Longrightarrow>
     db_inv P (with_vm e vmid u node k)"
  unfolding with_vm_def by (rule looked_up) (intro db_inv_seq db_inv_keeps[OF keeps_vm_server] db_inv_keeps[OF keeps_get_proxmox])

lemma saved: "vm_id v \<in> own \<Longrightarrow> (\<And>x. vm_id (f x) = vm_id x) \<Longrightarrow> (\<And>x. vm_owner_id (f x) = vm_owner_id x) \<Longrightarrow>
    db_inv P (save_vm e v f)"
  unfolding save_vm_def by (rule db_inv_read, rule db_inv_commit) (rule change)

lemma deleted:
  assumes "find_owned_vm vmid u node d0 = Some v" and "vm_id v \<in> own"
  shows "db_inv P (delete_vm e v purge)"
proof -
  have tail: "db_inv P (seq (gets db) (\<lambda>d. commit e (delete_vm_rows v t d)))" for t
    by (rule db_inv_read, rule db_inv_commit) (rule remove[OF _ assms])
  show ?thesis
    unfolding delete_vm_def by (intro inv_intros tail) (rule db_inv_keeps, intro keeps_intros)+
qed

text \<open>A row with this id, if there is one, is one's own: what a request knows of a row it has booked.\<close>

definition booked_port :: "int \<Rightarrow> database \<Rightarrow> bool" where
  "booked_port i d \<longleftrightarrow> P d \<and> (\<forall>p \<in> set (vm_ports d). p_id p = i \<longrightarrow> p_vm_id p \<in> own)"

definition booked_route :: "int \<Rightarrow> database \<Rightarrow> bool" where
  "booked_route i d \<longleftrightarrow> P d \<and> (\<forall>r \<in> set (https_routes d). r_id r = i \<longrightarrow> r_vm_id r \<in> own)"

lemma book: "P (db s) \<Longrightarrow> p_vm_id row \<in> own \<Longrightarrow>
    wp (book_port e row) (\<lambda>i s. booked_port i (db s)) (\<lambda>_ s. P (db s)) s"
  using ids[of "db s"] ports[of "db s" "[row]"]
  by (auto simp: book_port_def wp_simps booked_port_def add_port_def ids_ok_def)

lemma unbook: "booked_port i (db s) \<Longrightarrow> wp (unbook_port e i x) Q (\<lambda>_ s. P (db s)) s"
  unfolding booked_port_def by (auto simp: unbook_port_def wp_simps intro!: no_port)

lemma forwarded: "booked_port i (db s) \<Longrightarrow> wp (forward_port e v b external i) (\<lambda>_ s. P (db s)) (\<lambda>_ s. P (db s)) s"
proof -
  assume b: "booked_port i (db s)"
  let ?g = "seq (vm_server v) (\<lambda>srv. manage_custom_iptables e srv (opt_str (vm_internal_ip v)) (pc_internal_port b)
      external (pc_protocol b) ''ADD'' (pc_source b))"
  have "keeps db ?g" by (intro keeps_intros)
  then have "wp ?g (\<lambda>_ s. booked_port i (db s)) (\<lambda>_ s. booked_port i (db s)) s"
    by (rule wp_mono[OF keeps_wp[OF _ refl]]) (use b in simp_all)
  then show ?thesis
    unfolding forward_port_def wp_seq[of "catch _ _"] wp_catch
  proof (rule wp_mono)
    fix success and s' :: sys assume b': "booked_port i (db s')"
    then show "wp (if success then ret () else unbook_port e i (Http 502 ''gateway-failed'')) (\<lambda>_ s. P (db s)) (\<lambda>_ s. P (db s)) s'"
      using conjunct1[OF b'[unfolded booked_port_def]] by (simp add: wp_if wp_ret unbook[OF b'])
  qed (rule unbook)
qed

lemma port_added: "db_inv P (add_custom_port e node vmid b u)"
proof -
  have tail: "db_inv P (seq (book_port e (custom_row v b external)) (\<lambda>i.
     seq (if opt_truthy (vm_internal_ip v) then forward_port e v b external i else ret ()) (\<lambda>_. ret (k i))))"
    if "vm_id v \<in> own" for v b external and k :: "int \<Rightarrow> vm_port"
    unfolding db_inv_wp wp_seq[of "book_port _ _"]
    using that by (auto simp: wp_seq wp_if wp_ret booked_port_def custom_row_def intro!: wp_mono[OF book] forwarded wp_mono[OF forwarded])
  show ?thesis
    unfolding add_custom_port_def
    by (intro db_inv_seq[of _ "lift _"] inv_intros(4) looked_up db_inv_seq[of _ "gets _"] db_inv_seq[of _ "raise_if _ _"]
        db_inv_seq[of _ "pick_port _"] tail inv_intros(3,5) db_inv_keeps[OF keeps_pick_port])
qed

lemma ports_restored: "db_inv P (restore_default_ports e node vmid u)"
proof -
  have own_rows: "p_vm_id p = vm_id v" if "p \<in> set (map (restored_row v ps) ms)" for p v ps ms
    using that by (auto simp: restored_row_def default_port_def)
  have save: "db_inv P (seq (gets db) (\<lambda>d'.
      seq (catch (commit e (foldl (\<lambda>w row. add_port row w) d' rows)) (\<lambda>_. raise x)) (\<lambda>_. ret k)))"
    if "\<And>p. p \<in> set rows \<Longrightarrow> p_vm_id p \<in> own" for rows x and k :: nat
    by (rule db_inv_read) (intro inv_intros ports that)
  show ?thesis
    unfolding restore_default_ports_def Let_def
    by (rule looked_up) (intro db_inv_seq[of _ "gets _"] inv_intros(3) db_inv_cases(1) inv_intros(1) db_inv_seq[of _ "vm_server _"]
        db_inv_keeps[OF keeps_vm_server] db_inv_seq[of _ "lift _"] inv_intros(4) db_inv_seq[of _ "raise_if _ _"] inv_intros(5)
        db_inv_seq[of _ "for_each _ _"] db_inv_keeps[OF keeps_for_each[OF keeps_forward_default]] save; simp add: own_rows)
qed

lemma keeps_unforward: "keeps db (unforward e v p)"
  unfolding unforward_def by (intro keeps_intros)

lemma wp_unchanged:
  fixes m :: "(sys, 'a) prog"
  assumes "keeps db m" and "Q (db s)"
  shows "wp m (\<lambda>_ t. Q (db t)) (\<lambda>_ t. Q (db t)) s"
  by (rule wp_mono[OF keeps_wp[OF assms(1) refl]]) (use assms(2) in \<open>simp_all add: assms(2)\<close>)

lemma port_deleted: "db_inv P (delete_custom_port e node vmid i u)"
  unfolding delete_custom_port_def
proof (rule looked_up)
  fix v :: vm and d assume v: "vm_id v \<in> own"
  show "db_inv P (seq (gets db) (\<lambda>d.
     case find (\<lambda>p. p_id p = i \<and> p_vm_id p = vm_id v) (vm_ports d) of
       None \<Rightarrow> raise (Http 404 ''port-not-found'')
     | Some p \<Rightarrow> seq (unforward e v p) (\<lambda>_. seq (gets db) (\<lambda>d'. commit e (drop_port (p_id p) d')))))"
    unfolding db_inv_wp
  proof (intro allI impI)
    fix s :: sys assume P: "P (db s)"
    have "wp (seq (unforward e v p) (\<lambda>_. seq (gets db) (\<lambda>d'. commit e (drop_port (p_id p) d')))) (\<lambda>_ s. P (db s)) (\<lambda>_ s. P (db s)) s"
      if "p \<in> set (vm_ports (db s))" "p_vm_id p = vm_id v" for p
    proof -
      have "booked_port (p_id p) (db s)"
        using P ids[OF P] that v unfolding booked_port_def ids_ok_def by (auto simp: distinct_map dest: inj_onD)
      then have "wp (unforward e v p) (\<lambda>_ t. booked_port (p_id p) (db t)) (\<lambda>_ t. booked_port (p_id p) (db t)) s"
        by (rule wp_unchanged[OF keeps_unforward])
      then show ?thesis
        unfolding wp_seq[of "unforward _ _ _"] by (rule wp_mono) (auto simp: wp_simps booked_port_def intro!: no_port)
    qed
    then show "wp (seq (gets db) (\<lambda>d.
     case find (\<lambda>p. p_id p = i \<and> p_vm_id p = vm_id v) (vm_ports d) of
       None \<Rightarrow> raise (Http 404 ''port-not-found'')
     | Some p \<Rightarrow> seq (unforward e v p) (\<lambda>_. seq (gets db) (\<lambda>d'. commit e (drop_port (p_id p) d')))))
      (\<lambda>_ s. P (db s)) (\<lambda>_ s. P (db s)) s"
      using P by (auto simp: wp_seq[of "gets _"] wp_gets wp_raise split: option.split dest!: find_Some_iff_mem)
  qed
qed

lemma route_booked: "db_inv P (add_https_route e node vmid b u)"
proof -
  have tail: "wp (seq (catch (commit e (add_route_row (new_route v rc) (db s))) h) (\<lambda>_.
     seq (add_route e (rc_subdomain rc) ip (rc_internal_port rc)) (\<lambda>ok.
     seq (if ok then seq (gets db) (\<lambda>d'. commit e (set_synced (next_id (db s)) d')) else ret ()) (\<lambda>_. ret (k ok)))))
     (\<lambda>_ t. P (db t)) (\<lambda>_ t. P (db t)) s"
    if P: "P (db s)" and v: "vm_id v \<in> own" and h: "h = (\<lambda>x. raise (f x))"
    for v :: vm and rc ip s h f and k :: "bool \<Rightarrow> https_route"
  proof -
    let ?i = "next_id (db s)"
    have "booked_route ?i (add_route_row (new_route v rc) (db s))" if "constraints_ok (add_route_row (new_route v rc) (db s))"
      using that P v ids[OF P] route[OF P, of "new_route v rc"]
      by (auto simp: booked_route_def new_route_def add_route_row_def ids_ok_def)
    then have c: "wp (catch (commit e (add_route_row (new_route v rc) (db s))) h)
        (\<lambda>_ t. booked_route ?i (db t)) (\<lambda>_ t. P (db t)) s"
      using P by (simp add: h wp_simps)
    have sync: "wp (seq (if ok then seq (gets db) (\<lambda>d'. commit e (set_synced ?i d')) else ret ()) (\<lambda>_. ret (k ok)))
        (\<lambda>_ t. P (db t)) (\<lambda>_ t. P (db t)) t" if "booked_route ?i (db t)" for t ok
      using that by (auto simp: wp_simps booked_route_def intro!: synced)
    have "wp (seq (add_route e (rc_subdomain rc) ip (rc_internal_port rc)) (\<lambda>ok.
       seq (if ok then seq (gets db) (\<lambda>d'. commit e (set_synced ?i d')) else ret ()) (\<lambda>_. ret (k ok))))
       (\<lambda>_ t. P (db t)) (\<lambda>_ t. P (db t)) t" if b: "booked_route ?i (db t)" for t
    proof -
      have a: "wp (add_route e (rc_subdomain rc) ip (rc_internal_port rc)) (\<lambda>_ t. booked_route ?i (db t)) (\<lambda>_ t. booked_route ?i (db t)) t"
        by (rule wp_unchanged[where Q = "booked_route ?i"]) (intro keeps_intros, rule b)
      show ?thesis
        unfolding wp_seq[of "add_route _ _ _ _"]
        by (rule wp_mono[OF a]) (rule sync, assumption, simp add: booked_route_def)
    qed
    then show ?thesis unfolding wp_seq[of "catch _ _"] by (rule wp_mono[OF c])
  qed
  show ?thesis
    unfolding add_https_route_def
    by (intro db_inv_seq[of _ "lift _"] inv_intros(4) looked_up db_inv_seq[of _ "raise_if _ _"] inv_intros(5))
      (auto simp: db_inv_wp wp_seq[of "gets _"] wp_gets wp_seq[of "raise_if _ _"] wp_raise_if intro!: tail[OF _ _ refl])
qed

lemma route_deleted: "db_inv P (delete_https_route e node vmid i u)"
  unfolding delete_https_route_def
proof (rule looked_up)
  fix v :: vm and d assume v: "vm_id v \<in> own"
  show "db_inv P (seq (gets db) (\<lambda>d.
     case find (\<lambda>r. r_id r = i \<and> r_vm_id r = vm_id v) (https_routes d) of
       None \<Rightarrow> raise (Http 404 ''route-not-found'')
     | Some r \<Rightarrow> seq (delete_route e (r_subdomain r)) (\<lambda>_. seq (gets db) (\<lambda>d'. commit e (drop_route (r_id r) d')))))"
    unfolding db_inv_wp
  proof (intro allI impI)
    fix s :: sys assume P: "P (db s)"
    have "wp (seq (delete_route e (r_subdomain r)) (\<lambda>_. seq (gets db) (\<lambda>d'. commit e (drop_route (r_id r) d'))))
        (\<lambda>_ s. P (db s)) (\<lambda>_ s. P (db s)) s"
      if "r \<in> set (https_routes (db s))" "r_vm_id r = vm_id v" for r
    proof -
      have b: "booked_route (r_id r) (db s)"
        using P ids[OF P] that v unfolding booked_route_def ids_ok_def by (auto simp: distinct_map dest: inj_onD)
      have "wp (delete_route e (r_subdomain r)) (\<lambda>_ t. booked_route (r_id r) (db t)) (\<lambda>_ t. booked_route (r_id r) (db t)) s"
        by (rule wp_unchanged[where Q = "booked_route (r_id r)"]) (intro keeps_intros, rule b)
      then show ?thesis
        unfolding wp_seq[of "delete_route _ _"] by (rule wp_mono) (auto simp: wp_simps booked_route_def intro!: no_route)
    qed
    then show "wp (seq (gets db) (\<lambda>d.
     case find (\<lambda>r. r_id r = i \<and> r_vm_id r = vm_id v) (https_routes d) of
       None \<Rightarrow> raise (Http 404 ''route-not-found'')
     | Some r \<Rightarrow> seq (delete_route e (r_subdomain r)) (\<lambda>_. seq (gets db) (\<lambda>d'. commit e (drop_route (r_id r) d')))))
      (\<lambda>_ s. P (db s)) (\<lambda>_ s. P (db s)) s"
      using P by (auto simp: wp_seq[of "gets _"] wp_gets wp_raise split: option.split dest!: find_Some_iff_mem)
  qed
qed

text \<open>The endpoints that write only the row of the VM, and those that write nothing.\<close>

lemma row_changed:
  "db_inv P (resize_vm e node vmid r u)" "db_inv P (update_vm_purpose e node vmid p u)"
  "db_inv P (extend_vm e node vmid u)" "db_inv P (toggle_auto_snapshot e node vmid u)"
  "db_inv P (delete_vm_endpoint e node vmid purge u)"
  unfolding resize_vm_def update_vm_purpose_def extend_vm_def toggle_auto_snapshot_def delete_vm_endpoint_def pve_try_def
  by (intro inv_intros(1-10) db_inv_seq[of _ "raise_if _ _"] db_inv_seq[of _ "lift _"] db_inv_seq[of _ "ext _ _"]
      db_inv_seq[of _ "save_vm _ _ _"] db_inv_seq[of _ now] db_inv_catch db_inv_cases(2) looked_up on_vm deleted saved;
      simp add: resized_def)+

end

lemma keeps_readers [keeps_intros]:
  "keeps db (get_vm_status e node vmid u)" "keeps db (get_vm_metrics e node vmid tf u)"
  "keeps db (control_vm e node vmid a u)" "keeps db (list_snapshots e node vmid u)"
  "keeps db (create_snapshot e node vmid n descr u)" "keeps db (rollback_snapshot e node vmid n u)"
  "keeps db (delete_snapshot e node vmid n u)" "keeps db (get_auto_snapshot node vmid u)"
  "keeps db (get_firewall_rules e node vmid u)" "keeps db (add_firewall_rule e node vmid fr u)"
  "keeps db (delete_firewall_rule e node vmid pos u)" "keeps db (get_custom_ports node vmid u)"
  "keeps db (get_forwarded_ports node vmid u)" "keeps db (get_https_routes e node vmid u)"
  unfolding get_vm_status_def get_vm_metrics_def control_vm_def list_snapshots_def create_snapshot_def
    rollback_snapshot_def delete_snapshot_def get_auto_snapshot_def get_firewall_rules_def add_firewall_rule_def
    delete_firewall_rule_def get_custom_ports_def get_forwarded_ports_def get_https_routes_def with_vm_def pve_try_def
  by (intro keeps_intros)+

context vm_row_invariant
begin

lemma served: "db_inv P (serve e node vmid u ep)"
proof -
  have quiet: "db_inv P m \<Longrightarrow> db_inv P (quietly m)" for m :: "(sys, 'b) prog"
    unfolding quietly_def by (intro db_inv_seq inv_intros(1))
  show ?thesis
    by (cases ep; simp only: serve.simps; (intro quiet)?;
        (intro row_changed port_added ports_restored port_deleted route_booked route_deleted | rule db_inv_keeps, intro keeps_intros))
qed

end

section \<open>The tables stay well formed\<close>

text \<open>Also, no VM is made: the ids of all VMs were given before \<open>n\<close>, so that a row may refer to any of them.\<close>

definition vm_tables :: "int \<Rightarrow> database \<Rightarrow> bool" where
  "vm_tables n d \<longleftrightarrow> tables_ok d \<and> (\<forall>v \<in> set (vms d). vm_id v < n) \<and> n \<le> next_id d"

lemma ports_added:
  "vms (foldl (\<lambda>w p. add_port p w) d ps) = vms d" "users (foldl (\<lambda>w p. add_port p w) d ps) = users d"
  "servers (foldl (\<lambda>w p. add_port p w) d ps) = servers d" "jobs (foldl (\<lambda>w p. add_port p w) d ps) = jobs d"
  "https_routes (foldl (\<lambda>w p. add_port p w) d ps) = https_routes d"
  "notifications (foldl (\<lambda>w p. add_port p w) d ps) = notifications d"
  by (induction ps arbitrary: d; simp add: add_port_def)+

lemma ports_added_next: "next_id d \<le> next_id (foldl (\<lambda>w p. add_port p w) d ps)"
proof (induction ps arbitrary: d)
  case (Cons p ps)
  from Cons[of "add_port p d"] show ?case by (simp add: add_port_def)
qed simp

lemma ids_ports_added: "ids_ok d \<Longrightarrow> ids_ok (foldl (\<lambda>w p. add_port p w) d ps)"
  by (induction ps arbitrary: d) (simp_all add: ids_ok_ops)

lemma refs_ports_added:
  "refs_ok d \<Longrightarrow> (\<And>p. p \<in> set ps \<Longrightarrow> p_vm_id p < next_id d) \<Longrightarrow> refs_ok (foldl (\<lambda>w p. add_port p w) d ps)"
proof (induction ps arbitrary: d)
  case (Cons p ps)
  have "refs_ok (add_port p d)" "next_id d \<le> next_id (add_port p d)"
    using Cons.prems by (simp_all add: refs_ok_ops) (simp add: add_port_def)
  then show ?case using Cons.prems by (auto intro!: Cons.IH intro: less_le_trans)
qed simp

lemma dropped_ids:
  "ids_ok d \<Longrightarrow> ids_ok (drop_port i d)" "ids_ok d \<Longrightarrow> ids_ok (drop_route i d)" "ids_ok d \<Longrightarrow> ids_ok (set_synced i d)"
  "ids_ok d \<Longrightarrow> ids_ok (add_route_row r d)"
  by (auto simp: ids_ok_def drop_port_def drop_route_def set_synced_def add_route_row_def map_update_rows set_update_rows
      intro: distinct_map_delete_rows)

lemma dropped_refs: 
  "refs_ok d \<Longrightarrow> refs_ok (drop_port i d)" "refs_ok d \<Longrightarrow> refs_ok (drop_route i d)" "refs_ok d \<Longrightarrow> refs_ok (set_synced i d)"
  by (auto simp: refs_ok_def drop_port_def drop_route_def set_synced_def set_update_rows)

lemma dropped_constraints:
  "constraints_ok d \<Longrightarrow> constraints_ok (drop_port i d)" "constraints_ok d \<Longrightarrow> constraints_ok (drop_route i d)"
  "constraints_ok d \<Longrightarrow> constraints_ok (set_synced i d)"
  by (simp_all add: constraints_ok_def drop_port_def drop_route_def set_synced_def map_update_rows distinct_map_delete_rows)

lemma dropped_tables:
  "tables_ok d \<Longrightarrow> tables_ok (drop_port i d)" "tables_ok d \<Longrightarrow> tables_ok (drop_route i d)"
  "tables_ok d \<Longrightarrow> tables_ok (set_synced i d)"
  by (simp_all add: tables_ok_def dropped_ids dropped_refs dropped_constraints)
    (simp_all add: drop_port_def drop_route_def set_synced_def)

lemma tables_delete_rows: "tables_ok d \<Longrightarrow> tables_ok (delete_vm_rows v t d)"
  by (auto simp: delete_vm_rows_def tables_drop_vm tables_notify split: option.split)

lemma vms_delete_rows: "vms (delete_vm_rows v t d) = delete_rows (\<lambda>x. vm_id x = vm_id v) (vms d)"
  "next_id d \<le> next_id (delete_vm_rows v t d)"
  by (auto simp: delete_vm_rows_def drop_vm_def add_notification_def split: option.split)

interpretation tables: vm_row_invariant "vm_tables n" "{i. i < n}" u for n u
proof
  fix d vmid node v assume "vm_tables n d" "find_owned_vm vmid u node d = Some v"
  then show "vm_id v \<in> {i. i < n}" by (auto simp: vm_tables_def find_owned_vm_def dest!: find_Some_iff_mem)
next
  fix d i and f :: "vm \<Rightarrow> vm" assume "vm_tables n d" "\<And>x. vm_id (f x) = vm_id x"
  then show "vm_tables n (set_vm i f d)"
    by (auto simp: vm_tables_def tables_set_vm) (auto simp: set_vm_def set_update_rows)
next
  fix d v t assume "vm_tables n d"
  then show "vm_tables n (delete_vm_rows v t d)"
    using vms_delete_rows(2)[of d v t] by (auto simp: vm_tables_def tables_delete_rows vms_delete_rows(1))
next
  fix d and ps :: "vm_port list"
  assume "vm_tables n d" "\<And>p. p \<in> set ps \<Longrightarrow> p_vm_id p \<in> {i. i < n}" "constraints_ok (foldl (\<lambda>w p. add_port p w) d ps)"
  moreover from this have "refs_ok (foldl (\<lambda>w p. add_port p w) d ps)"
    by (intro refs_ports_added) (auto simp: vm_tables_def tables_ok_def intro: less_le_trans)
  ultimately show "vm_tables n (foldl (\<lambda>w p. add_port p w) d ps)"
    using ports_added_next[of d ps] by (auto simp: vm_tables_def tables_ok_def ports_added ids_ports_added)
next
  fix d i assume "vm_tables n d"
  then show "vm_tables n (drop_port i d)" "vm_tables n (set_synced i d)" "vm_tables n (drop_route i d)"
    by (auto simp: vm_tables_def dropped_tables) (auto simp: drop_port_def set_synced_def drop_route_def)
next
  fix d r assume "vm_tables n d" "r_vm_id r \<in> {i. i < n}" "constraints_ok (add_route_row r d)"
  then show "vm_tables n (add_route_row r d)"
    by (auto simp: vm_tables_def tables_ok_def dropped_ids(4)) (auto simp: refs_ok_def add_route_row_def)
next
  fix d assume "vm_tables n d"
  then show "ids_ok d" by (simp add: vm_tables_def tables_ok_def)
qed

lemma serve_tables: "db_inv tables_ok (serve e node vmid u ep)"
  unfolding db_inv_def
proof (intro allI impI)
  fix s :: sys assume "tables_ok (db s)"
  then have "vm_tables (next_id (db s)) (db s)" by (auto simp: vm_tables_def tables_ok_def ids_ok_def)
  then have "vm_tables (next_id (db s)) (db (snd (serve e node vmid u ep s)))"
    using tables.served unfolding db_inv_def by blast
  then show "tables_ok (db (snd (serve e node vmid u ep s)))" by (simp add: vm_tables_def)
qed

text \<open>
  No request on a VM breaks the tables: whatever endpoint is called by whom, with whatever input, and however
  Proxmox, the gateway and Caddy answer, the constraints hold, ids are unique and bounded, and ports and routes refer
  to VMs that exist or have existed.
\<close>

theorem vm_requests_keep_tables:
  assumes "tables_ok (db s)"
  shows "tables_ok (db (snd (serve e node vmid u ep s)))"
  using serve_tables assms unfolding db_inv_def by blast

definition owned_state :: sys where
  "owned_state = sample_state (empty_database\<lparr>servers := [sample_server], users := [sample_user 7 USER, sample_user 8 PROJECT_OWNER],
     vms := [sample_vm 1 (Some 7), sample_vm 2 (Some 8)], next_id := 9\<rparr>)"

lemma owned_tables: "tables_ok (db owned_state)" "ids_ok (db owned_state)"
  by (simp_all add: owned_state_def tables_ok_def constraints_ok_def ids_ok_def refs_ok_def sample_defs)

lemma vm_requests_keep_tables_witness:
  "tables_ok (db (snd (serve (sample_env agreeing) ''node1'' 101 (sample_user 7 USER) (Ep_Delete True) owned_state)))"
  using vm_requests_keep_tables[OF owned_tables(1)] by blast

section \<open>Other people's VMs\<close>

definition mine :: "database \<Rightarrow> user \<Rightarrow> int set" where
  "mine d u = {vm_id v |v. v \<in> set (vms d) \<and> vm_owner_id v = Some (u_id u)}"

text \<open>What is not the user's is as it was: VMs, their ports and routes, notifications of others, and other tables.\<close>

definition isolated :: "database \<Rightarrow> user \<Rightarrow> database \<Rightarrow> bool" where
  "isolated d0 u d \<longleftrightarrow> u_role u \<noteq> ADMIN \<and> ids_ok d \<and>
     (\<forall>v \<in> set (vms d). vm_id v \<in> mine d0 u \<longleftrightarrow> vm_owner_id v = Some (u_id u)) \<and>
     filter (\<lambda>v. vm_id v \<notin> mine d0 u) (vms d) = filter (\<lambda>v. vm_id v \<notin> mine d0 u) (vms d0) \<and>
     filter (\<lambda>p. p_vm_id p \<notin> mine d0 u) (vm_ports d) = filter (\<lambda>p. p_vm_id p \<notin> mine d0 u) (vm_ports d0) \<and>
     filter (\<lambda>r. r_vm_id r \<notin> mine d0 u) (https_routes d) = filter (\<lambda>r. r_vm_id r \<notin> mine d0 u) (https_routes d0) \<and>
     filter (\<lambda>n. n_user_id n \<noteq> u_id u) (notifications d) = filter (\<lambda>n. n_user_id n \<noteq> u_id u) (notifications d0) \<and>
     users d = users d0 \<and> servers d = servers d0 \<and> jobs d = jobs d0 \<and> verifications d = verifications d0 \<and> faqs d = faqs d0"

lemma rest_update:
  assumes "\<And>x. x \<in> set rows \<Longrightarrow> p x \<Longrightarrow> \<not> q x" and "\<And>x. q (f x) = q x"
  shows "filter q (update_rows p f rows) = filter q rows"
  using assms(1) by (induction rows) (auto simp: update_rows_def assms(2))

lemma rest_delete:
  "(\<And>x. x \<in> set rows \<Longrightarrow> p x \<Longrightarrow> \<not> q x) \<Longrightarrow> filter q (delete_rows p rows) = filter q rows"
  by (auto simp: delete_rows_def intro!: filter_cong)

lemma ports_added_rest:
  "(\<And>p. p \<in> set ps \<Longrightarrow> \<not> q p) \<Longrightarrow> (\<And>p i. q (p\<lparr>p_id := i\<rparr>) = q p) \<Longrightarrow>
     filter q (vm_ports (foldl (\<lambda>w p. add_port p w) d ps)) = filter q (vm_ports d)"
  "verifications (foldl (\<lambda>w p. add_port p w) d ps) = verifications d" "faqs (foldl (\<lambda>w p. add_port p w) d ps) = faqs d"
  by (induction ps arbitrary: d; simp add: add_port_def)+

lemma set_vm_ids: "(\<And>x. vm_id (f x) = vm_id x) \<Longrightarrow> ids_ok d \<Longrightarrow> ids_ok (set_vm i f d)"
  by (auto simp: ids_ok_def set_vm_def map_update_rows set_update_rows)

lemma delete_rows_ids: "ids_ok d \<Longrightarrow> ids_ok (delete_vm_rows v t d)"
  by (auto simp: delete_vm_rows_def ids_ok_ops split: option.split)

interpretation others: vm_row_invariant "isolated d0 u" "mine d0 u" u for d0 u
proof
  fix d vmid node v assume "isolated d0 u d" "find_owned_vm vmid u node d = Some v"
  then show "vm_id v \<in> mine d0 u" by (auto simp: isolated_def find_owned_vm_def dest!: find_Some_iff_mem)
next
  fix d i and f :: "vm \<Rightarrow> vm"
  assume P: "isolated d0 u d" and i: "i \<in> mine d0 u" and f: "\<And>x. vm_id (f x) = vm_id x" "\<And>x. vm_owner_id (f x) = vm_owner_id x"
  have "filter (\<lambda>v. vm_id v \<notin> mine d0 u) (vms (set_vm i f d)) = filter (\<lambda>v. vm_id v \<notin> mine d0 u) (vms d)"
    unfolding set_vm_def using i f(1) by (auto intro: rest_update)
  then show "isolated d0 u (set_vm i f d)"
    using P f by (auto simp: isolated_def set_vm_ids) (auto simp: set_vm_def set_update_rows split: if_splits)
next
  fix d d00 v t vmid node
  assume P: "isolated d0 u d" and v: "find_owned_vm vmid u node d00 = Some v" "vm_id v \<in> mine d0 u"
  have o: "vm_owner_id v = Some (u_id u)"
    using P v(1) by (auto simp: isolated_def find_owned_vm_def dest!: find_Some_iff_mem)
  have gone: "filter (\<lambda>x. vm_id x \<notin> mine d0 u) (delete_rows (\<lambda>x. vm_id x = vm_id v) (vms d)) = filter (\<lambda>x. vm_id x \<notin> mine d0 u) (vms d)"
    "filter (\<lambda>p. p_vm_id p \<notin> mine d0 u) (delete_rows (\<lambda>p. p_vm_id p = vm_id v) (vm_ports d)) =
      filter (\<lambda>p. p_vm_id p \<notin> mine d0 u) (vm_ports d)"
    "filter (\<lambda>r. r_vm_id r \<notin> mine d0 u) (delete_rows (\<lambda>r. r_vm_id r = vm_id v) (https_routes d)) =
      filter (\<lambda>r. r_vm_id r \<notin> mine d0 u) (https_routes d)"
    by (rule rest_delete, use v(2) in simp)+
  have "ids_ok (delete_vm_rows v t d)" using P delete_rows_ids by (simp add: isolated_def)
  then show "isolated d0 u (delete_vm_rows v t d)"
    using P gone by (simp add: isolated_def) (cases "u_id u = 0"; simp add: delete_vm_rows_def o drop_vm_def add_notification_def)
next
  fix d and ps :: "vm_port list"
  assume P: "isolated d0 u d" and ps: "\<And>p. p \<in> set ps \<Longrightarrow> p_vm_id p \<in> mine d0 u"
  then show "isolated d0 u (foldl (\<lambda>w p. add_port p w) d ps)"
    by (auto simp: isolated_def ports_added ids_ports_added ports_added_rest)
next
  fix d i assume "isolated d0 u d" "\<And>p. p \<in> set (vm_ports d) \<Longrightarrow> p_id p = i \<Longrightarrow> p_vm_id p \<in> mine d0 u"
  then show "isolated d0 u (drop_port i d)"
    by (auto simp: isolated_def dropped_ids) (auto simp: drop_port_def rest_delete)
next
  fix d and r :: https_route assume "isolated d0 u d" "r_vm_id r \<in> mine d0 u"
  then show "isolated d0 u (add_route_row r d)"
    by (auto simp: isolated_def dropped_ids) (auto simp: add_route_row_def)
next
  fix d i assume P: "isolated d0 u d" and own: "\<And>r. r \<in> set (https_routes d) \<Longrightarrow> r_id r = i \<Longrightarrow> r_vm_id r \<in> mine d0 u"
  have "filter (\<lambda>r. r_vm_id r \<notin> mine d0 u) (https_routes (set_synced i d)) = filter (\<lambda>r. r_vm_id r \<notin> mine d0 u) (https_routes d)"
    unfolding set_synced_def using own by (auto intro: rest_update)
  then show "isolated d0 u (set_synced i d)"
    using P by (auto simp: isolated_def dropped_ids) (auto simp: set_synced_def)
  show "isolated d0 u (drop_route i d)"
    using P own by (auto simp: isolated_def dropped_ids) (auto simp: drop_route_def rest_delete)
next
  fix d assume "isolated d0 u d"
  then show "ids_ok d" by (simp add: isolated_def)
qed

text \<open>
  C1. Users are isolated from each other. Whatever an ordinary user (or project owner) sends to any of the endpoints on
  VMs, whether the request succeeds, is refused or breaks off half-way, and however the outside answers: the rows of
  every VM that is not his, their forwarded ports and HTTPS routes, and the notifications of others are exactly what
  they were, and so are the tables of users, servers, jobs, codes and questions.
\<close>

theorem vm_requests_isolated:
  assumes "ids_ok (db s)" and "u_role u \<noteq> ADMIN" and "serve e node vmid u ep s = (r, s')"
  shows "filter (\<lambda>v. vm_owner_id v \<noteq> Some (u_id u)) (vms (db s')) = filter (\<lambda>v. vm_owner_id v \<noteq> Some (u_id u)) (vms (db s)) \<and>
     filter (\<lambda>p. p_vm_id p \<notin> mine (db s) u) (vm_ports (db s')) = filter (\<lambda>p. p_vm_id p \<notin> mine (db s) u) (vm_ports (db s)) \<and>
     filter (\<lambda>q. r_vm_id q \<notin> mine (db s) u) (https_routes (db s')) = filter (\<lambda>q. r_vm_id q \<notin> mine (db s) u) (https_routes (db s)) \<and>
     filter (\<lambda>n. n_user_id n \<noteq> u_id u) (notifications (db s')) = filter (\<lambda>n. n_user_id n \<noteq> u_id u) (notifications (db s)) \<and>
     users (db s') = users (db s) \<and> servers (db s') = servers (db s) \<and> jobs (db s') = jobs (db s) \<and>
     verifications (db s') = verifications (db s) \<and> faqs (db s') = faqs (db s)"
proof -
  have own: "vm_id v \<in> mine (db s) u \<longleftrightarrow> vm_owner_id v = Some (u_id u)" if "v \<in> set (vms (db s))" for v
    using assms(1) that by (auto simp: mine_def ids_ok_def distinct_map dest: inj_onD)
  then have "isolated (db s) u (db s)" using assms(1,2) by (auto simp: isolated_def)
  then have iso: "isolated (db s) u (db s')"
    using others.served[of "db s" u e node vmid ep] assms(3) unfolding db_inv_def by (metis snd_conv)
  have "filter (\<lambda>v. vm_owner_id v \<noteq> Some (u_id u)) (vms (db s')) = filter (\<lambda>v. vm_id v \<notin> mine (db s) u) (vms (db s'))"
    "filter (\<lambda>v. vm_owner_id v \<noteq> Some (u_id u)) (vms (db s)) = filter (\<lambda>v. vm_id v \<notin> mine (db s) u) (vms (db s))"
    by (rule filter_cong[OF refl], use iso own in \<open>simp add: isolated_def\<close>)+
  then show ?thesis using iso by (simp add: isolated_def)
qed

text \<open>The user 7 tries to delete the VM of the user 8, which is on the same node.\<close>

lemma vm_requests_isolated_witness:
  "\<exists>v \<in> set (vms (db (snd (serve (sample_env agreeing) ''node1'' 102 (sample_user 7 USER) (Ep_Delete True) owned_state)))).
     vm_id v = 2"
proof -
  obtain r s' where run: "serve (sample_env agreeing) ''node1'' 102 (sample_user 7 USER) (Ep_Delete True) owned_state = (r, s')"
    by fastforce
  have role: "u_role (sample_user 7 USER) \<noteq> ADMIN" by (simp add: sample_user_def)
  have "filter (\<lambda>v. vm_owner_id v \<noteq> Some 7) (vms (db owned_state)) = [sample_vm 2 (Some 8)]"
    by (simp add: owned_state_def sample_defs)
  with conjunct1[OF vm_requests_isolated[OF owned_tables(2) role run]]
  have "filter (\<lambda>v. vm_owner_id v \<noteq> Some 7) (vms (db s')) = [sample_vm 2 (Some 8)]" by (simp add: sample_user_def)
  then have "sample_vm 2 (Some 8) \<in> set (vms (db s'))" by (metis filter_is_subset list.set_intros(1) subsetD)
  then show ?thesis unfolding run by (intro bexI[of _ "sample_vm 2 (Some 8)"]) (simp_all add: sample_vm_def)
qed

end
