(* ===== verification/OwnCalls.thy ===== *)
theory OwnCalls
  imports Isolation
begin

text \<open>
  What the endpoints on one VM do outside the tables: every command they send to a Proxmox node about a VM is about
  the VM that was looked up for the caller. The rules here follow a run up to the look-up, where the state still
  matters; after it the calls of a program are bounded whatever the state (\<open>logs\<close>).
\<close>

section \<open>The VM a call is about\<close>

fun pve_target :: "call \<Rightarrow> (string \<times> int) option" where
  "pve_target (PveVmStatus n i) = Some (n, i)"
| "pve_target (PveVmConfig n i) = Some (n, i)"
| "pve_target (PveConfigPut n i _) = Some (n, i)"
| "pve_target (PveResizePut n i _ _) = Some (n, i)"
| "pve_target (PveVmDelete n i _) = Some (n, i)"
| "pve_target (PvePower n i _) = Some (n, i)"
| "pve_target (PveSnapshotList n i) = Some (n, i)"
| "pve_target (PveSnapshotPost n i _ _) = Some (n, i)"
| "pve_target (PveSnapshotRollback n i _) = Some (n, i)"
| "pve_target (PveSnapshotDelete n i _) = Some (n, i)"
| "pve_target (PveAgentExec n i) = Some (n, i)"
| "pve_target (PveAgentExecStatus n i _) = Some (n, i)"
| "pve_target (PveFirewallPost n i _) = Some (n, i)"
| "pve_target (PveFirewallDelete n i _) = Some (n, i)"
| "pve_target (PveFirewallEnable n i) = Some (n, i)"
| "pve_target (PveFirewallList n i) = Some (n, i)"
| "pve_target (PveRrd n i _) = Some (n, i)"
| "pve_target _ = None"

text \<open>The calls that name no VM and that a request on a VM may make: the tables, connecting, the gateway, Caddy.\<close>

definition shared_calls :: "call set" where
  "shared_calls = insert DbCommit (range PveConnect) \<union> gateway_calls \<union> caddy_calls"

definition calls_on :: "string \<Rightarrow> int \<Rightarrow> call set" where
  "calls_on n i = shared_calls \<union> {c. pve_target c = Some (n, i)}"

lemma calls_on_mem [simp]:
  "DbCommit \<in> calls_on n i" "PveConnect j \<in> calls_on n i" "pve_target c = Some (n, i) \<Longrightarrow> c \<in> calls_on n i"
  by (simp_all add: calls_on_def shared_calls_def)

lemma outside_calls: "gateway_calls \<subseteq> calls_on n i" "caddy_calls \<subseteq> calls_on n i"
  by (auto simp: calls_on_def shared_calls_def)

lemma logs_outside [logs_intros]:
  "logs (calls_on n i) (manage_iptables e srv j ip act)"
  "logs (calls_on n i) (manage_custom_iptables e srv ip p0 x p act src)"
  "logs (calls_on n i) (add_route e sd ip port)" "logs (calls_on n i) (delete_route e sd)"
  by (rule logs_mono[OF logs_manage_iptables outside_calls(1)] logs_mono[OF logs_manage_custom outside_calls(1)]
      logs_mono[OF logs_add_route outside_calls(2)] logs_mono[OF logs_delete_route outside_calls(2)])+

section \<open>Runs up to the look-up\<close>

definition adds_calls :: "call set \<Rightarrow> (sys, 'a) prog \<Rightarrow> sys \<Rightarrow> bool" where
  "adds_calls A m s \<longleftrightarrow> (\<exists>xs. calls (snd (m s)) = calls s @ xs \<and> set xs \<subseteq> A)"

named_theorems adds_intros "the calls that a run from a given state makes"

lemma adds_logs: "logs A m \<Longrightarrow> adds_calls A m s"
  by (simp add: logs_def adds_calls_def)

lemma adds_refused: "snd (m s) = s \<Longrightarrow> adds_calls A m s"
  by (simp add: adds_calls_def)

lemma adds_after:
  "m s = (Inr x, s) \<Longrightarrow> adds_calls A (k x) s \<Longrightarrow> adds_calls A (seq m k) s"
  "m s = (Inl ex, s) \<Longrightarrow> adds_calls A (seq m k) s"
  by (auto simp: adds_calls_def seq_def)

lemma adds_lift [adds_intros]: "(\<And>x. r = Inr x \<Longrightarrow> adds_calls A (k x) s) \<Longrightarrow> adds_calls A (seq (lift r) k) s"
  by (cases r) (auto simp: lift_def ret_def raise_def intro: adds_after)

lemma adds_raise_if [adds_intros]:
  "(\<not> b \<Longrightarrow> adds_calls A (k ()) s) \<Longrightarrow> adds_calls A (seq (raise_if b x) k) s"
  by (cases b) (auto simp: raise_if_def ret_def raise_def intro: adds_after)

lemma adds_now [adds_intros]: "adds_calls A (k (clk s)) s \<Longrightarrow> adds_calls A (seq now k) s"
  by (rule adds_after) (simp add: now_def)

lemma adds_gets [adds_intros]: "adds_calls A (k (g s)) s \<Longrightarrow> adds_calls A (seq (gets g) k) s"
  by (rule adds_after) (simp add: gets_def)

lemma adds_quietly [adds_intros]: "adds_calls A m s \<Longrightarrow> adds_calls A (quietly m) s"
  by (auto simp: adds_calls_def quietly_def seq_def ret_def split: prod.split sum.split)

lemma adds_get_vm [adds_intros]:
  assumes "\<And>v. find_owned_vm vmid u node (db s) = Some v \<Longrightarrow> adds_calls A (k v) s"
  shows "adds_calls A (seq (get_vm_with_owner_check vmid u node) k) s"
proof (cases "find_owned_vm vmid u node (db s)")
  case None
  then have "get_vm_with_owner_check vmid u node s = (Inl (Http 404 ''vm-not-found''), s)"
    by (simp add: get_vm_with_owner_check_def seq_def gets_def raise_def)
  then show ?thesis by (rule adds_after)
next
  case (Some v)
  then have "get_vm_with_owner_check vmid u node s = (Inr v, s)" by (simp add: get_vm_Inr_iff)
  then show ?thesis by (rule adds_after) (rule assms[OF Some])
qed

lemma adds_vm_server [adds_intros]:
  assumes "\<And>srv. find (\<lambda>r. srv_id r = vm_server_id v) (servers (db s)) = Some srv \<Longrightarrow> adds_calls A (k srv) s"
  shows "adds_calls A (seq (vm_server v) k) s"
proof (cases "find (\<lambda>r. srv_id r = vm_server_id v) (servers (db s))")
  case None
  then have "vm_server v s = (Inl AttributeError, s)" by (simp add: vm_server_def seq_def gets_def raise_def)
  then show ?thesis by (rule adds_after)
next
  case (Some srv)
  then have "vm_server v s = (Inr srv, s)" by (simp add: vm_server_Inr_iff)
  then show ?thesis by (rule adds_after) (rule assms[OF Some])
qed

text \<open>The look-up with its server: from there on the VM is the one that was asked for.\<close>

definition owned_at :: "database \<Rightarrow> user \<Rightarrow> string \<Rightarrow> int \<Rightarrow> vm \<Rightarrow> server \<Rightarrow> bool" where
  "owned_at d u node vmid v srv \<longleftrightarrow> find_owned_vm vmid u (Some node) d = Some v \<and>
     find (\<lambda>r. srv_id r = vm_server_id v) (servers d) = Some srv"

lemma adds_with_vm [adds_intros]:
  assumes "\<And>v srv. owned_at (db s) u node vmid v srv \<Longrightarrow> logs A (k v srv)" and "\<And>j. PveConnect j \<in> A"
  shows "adds_calls A (with_vm e vmid u node k) s"
  unfolding with_vm_def
  by (intro adds_intros adds_logs logs_intros assms) (simp add: owned_at_def)

lemma owned_atD: "owned_at d u node vmid v srv \<Longrightarrow> v \<in> set (vms d) \<and> srv \<in> set (servers d) \<and>
    srv_id srv = vm_server_id v \<and> vm_vmid v = vmid \<and> (u_role u \<noteq> ADMIN \<longrightarrow> vm_owner_id v = Some (u_id u))"
  by (auto simp: owned_at_def find_owned_vm_def dest!: find_Some_iff_mem)

section \<open>The endpoints\<close>

definition calls_owned :: "database \<Rightarrow> user \<Rightarrow> string \<Rightarrow> int \<Rightarrow> call set" where
  "calls_owned d u node vmid =
     shared_calls \<union> {c. \<exists>v srv. owned_at d u node vmid v srv \<and> pve_target c = Some (srv_name srv, vmid)}"

lemma on_owned: "owned_at d u node vmid v srv \<Longrightarrow> calls_on (srv_name srv) vmid \<subseteq> calls_owned d u node vmid"
  by (auto simp: calls_on_def calls_owned_def)

lemma owned_mem [simp]: "DbCommit \<in> calls_owned d u node vmid" "PveConnect j \<in> calls_owned d u node vmid"
  by (simp_all add: calls_owned_def shared_calls_def)

lemma logs_owned: "owned_at d u node vmid v srv \<Longrightarrow> logs (calls_on (srv_name srv) vmid) m \<Longrightarrow> logs (calls_owned d u node vmid) m"
  by (rule logs_mono[OF _ on_owned])

lemma logs_save_vm [logs_intros]: "DbCommit \<in> A \<Longrightarrow> logs A (save_vm e v f)"
  unfolding save_vm_def by (intro logs_intros)

lemma logs_boot_on [logs_intros]:
  "logs (calls_on n i) (check_cloud_init_provisioning e n i c)" "logs (calls_on n i) (boot_gate e n i c a)"
proof -
  show init: "logs (calls_on n i) (check_cloud_init_provisioning e n i c)"
    unfolding check_cloud_init_provisioning_def by (intro logs_intros) simp_all
  show "logs (calls_on n i) (boot_gate e n i c a)"
    unfolding boot_gate_def by (intro logs_intros init) simp_all
qed

lemma logs_delete_vm_parts [logs_intros]:
  "logs (calls_on n i) (stop_if_running e n i)" "logs (calls_on n i) (remove_rules e srv v d)"
  "logs (calls_on n i) (remove_routes e v d)"
  unfolding stop_if_running_def remove_rules_def remove_port_rules_def remove_routes_def
  by (intro logs_intros; simp)+

lemma logs_port_parts [logs_intros]:
  "logs (calls_on n i) (pick_port e)" "logs (calls_on n i) (book_port e row)" "logs (calls_on n i) (unbook_port e j x)"
  "logs (calls_on n i) (forward_port e v b external j)" "logs (calls_on n i) (forward_default e srv v row)"
  "logs (calls_on n i) (unforward e v p)"
proof -
  show unbook: "logs (calls_on n i) (unbook_port e j x)" for j and x :: exn
    unfolding unbook_port_def by (intro logs_intros) simp
  show "logs (calls_on n i) (pick_port e)"
    unfolding pick_port_def allocate_random_port_def
    by (intro logs_intros logs_keeps) (rule keeps_calls_random)
  show "logs (calls_on n i) (book_port e row)"
    unfolding book_port_def by (intro logs_intros) simp
  show "logs (calls_on n i) (forward_port e v b external j)"
    unfolding forward_port_def by (intro logs_intros unbook)
  show "logs (calls_on n i) (forward_default e srv v row)" "logs (calls_on n i) (unforward e v p)"
    unfolding forward_default_def unforward_def by (intro logs_intros)+
qed

lemma reads_own:
  "adds_calls (calls_owned (db s) u node vmid) (get_vm_status e node vmid u) s"
  "adds_calls (calls_owned (db s) u node vmid) (get_vm_metrics e node vmid tf u) s"
  "adds_calls (calls_owned (db s) u node vmid) (resize_vm e node vmid r u) s"
  "adds_calls (calls_owned (db s) u node vmid) (list_snapshots e node vmid u) s"
  "adds_calls (calls_owned (db s) u node vmid) (create_snapshot e node vmid n descr u) s"
  "adds_calls (calls_owned (db s) u node vmid) (rollback_snapshot e node vmid n u) s"
  "adds_calls (calls_owned (db s) u node vmid) (delete_snapshot e node vmid n u) s"
  "adds_calls (calls_owned (db s) u node vmid) (get_firewall_rules e node vmid u) s"
  "adds_calls (calls_owned (db s) u node vmid) (add_firewall_rule e node vmid fr u) s"
  "adds_calls (calls_owned (db s) u node vmid) (delete_firewall_rule e node vmid pos u) s"
  unfolding get_vm_status_def get_vm_metrics_def resize_vm_def list_snapshots_def create_snapshot_def
    rollback_snapshot_def delete_snapshot_def get_firewall_rules_def add_firewall_rule_def delete_firewall_rule_def Let_def
  by (intro adds_intros; (intro owned_mem)?; (rule logs_owned, assumption)?; intro logs_intros; simp)+

lemma control_owned: "adds_calls (calls_owned (db s) u node vmid) (control_vm e node vmid a u) s"
  unfolding control_vm_def
proof (intro adds_intros)
  fix v srv assume "find_owned_vm vmid u (Some node) (db s) = Some v"
    and "find (\<lambda>r. srv_id r = vm_server_id v) (servers (db s)) = Some srv"
  then have o: "owned_at (db s) u node vmid v srv" by (simp add: owned_at_def)
  show "adds_calls (calls_owned (db s) u node vmid) (seq (get_proxmox_for_server e srv) (\<lambda>_.
     seq (boot_gate e (srv_name srv) vmid (vm_created_at v) a) (\<lambda>_.
     pve_try ''server-error'' (ext e (PvePower (srv_name srv) vmid a))))) s"
    by (rule adds_logs, rule logs_owned[OF o]) (intro logs_intros; simp)
qed

lemma delete_owned: "adds_calls (calls_owned (db s) u node vmid) (delete_vm_endpoint e node vmid purge u) s"
  unfolding delete_vm_endpoint_def delete_vm_def
proof (intro adds_intros)
  fix v assume v: "find_owned_vm vmid u (Some node) (db s) = Some v"
  show "adds_calls (calls_owned (db s) u node vmid)
     (case find (\<lambda>r. srv_id r = vm_server_id v) (servers (db s)) of None \<Rightarrow> raise AttributeError
      | Some srv \<Rightarrow> seq (get_proxmox_for_server e srv) (\<lambda>_. catch
         (seq (stop_if_running e (srv_name srv) (vm_vmid v)) (\<lambda>_.
          seq (ext e (PveVmDelete (srv_name srv) (vm_vmid v) purge)) (\<lambda>_.
          seq (gets db) (\<lambda>d. seq (remove_rules e srv v d) (\<lambda>_. seq (remove_routes e v d) (\<lambda>_.
          seq now (\<lambda>t. seq (gets db) (\<lambda>d'. commit e (delete_vm_rows v t d')))))))))
         (\<lambda>_. raise (Http 500 ''delete-failed'')))) s"
  proof (cases "find (\<lambda>r. srv_id r = vm_server_id v) (servers (db s))")
    case None
    then show ?thesis by (simp add: adds_refused raise_def)
  next
    case (Some srv)
    then have o: "owned_at (db s) u node vmid v srv" using v by (simp add: owned_at_def)
    have i: "vm_vmid v = vmid" using owned_atD[OF o] by simp
    show ?thesis
      unfolding Some option.case i
      by (rule adds_logs, rule logs_owned[OF o]) (intro logs_intros; simp)
  qed
qed

text \<open>The other endpoints talk to the gateway and Caddy only; they are bounded from any state.\<close>

lemma rest_shared:
  "logs (calls_on n i) (update_vm_purpose e node vmid p u)" "logs (calls_on n i) (extend_vm e node vmid u)"
  "logs (calls_on n i) (get_auto_snapshot node vmid u)" "logs (calls_on n i) (toggle_auto_snapshot e node vmid u)"
  "logs (calls_on n i) (get_custom_ports node vmid u)" "logs (calls_on n i) (add_custom_port e node vmid b u)"
  "logs (calls_on n i) (restore_default_ports e node vmid u)" "logs (calls_on n i) (delete_custom_port e node vmid j u)"
  "logs (calls_on n i) (get_forwarded_ports node vmid u)" "logs (calls_on n i) (get_https_routes e node vmid u)"
  "logs (calls_on n i) (add_https_route e node vmid rc u)" "logs (calls_on n i) (delete_https_route e node vmid j u)"
  unfolding update_vm_purpose_def extend_vm_def get_auto_snapshot_def toggle_auto_snapshot_def get_custom_ports_def
    add_custom_port_def restore_default_ports_def delete_custom_port_def get_forwarded_ports_def get_https_routes_def
    add_https_route_def delete_https_route_def
  by (intro logs_intros; simp)+

text \<open>What is bounded by the calls on any VM makes none on a VM.\<close>

lemma logs_on_any:
  assumes "\<And>n i. logs (calls_on n i) m"
  shows "logs shared_calls m"
  unfolding logs_def
proof
  fix s
  from assms[of "[]" 0] obtain xs where xs: "calls (snd (m s)) = calls s @ xs" unfolding logs_def by blast
  have "set xs \<subseteq> calls_on n i" for n i using assms[of n i] xs unfolding logs_def by (metis same_append_eq)
  then have "c \<in> calls_on [] 0 \<inter> calls_on [] 1" if "c \<in> set xs" for c using that by blast
  then have "set xs \<subseteq> shared_calls" by (fastforce simp: calls_on_def)
  then show "\<exists>xs. calls (snd (m s)) = calls s @ xs \<and> set xs \<subseteq> shared_calls" using xs by blast
qed

lemma rest_own: "(\<And>n i. logs (calls_on n i) m) \<Longrightarrow> adds_calls (calls_owned d u node vmid) m s"
  by (rule adds_logs, rule logs_mono[OF logs_on_any]) (simp_all add: calls_owned_def)

lemma serve_own: "adds_calls (calls_owned (db s) u node vmid) (serve e node vmid u ep) s"
  by (cases ep; simp only: serve.simps; (rule adds_quietly)?; (rule reads_own control_owned delete_owned | rule rest_own, rule rest_shared))

text \<open>
  C2. A request reaches only the VM it names, and only if that is the caller's. Whatever endpoint is called with
  whatever input, and whether it succeeds or breaks off: every command that it sends to Proxmox about a VM (its state
  and metrics, power, configuration, snapshots, firewall, the guest agent, deletion) carries the requested id and the node of a
  VM row with that id, which for anybody but an administrator is a row of the caller's own. All other calls
  are commits, connecting, and the calls to the gateway and to Caddy.
\<close>

theorem vm_requests_call_own:
  assumes "serve e node vmid u ep s = (r, s')"
  shows "\<exists>xs. calls s' = calls s @ xs \<and> (\<forall>c \<in> set xs.
     c = DbCommit \<or> (\<exists>i. c = PveConnect i) \<or> c \<in> gateway_calls \<or> c \<in> caddy_calls \<or>
     (\<exists>v \<in> set (vms (db s)). \<exists>srv \<in> set (servers (db s)).
        vm_vmid v = vmid \<and> srv_id srv = vm_server_id v \<and> pve_target c = Some (srv_name srv, vmid) \<and>
        (u_role u \<noteq> ADMIN \<longrightarrow> vm_owner_id v = Some (u_id u))))"
proof -
  obtain xs where xs: "calls s' = calls s @ xs" "set xs \<subseteq> calls_owned (db s) u node vmid"
    using serve_own[of s u node vmid e ep] assms by (auto simp: adds_calls_def)
  show ?thesis
  proof (intro exI[of _ xs] conjI ballI xs(1))
    fix c assume "c \<in> set xs"
    with xs(2) consider "c \<in> shared_calls"
      | v srv where "owned_at (db s) u node vmid v srv" "pve_target c = Some (srv_name srv, vmid)"
      by (auto simp: calls_owned_def)
    then show "c = DbCommit \<or> (\<exists>i. c = PveConnect i) \<or> c \<in> gateway_calls \<or> c \<in> caddy_calls \<or>
     (\<exists>v \<in> set (vms (db s)). \<exists>srv \<in> set (servers (db s)).
        vm_vmid v = vmid \<and> srv_id srv = vm_server_id v \<and> pve_target c = Some (srv_name srv, vmid) \<and>
        (u_role u \<noteq> ADMIN \<longrightarrow> vm_owner_id v = Some (u_id u)))"
    proof cases
      case 1
      then show ?thesis by (auto simp: shared_calls_def)
    next
      case 2
      from owned_atD[OF 2(1)] show ?thesis
        by (intro disjI2 bexI[of _ v] bexI[of _ srv] conjI) (simp_all add: 2(2))
    qed
  qed
qed

text \<open>The user 7 snapshots his VM 101, and tries the VM 102 of somebody else.\<close>

lemma vm_requests_call_own_witness:
  "let run = (\<lambda>vmid. serve (sample_env agreeing) ''node1'' vmid (sample_user 7 USER) (Ep_Snapshot_Delete ''a'') owned_state) in
   PveSnapshotDelete ''node1'' 101 ''a'' \<in> set (calls (snd (run 101))) \<and>
   (\<forall>c \<in> set (calls (snd (run 102))). pve_target c = None)"
proof -
  let ?run = "\<lambda>vmid. serve (sample_env agreeing) ''node1'' vmid (sample_user 7 USER) (Ep_Snapshot_Delete ''a'') owned_state"
  have pve: "pve_target c = None" if "c \<in> gateway_calls \<union> caddy_calls" for c
    using that by (cases c) (auto simp: gateway_calls_def caddy_calls_def)
  obtain r s' where run: "?run 102 = (r, s')" by fastforce
  have none: "\<not> (\<exists>v \<in> set (vms (db owned_state)). vm_vmid v = 102 \<and> vm_owner_id v = Some 7)"
    by (simp add: owned_state_def sample_defs)
  have "calls owned_state = []" "u_role (sample_user 7 USER) \<noteq> ADMIN" "u_id (sample_user 7 USER) = 7"
    by (simp_all add: owned_state_def sample_defs)
  with vm_requests_call_own[OF run] none have "\<forall>c \<in> set (calls s'). pve_target c = None"
    using pve by fastforce
  moreover have "PveSnapshotDelete ''node1'' 101 ''a'' \<in> set (calls (snd (?run 101)))"
    by code_simp
  ultimately show ?thesis using run by simp
qed

end
