(* ===== verification/Accounts.thy ===== *)
theory Accounts
  imports Sessions Oauth
begin

text \<open>
  The account endpoints as a whole: the request bodies of \<open>schemas/user_schema.py\<close> with their validation, the
  endpoints of \<open>auth.py\<close> and \<open>oauth.py\<close> behind it as one table, and what all of them keep: where password hashes
  come from, and who can become an administrator or an active project owner. Which operations on the rows they use
  is an interface, as for the endpoints on VMs.
\<close>

section \<open>Bodies (user_schema.py)\<close>

text \<open>
  \<open>em\<close> is pydantic's \<open>EmailStr\<close>: the normalized address, or None for what is no address. A body is what JSON
  gives; the value that is returned is what the endpoint sees.
\<close>

definition email_str :: "(string \<Rightarrow> string option) \<Rightarrow> string \<Rightarrow> exn + string" where
  "email_str em v = (case em v of None \<Rightarrow> Inl (ValueError ''bad-email'') | Some x \<Rightarrow> Inr x)"

record user_create =
  uc_email :: string
  uc_password :: string

definition user_create_body :: "(string \<Rightarrow> string option) \<Rightarrow> user_create \<Rightarrow> exn + user_create" where
  "user_create_body em b =
     andthen (email_str em (uc_email b)) (\<lambda>m.
     andthen (validate_pw (uc_password b)) (\<lambda>p. Inr \<lparr>uc_email = m, uc_password = p\<rparr>))"

definition project_signup_body :: "(string \<Rightarrow> string option) \<Rightarrow> project_signup \<Rightarrow> exn + project_signup" where
  "project_signup_body em b =
     andthen (email_str em (ps_email b)) (\<lambda>m.
     andthen (validate_pw (ps_password b)) (\<lambda>p. Inr (b\<lparr>ps_email := m, ps_password := p\<rparr>)))"

record verify_code_request =
  vc_email :: string
  vc_code :: string

definition verify_code_body :: "(string \<Rightarrow> string option) \<Rightarrow> verify_code_request \<Rightarrow> exn + verify_code_request" where
  "verify_code_body em b = andthen (email_str em (vc_email b)) (\<lambda>m. Inr (b\<lparr>vc_email := m\<rparr>))"

text \<open>\<open>login_role\<close> is \<open>user\<close> when the body leaves it out.\<close>

record reset_request =
  rr_email :: string
  rr_login_role :: "string option"

definition login_role_of :: "string option \<Rightarrow> string" where
  "login_role_of r = (case r of None \<Rightarrow> ''user'' | Some x \<Rightarrow> x)"

definition reset_request_body :: "(string \<Rightarrow> string option) \<Rightarrow> reset_request \<Rightarrow> exn + string \<times> string" where
  "reset_request_body em b =
     andthen (email_str em (rr_email b)) (\<lambda>m.
     andthen (validate_login_role (login_role_of (rr_login_role b))) (\<lambda>r. Inr (m, r)))"

record reset_confirm =
  rc_email :: string
  rc_code :: string
  rc_new_password :: string
  rc_login_role :: "string option"

definition reset_confirm_body :: "(string \<Rightarrow> string option) \<Rightarrow> reset_confirm \<Rightarrow> exn + string \<times> string \<times> string \<times> string" where
  "reset_confirm_body em b =
     andthen (email_str em (rc_email b)) (\<lambda>m.
     andthen (validate_pw (rc_new_password b)) (\<lambda>p.
     andthen (validate_login_role (login_role_of (rc_login_role b))) (\<lambda>r. Inr (m, rc_code b, p, r))))"

record change_request =
  ch_current :: string
  ch_new_password :: string

definition change_password_body :: "change_request \<Rightarrow> exn + change_request" where
  "change_password_body b = andthen (validate_pw (ch_new_password b)) (\<lambda>p. Inr (b\<lparr>ch_new_password := p\<rparr>))"

text \<open>\<open>RefreshRequest\<close>: the body may be left out, and its token is empty when it is left out.\<close>

definition refresh_body :: "string option option \<Rightarrow> string option" where
  "refresh_body b = (case b of None \<Rightarrow> None | Some None \<Rightarrow> Some [] | Some (Some t) \<Rightarrow> Some t)"

section \<open>The endpoints\<close>

datatype account_endpoint =
    Ac_Signup user_create
  | Ac_Project_Check string
  | Ac_Project_Signup project_signup
  | Ac_Verify verify_code_request
  | Ac_Resend string
  | Ac_Approvals
  | Ac_Approve int
  | Ac_Reject int
  | Ac_Login string string "string option"
  | Ac_Refresh "string option" "string option option"
  | Ac_Reset_Request reset_request
  | Ac_Reset_Confirm reset_confirm
  | Ac_Change_Password change_request
  | Ac_Avatar upload
  | Ac_Avatar_Delete
  | Ac_Datagsm string pkce_entry

definition silently :: "(sys, 'a) prog \<Rightarrow> (sys, unit) prog" where
  "silently m = seq m (\<lambda>_. ret ())"

text \<open>What lies outside the source: EmailStr, the text of a JSON value, the working directory, the page limit.\<close>

record account_env =
  ae_email :: "string \<Rightarrow> string option"
  ae_repr :: "json \<Rightarrow> string"
  ae_cwd :: "string list"
  ae_pages :: nat

fun account_request :: "crypto \<Rightarrow> env \<Rightarrow> account_env \<Rightarrow> user \<Rightarrow> account_endpoint \<Rightarrow> (sys, unit) prog" where
  "account_request cr e a u (Ac_Signup b) =
     seq (lift (user_create_body (ae_email a) b)) (\<lambda>b. signup cr e (uc_email b) (uc_password b))"
| "account_request cr e a u (Ac_Project_Check m) =
     seq (lift (email_str (ae_email a) m)) (\<lambda>m. silently (check_project_eligibility e (ae_pages a) m))"
| "account_request cr e a u (Ac_Project_Signup b) =
     seq (lift (project_signup_body (ae_email a) b)) (\<lambda>b. signup_project cr e (ae_pages a) b)"
| "account_request cr e a u (Ac_Verify b) =
     seq (lift (verify_code_body (ae_email a) b)) (\<lambda>b. silently (verify_email cr e (vc_email b) (vc_code b)))"
| "account_request cr e a u (Ac_Resend m) =
     seq (lift (email_str (ae_email a) m)) (\<lambda>m. resend_code e m)"
| "account_request cr e a u Ac_Approvals = silently (get_pending_approvals u)"
| "account_request cr e a u (Ac_Approve i) = approve_project_owner e i u"
| "account_request cr e a u (Ac_Reject i) = reject_project_owner e i u"
| "account_request cr e a u (Ac_Login m p r) = silently (login cr e m p (login_role_of r))"
| "account_request cr e a u (Ac_Refresh ck b) = silently (refresh_token cr e ck (refresh_body b))"
| "account_request cr e a u (Ac_Reset_Request b) =
     seq (lift (reset_request_body (ae_email a) b)) (\<lambda>(m, r). silently (request_password_reset e m r))"
| "account_request cr e a u (Ac_Reset_Confirm b) =
     seq (lift (reset_confirm_body (ae_email a) b)) (\<lambda>(m, c, p, r). confirm_password_reset cr e m c p r)"
| "account_request cr e a u (Ac_Change_Password b) =
     seq (lift (change_password_body b)) (\<lambda>b. change_password cr e (ch_current b) (ch_new_password b) u)"
| "account_request cr e a u (Ac_Avatar f) = silently (upload_avatar e (ae_cwd a) f u)"
| "account_request cr e a u Ac_Avatar_Delete = delete_avatar e (ae_cwd a) u"
| "account_request cr e a u (Ac_Datagsm c en) = silently (datagsm_login (ae_repr a) e c en)"

section \<open>Accepted bodies\<close>

lemma validate_pw_Inr: "validate_pw v = Inr p \<longleftrightarrow> p = v \<and> match_dollar pw_line v \<and> length v \<le> MAX_PASSWORD_BYTES"
  by (auto simp: validate_pw_def)

lemma policy_hashes: "validate_pw v = Inr p \<Longrightarrow> get_password_hash cr e p s =
    (Inr (hashpw cr p (entropy e (rng s))), s\<lparr>rng := rng s + 1\<rparr>)"
  by (simp add: validate_pw_Inr MAX_PASSWORD_BYTES_def get_password_hash_def)

lemma login_role_known: "validate_login_role r = Inr r' \<Longrightarrow> \<exists>role. map_of RESET_ROLE_MAP r' = Some role"
  by (auto simp: validate_login_role_def RESET_ROLES_def RESET_ROLE_MAP_def split: if_splits)

text \<open>
  A body that passes its schema is one the endpoint can work with: the address is the normalized one,
  the password is what was sent, obeys the policy and never makes the hash function raise; and the role of a reset
  is one the endpoints know, so that looking up its account cannot raise either.
\<close>

theorem accepted_bodies_are_safe:
  "(user_create_body em b = Inr b' \<longrightarrow> em (uc_email b) = Some (uc_email b') \<and> uc_password b' = uc_password b \<and>
      match_dollar pw_line (uc_password b') \<and> (\<exists>h. fst (get_password_hash cr e (uc_password b') s) = Inr h)) \<and>
   (project_signup_body em q = Inr q' \<longrightarrow> em (ps_email q) = Some (ps_email q') \<and> ps_password q' = ps_password q \<and>
      match_dollar pw_line (ps_password q') \<and> (\<exists>h. fst (get_password_hash cr e (ps_password q') s) = Inr h)) \<and>
   (reset_confirm_body em c = Inr (m, code, p, role) \<longrightarrow> em (rc_email c) = Some m \<and> p = rc_new_password c \<and>
      match_dollar pw_line p \<and> (\<exists>h. fst (get_password_hash cr e p s) = Inr h) \<and>
      (\<forall>d. \<exists>a. reset_account d m role = Inr a)) \<and>
   (change_password_body k = Inr k' \<longrightarrow> ch_new_password k' = ch_new_password k \<and>
      match_dollar pw_line (ch_new_password k') \<and> (\<exists>h. fst (get_password_hash cr e (ch_new_password k') s) = Inr h))"
  by (intro conjI impI)
    (auto simp: user_create_body_def project_signup_body_def reset_confirm_body_def change_password_body_def email_str_def
      andthen_Inr_iff policy_hashes validate_pw_Inr reset_account_def dest!: login_role_known split: option.splits)

text \<open>A body with a proper password and no role, which is a reset for an ordinary user.\<close>

lemma accepted_bodies_are_safe_witness:
  "reset_confirm_body (\<lambda>m. Some (py_lower m)) \<lparr>rc_email = ''S7@gsm.hs.kr'', rc_code = ''123456'', rc_new_password = ''abcd123!'',
       rc_login_role = None\<rparr> = Inr (''s7@gsm.hs.kr'', ''123456'', ''abcd123!'', ''user'') \<and>
   reset_account empty_database ''s7@gsm.hs.kr'' ''user'' = Inr None"
proof -
  have body: "reset_confirm_body (\<lambda>m. Some (py_lower m)) \<lparr>rc_email = ''S7@gsm.hs.kr'', rc_code = ''123456'',
       rc_new_password = ''abcd123!'', rc_login_role = None\<rparr> = Inr (''s7@gsm.hs.kr'', ''123456'', ''abcd123!'', ''user'')"
    by code_simp
  with accepted_bodies_are_safe[of "\<lambda>m. Some (py_lower m)"]
  obtain a where "reset_account empty_database ''s7@gsm.hs.kr'' ''user'' = Inr a" by blast
  then show ?thesis using body by (auto simp: reset_account_def active_user_def empty_database_def RESET_ROLE_MAP_def)
qed

section \<open>Invariants the row operations keep\<close>

text \<open>A hash that was made of a password which obeys the policy; the empty one of a reset code opens nothing.\<close>

definition policy_hash :: "crypto \<Rightarrow> string \<Rightarrow> bool" where
  "policy_hash cr h \<longleftrightarrow> h = [] \<or> (\<exists>pw salt. match_dollar pw_line pw \<and> length pw \<le> MAX_PASSWORD_BYTES \<and> h = hashpw cr pw salt)"

lemma policy_hash_made: "validate_pw v = Inr p \<Longrightarrow> policy_hash cr (hashpw cr v salt)"
  by (auto simp: policy_hash_def validate_pw_Inr)

lemma db_inv_lift_seq: "(\<And>x. r = Inr x \<Longrightarrow> db_inv P (k x)) \<Longrightarrow> db_inv P (seq (lift r) k)"
  by (cases r) (simp_all add: db_inv_def seq_def lift_def ret_def raise_def)

lemma db_inv_raise_if_seq: "(\<not> b \<Longrightarrow> db_inv P (k ())) \<Longrightarrow> db_inv P (seq (raise_if b x) k)"
  by (cases b) (simp_all add: db_inv_def seq_def raise_if_def ret_def raise_def)

lemma db_inv_hash_seq:
  "(\<And>salt. db_inv P (k (hashpw cr pw salt))) \<Longrightarrow> db_inv P (seq (get_password_hash cr e pw) k)"
  by (auto simp: db_inv_def seq_def get_password_hash_def raise_def)

lemma keeps_tokens [keeps_intros]: "keeps db (issue_tokens cr e i)"
  unfolding issue_tokens_def create_access_token_def create_refresh_token_def by (intro keeps_intros)

locale account_invariant =
  fixes P :: "database \<Rightarrow> bool" and good :: "string \<Rightarrow> bool" and cr :: crypto and u :: user
  assumes made: "policy_hash cr h \<Longrightarrow> good h"
    and cleared: "P d \<Longrightarrow> P (clear_codes email role d)"
    and dropped: "P d \<Longrightarrow> P (drop_code i d)"
    and tried: "P d \<Longrightarrow> P (set_code i (\<lambda>r. r\<lparr>e_attempts := n\<rparr>) d)"
    and stored: "P d \<Longrightarrow> good (e_hashed_password r) \<Longrightarrow> P (add_verification r d)"
    and hashed: "P d \<Longrightarrow> r \<in> set (verifications d) \<Longrightarrow> good (e_hashed_password r)"
    and confirmed: "P d \<Longrightarrow> good (e_hashed_password r) \<Longrightarrow> confirmed_user r = Inr v \<Longrightarrow>
        constraints_ok (add_user v d) \<Longrightarrow> P (add_user v d)"
    and registered: "P d \<Longrightarrow> oauth_user pf email = Inr v \<Longrightarrow> constraints_ok (add_user v d) \<Longrightarrow> P (add_user v d)"
    and linked: "P d \<Longrightarrow> x \<in> set (users d) \<Longrightarrow> linked_user pf x = Inr v \<Longrightarrow> P (set_user (u_id x) (\<lambda>_. v) d)"
    and changed: "P d \<Longrightarrow> good h \<Longrightarrow> P (set_user i (set_password h) d)"
    and pictured: "P d \<Longrightarrow> P (set_user i (\<lambda>x. x\<lparr>u_avatar_url := url\<rparr>) d)"
    and approved: "P d \<Longrightarrow> u_role u = ADMIN \<Longrightarrow> P (set_user i (\<lambda>x. x\<lparr>u_is_active := True\<rparr>) d)"
    and rejected: "P d \<Longrightarrow> u_role u = ADMIN \<Longrightarrow> P (drop_user i d)"
begin

lemma code_checked:
  "(\<And>r. found = Some r \<Longrightarrow> db_inv P (k r)) \<Longrightarrow> db_inv P (seq (check_code e found code) k)"
  unfolding db_inv_wp by (auto simp: check_code_def wp_simps intro!: tried split: option.split)

lemma pending_hash: "P d \<Longrightarrow> pending_code kind email d = Some r \<Longrightarrow> good (e_hashed_password r)"
  by (rule hashed) (auto dest: pending_code_mem)

lemma mailed:
  assumes "validate_pw password = Inr p"
  shows "db_inv P (mail_code cr e email password info role pname reason)"
  unfolding mail_code_def
  by (rule db_inv_read, rule db_inv_seq[OF db_inv_commit], erule cleared, rule db_inv_seq[OF db_inv_keeps], intro keeps_intros,
      rule db_inv_hash_seq, rule db_inv_seq[OF db_inv_basic(6)], rule db_inv_read, rule db_inv_seq[OF db_inv_commit],
      rule stored, assumption, simp add: new_verification_def made[OF policy_hash_made[OF assms]],
      rule db_inv_keeps, intro keeps_intros)

lemma signed_up: "db_inv P (signup cr e email pw)" "db_inv P (signup_project cr e fuel b)"
  unfolding signup_def signup_project_def Let_def
  by (intro db_inv_lift_seq db_inv_read db_inv_raise_if_seq mailed | assumption
      | rule db_inv_seq[OF db_inv_keeps], (intro keeps_intros))+

lemma verified: "db_inv P (verify_email cr e email code)"
  unfolding verify_email_def Let_def
proof (rule db_inv_read, rule code_checked, rule db_inv_raise_if_seq, rule db_inv_lift_seq, rule db_inv_read)
  fix d r v d' assume P: "P d" "P d'" and r: "pending_code (\<lambda>_. True) email d = Some r" "confirmed_user r = Inr v"
  have "P (add_user v (drop_code i d'))" if "constraints_ok (add_user v (drop_code i d'))" for i
    by (rule confirmed[OF dropped[OF P(2)] pending_hash[OF P(1) r(1)] r(2) that])
  then show "db_inv P (seq (catch (commit e (add_user v (drop_code (e_id r) d')))
      (\<lambda>x. raise (if x = IntegrityError then Http 400 ''account-exists'' else x))) (\<lambda>_.
     if e_signup_role r = ''project_owner'' then ret None
     else seq (issue_tokens cr e (next_id d')) (\<lambda>tk. ret (Some (tk, auth_cookies (conf e) tk)))))"
    by (intro inv_intros db_inv_keeps[OF keeps_tokens])
qed

lemma resent: "db_inv P (resend_code e email)"
  unfolding resend_code_def
proof (rule db_inv_read)
  fix d assume P: "P d"
  show "db_inv P (case pending_code (\<lambda>_. True) email d of
       None \<Rightarrow> raise (Http 400 ''no-request'')
     | Some r \<Rightarrow>
         seq (generate_verification_code e) (\<lambda>code. seq now (\<lambda>t. seq (gets db) (\<lambda>d'.
         seq (catch
           (commit e (add_verification
              (new_verification (conf e) email (e_hashed_password r) code (e_student_info r) (e_signup_role r)
                 (e_project_name r) (e_project_reason r) t)
              (clear_codes email (e_signup_role r) d')))
           (\<lambda>x. raise (if x = IntegrityError then Http 400 ''try-later'' else x))) (\<lambda>_.
         seq (send_verification_email e email code) (\<lambda>sent.
         raise_if (\<not> sent) (Http 500 ''mail-failed'')))))))"
  proof (cases "pending_code (\<lambda>_. True) email d")
    case (Some r)
    have "P (add_verification (new_verification (conf e) email (e_hashed_password r) code (e_student_info r) (e_signup_role r)
                 (e_project_name r) (e_project_reason r) t) (clear_codes email (e_signup_role r) d'))" if "P d'" for d' code t
      by (rule stored[OF cleared[OF that]]) (simp add: new_verification_def pending_hash[OF P Some])
    then show ?thesis
      unfolding Some option.case
      by (intro db_inv_seq[OF db_inv_keeps] db_inv_read db_inv_seq db_inv_catch db_inv_commit db_inv_basic keeps_intros)
        (simp_all add: db_inv_keeps keeps_intros)
  qed (simp add: db_inv_basic)
qed

lemma reset_asked: "db_inv P (request_password_reset e email role)"
proof -
  have store: "db_inv P (store_reset_code e email sr)" for sr
    unfolding store_reset_code_def
    by (intro db_inv_read db_inv_seq[OF db_inv_commit] db_inv_seq[OF db_inv_keeps] db_inv_basic keeps_intros cleared stored)
      (simp_all add: new_verification_def made policy_hash_def)
  have pad: "db_inv P (pad_response t)" for t
    unfolding pad_response_def by (intro inv_intros)
  have drop: "db_inv P (seq (gets db) (\<lambda>d'. commit e (drop_code i d')))" for i
    by (rule db_inv_read, rule db_inv_commit) (rule dropped)
  show ?thesis
    unfolding request_password_reset_def
    by (intro inv_intros store pad drop db_inv_keeps[OF keeps_lookups(4)])
qed

lemma reset_done: "db_inv P (confirm_password_reset cr e email code pw role)"
  unfolding confirm_password_reset_def
proof (rule db_inv_lift_seq, rule db_inv_lift_seq, rule db_inv_read, rule code_checked, rule db_inv_lift_seq)
  fix p login_role d r account assume p: "validate_pw pw = Inr p"
  have "P (drop_code i (set_user j (set_password (hashpw cr pw salt)) d'))" if "P d'" for i j salt d'
    by (rule dropped[OF changed[OF that made[OF policy_hash_made[OF p]]]])
  then show "db_inv P (case account of None \<Rightarrow> raise (Http 404 ''account-not-found'')
     | Some x \<Rightarrow> seq (get_password_hash cr e pw) (\<lambda>h.
         seq (gets db) (\<lambda>d'. commit e (drop_code (e_id r) (set_user (u_id x) (set_password h) d')))))"
    by (intro db_inv_cases(2) db_inv_basic db_inv_hash_seq db_inv_read db_inv_commit) simp
qed

lemma password_changed: "db_inv P (change_password cr e current pw x)"
  unfolding change_password_def
  by (intro db_inv_lift_seq db_inv_raise_if_seq db_inv_hash_seq db_inv_read db_inv_commit changed made policy_hash_made)

lemma avatar_changed: "db_inv P (upload_avatar e cwd f x)" "db_inv P (delete_avatar e cwd x)"
proof -
  have gone: "db_inv P (remove_avatar e cwd x)"
    unfolding remove_avatar_def by (intro inv_intros)
  have save: "db_inv P (seq (gets db) (\<lambda>d. commit e (set_user i (\<lambda>x. x\<lparr>u_avatar_url := url\<rparr>) d)))" for i url
    by (rule db_inv_read, rule db_inv_commit) (rule pictured)
  show "db_inv P (delete_avatar e cwd x)"
    unfolding delete_avatar_def by (intro db_inv_seq gone save)
  show "db_inv P (upload_avatar e cwd f x)"
    unfolding upload_avatar_def Let_def
    by (intro db_inv_read db_inv_raise_if_seq db_inv_seq[OF gone] db_inv_seq[OF db_inv_basic(6)] db_inv_seq[OF db_inv_basic(10)]
        db_inv_seq[OF db_inv_commit] db_inv_basic pictured)
qed

lemma decided: "db_inv P (approve_project_owner e i u)" "db_inv P (reject_project_owner e i u)"
  unfolding approve_project_owner_def reject_project_owner_def require_admin_def
  by (intro db_inv_raise_if_seq db_inv_read db_inv_cases(2) db_inv_basic db_inv_commit approved rejected; simp)+

lemma logged_in_elsewhere: "db_inv P (datagsm_login repr e code entry)"
proof -
  have account: "db_inv P (oauth_account e pf role)" for pf role
    unfolding oauth_account_def
  proof (intro db_inv_raise_if_seq db_inv_lift_seq db_inv_read)
    fix email d m assume P: "P d" and m: "match_account d email role = Inr m"
    have "P (set_user (u_id x) (\<lambda>_. v) d)" if "m = Some x" "linked_user pf x = Inr v" for x v
      by (rule linked[OF P _ that(2)]) (use m that(1) in \<open>auto simp: match_account_def find_user_by_email_role_def
        split: option.splits if_splits dest!: find_Some_iff_mem\<close>)
    then show "db_inv P (case m of
       Some x \<Rightarrow> seq (lift (linked_user pf x)) (\<lambda>v. seq (commit e (set_user (u_id x) (\<lambda>_. v) d)) (\<lambda>_. ret v))
     | None \<Rightarrow> if role \<noteq> USER then raise (Http 404 ''no-account'')
         else seq (lift (oauth_user pf email)) (\<lambda>v. seq (commit e (add_user v d)) (\<lambda>_. ret (v\<lparr>u_id := next_id d\<rparr>))))"
      using P by (intro db_inv_cases(1,2) db_inv_lift_seq db_inv_seq[OF db_inv_commit] db_inv_basic registered) simp_all
  qed
  show ?thesis
    unfolding datagsm_login_def by (intro db_inv_seq account db_inv_basic db_inv_keeps) (unfold fetch_userinfo_def, intro keeps_intros)
qed

lemma read_only:
  "db_inv P (check_project_eligibility e fuel email)" "db_inv P (get_pending_approvals u)"
  "db_inv P (login cr e email pw role)" "db_inv P (refresh_token cr e ck b)"
  unfolding check_project_eligibility_def get_pending_approvals_def require_admin_def login_def refresh_token_def
  by (rule db_inv_keeps, intro keeps_intros)+

lemma request_kept: "db_inv P (account_request cr e a u ep)"
proof -
  have silent: "db_inv P m \<Longrightarrow> db_inv P (silently m)" for m :: "(sys, 'b) prog"
    unfolding silently_def by (intro db_inv_seq db_inv_basic)
  show ?thesis
    by (cases ep; simp only: account_request.simps; (rule db_inv_lift_seq)?; (intro db_inv_cases(4))?; (rule silent)?;
        rule signed_up verified resent reset_asked reset_done password_changed avatar_changed decided logged_in_elsewhere read_only)
qed

end

section \<open>Where password hashes come from\<close>

definition hashes_ok :: "crypto \<Rightarrow> database \<Rightarrow> bool" where
  "hashes_ok cr d \<longleftrightarrow> (\<forall>x \<in> set (users d). \<forall>h. u_hashed_password x = Some h \<longrightarrow> policy_hash cr h) \<and>
     (\<forall>r \<in> set (verifications d). policy_hash cr (e_hashed_password r))"

lemma oauth_user_fields: "oauth_user pf email = Inr v \<Longrightarrow> u_hashed_password v = None \<and> u_role v = USER"
  by (auto simp: oauth_user_def andthen_Inr_iff)

lemma linked_user_fields: "linked_user pf x = Inr v \<Longrightarrow> u_id v = u_id x \<and> u_hashed_password v = u_hashed_password x \<and>
    u_role v = u_role x \<and> u_is_active v = u_is_active x"
  by (auto simp: linked_user_def andthen_Inr_iff Let_def split: if_splits)

lemma confirmed_user_fields: "confirmed_user r = Inr v \<Longrightarrow> u_hashed_password v = Some (e_hashed_password r) \<and>
    u_role v \<noteq> ADMIN \<and> (u_is_active v \<longleftrightarrow> u_role v = USER)"
  by (auto simp: confirmed_user_def Let_def andthen_Inr_iff split: if_splits)

lemma users_of_ops [simp]:
  "users (clear_codes email role d) = users d" "users (drop_code i d) = users d" "users (set_code i g d) = users d"
  "users (add_verification r d) = users d" "users (add_user v d) = users d @ [v\<lparr>u_id := next_id d\<rparr>]"
  "verifications (add_user v d) = verifications d" "verifications (set_user i f d) = verifications d"
  "verifications (drop_user i d) = verifications d" "set (users (drop_user i d)) = {x \<in> set (users d). u_id x \<noteq> i}"
  by (simp_all add: clear_codes_def drop_code_def set_code_def add_verification_def add_user_def set_user_def drop_user_def
      delete_rows_def)

lemma verifications_of_ops:
  "r \<in> set (verifications (clear_codes email role d)) \<Longrightarrow> r \<in> set (verifications d)"
  "r \<in> set (verifications (drop_code i d)) \<Longrightarrow> r \<in> set (verifications d)"
  "r \<in> set (verifications (set_code i (\<lambda>r. r\<lparr>e_attempts := n\<rparr>) d)) \<Longrightarrow> \<exists>q \<in> set (verifications d). e_hashed_password r = e_hashed_password q"
  "r \<in> set (verifications (add_verification q d)) \<Longrightarrow> r \<in> set (verifications d) \<or> e_hashed_password r = e_hashed_password q"
  by (auto simp: clear_codes_def drop_code_def set_code_def add_verification_def delete_rows_def set_update_rows split: if_splits)

lemma user_of_set: "x \<in> set (users (set_user i f d)) \<Longrightarrow> \<exists>y \<in> set (users d). x = y \<or> (x = f y \<and> u_id y = i)"
  by (auto simp: set_user_def set_update_rows split: if_splits)

interpretation hashes: account_invariant "hashes_ok cr" "policy_hash cr" cr u for cr u
proof
  fix d x pf v assume P: "hashes_ok cr d" and x: "x \<in> set (users d)" "linked_user pf x = Inr v"
  then show "hashes_ok cr (set_user (u_id x) (\<lambda>_. v) d)"
    using linked_user_fields[OF x(2)] by (auto simp: hashes_ok_def dest!: user_of_set)
qed (fastforce simp: hashes_ok_def set_password_def dest!: user_of_set verifications_of_ops dest: oauth_user_fields confirmed_user_fields)+

text \<open>
  C16. Every password hash in the tables was made of a password that obeys the policy. If that holds, it holds after
  any request to the account endpoints, by whoever, with whatever bodies, whether it succeeds or breaks off, and
  however DataGSM, the mail server and the database answer. The one exception is the empty hash that a reset code
  carries, which the login refuses.
\<close>

theorem stored_hashes_follow_policy:
  assumes "hashes_ok cr (db s)"
  shows "hashes_ok cr (db (snd (account_request cr e a u ep s)))"
  using hashes.request_kept[of cr e a u ep] assms unfolding db_inv_def by blast

text \<open>A sign-up with a proper password, whose hash ends up in a code.\<close>

lemma stored_hashes_follow_policy_witness:
  "let s = sample_state empty_database;
       run = account_request sample_crypto ((sample_env agreeing)\<lparr>conf := sample_settings\<lparr>DATAGSM_API_KEY := []\<rparr>\<rparr>)
         \<lparr>ae_email = Some, ae_repr = (\<lambda>_. []), ae_cwd = [], ae_pages = 3\<rparr> (sample_user 7 USER)
         (Ac_Signup \<lparr>uc_email = ''s9@gsm.hs.kr'', uc_password = ''abcd123!''\<rparr>) s
   in verifications (db (snd run)) \<noteq> [] \<and> hashes_ok sample_crypto (db (snd run))"
proof -
  have "hashes_ok sample_crypto (db (sample_state empty_database))"
    by (simp add: hashes_ok_def sample_state_def empty_database_def)
  note kept = stored_hashes_follow_policy[OF this]
  have "verifications (db (snd (account_request sample_crypto ((sample_env agreeing)\<lparr>conf := sample_settings\<lparr>DATAGSM_API_KEY := []\<rparr>\<rparr>)
         \<lparr>ae_email = Some, ae_repr = (\<lambda>_. []), ae_cwd = [], ae_pages = 3\<rparr> (sample_user 7 USER)
         (Ac_Signup \<lparr>uc_email = ''s9@gsm.hs.kr'', uc_password = ''abcd123!''\<rparr>) (sample_state empty_database)))) \<noteq> []"
    by code_simp
  with kept show ?thesis unfolding Let_def by blast
qed

section \<open>Who gains which rights\<close>

definition no_gain :: "database \<Rightarrow> user \<Rightarrow> database \<Rightarrow> bool" where
  "no_gain d0 u d \<longleftrightarrow>
     (\<forall>x \<in> set (users d). u_role x = ADMIN \<longrightarrow> (\<exists>y \<in> set (users d0). u_id y = u_id x \<and> u_role y = ADMIN)) \<and>
     (u_role u \<noteq> ADMIN \<longrightarrow> (\<forall>x \<in> set (users d). u_role x = PROJECT_OWNER \<and> u_is_active x \<longrightarrow>
        (\<exists>y \<in> set (users d0). u_id y = u_id x \<and> u_role y = PROJECT_OWNER \<and> u_is_active y)))"

lemma no_gain_mono:
  assumes "no_gain d0 u d"
    and "\<And>x. x \<in> set (users d') \<Longrightarrow> (\<exists>y \<in> set (users d). u_id y = u_id x \<and> u_role y = u_role x \<and>
       (u_is_active y = u_is_active x \<or> u_role u = ADMIN)) \<or> u_role x = USER \<or> (u_role x = PROJECT_OWNER \<and> \<not> u_is_active x)"
  shows "no_gain d0 u d'"
  using assms unfolding no_gain_def by (metis user_role.distinct(1,3,5))

lemma no_gain_set:
  assumes "no_gain d0 u d" and "\<And>x. u_id (f x) = u_id x" and "\<And>x. u_role (f x) = u_role x"
    and "\<And>x. u_is_active (f x) = u_is_active x \<or> u_role u = ADMIN"
  shows "no_gain d0 u (set_user i f d)"
proof (rule no_gain_mono[OF assms(1)], rule disjI1)
  fix x assume "x \<in> set (users (set_user i f d))"
  from user_of_set[OF this] obtain y where "y \<in> set (users d)" "x = y \<or> x = f y" by blast
  then show "\<exists>y \<in> set (users d). u_id y = u_id x \<and> u_role y = u_role x \<and> (u_is_active y = u_is_active x \<or> u_role u = ADMIN)"
    using assms(2,3) assms(4)[of y] by (intro bexI[of _ y]) auto
qed

interpretation privileges: account_invariant "no_gain d0 u" "\<lambda>_. True" cr u for d0 cr u
proof
  fix d x pf v assume P: "no_gain d0 u d" and x: "x \<in> set (users d)" "linked_user pf x = Inr v"
  show "no_gain d0 u (set_user (u_id x) (\<lambda>_. v) d)"
    by (rule no_gain_mono[OF P]) (use x linked_user_fields[OF x(2)] in \<open>auto dest!: user_of_set\<close>)
next
  fix d r v assume P: "no_gain d0 u d" and "confirmed_user r = Inr v"
  then show "no_gain d0 u (add_user v d)"
    using confirmed_user_fields[of r v] by (intro no_gain_mono[OF P]) (cases "u_role v"; auto)
next
  fix d pf email v assume P: "no_gain d0 u d" and "oauth_user pf email = Inr v"
  then show "no_gain d0 u (add_user v d)"
    using oauth_user_fields[of pf email v] by (intro no_gain_mono[OF P]) auto
next
  fix d i assume P: "no_gain d0 u d"
  show "no_gain d0 u (set_user i (set_password h) d)" for h by (rule no_gain_set[OF P]) (simp_all add: set_password_def)
  show "no_gain d0 u (set_user i (\<lambda>x. x\<lparr>u_avatar_url := url\<rparr>) d)" for url by (rule no_gain_set[OF P]) simp_all
  assume "u_role u = ADMIN"
  then show "no_gain d0 u (set_user i (\<lambda>x. x\<lparr>u_is_active := True\<rparr>) d)" by (intro no_gain_set[OF P]) simp_all
  show "no_gain d0 u (drop_user i d)" by (rule no_gain_mono[OF P]) auto
qed (auto simp: no_gain_def)

text \<open>
  C15. Nobody rises by himself. Whatever request is made to the account endpoints, by whomever and with whatever
  input: an administrator afterwards was one before; and unless the caller is an administrator, an active project
  owner afterwards was an active project owner before. Signing up, confirming codes of any kind, logging in through
  DataGSM, resets and changes of passwords never raise the role of an account and never activate one that awaits
  its approval.
\<close>

theorem no_privilege_gain:
  assumes "account_request cr e a u ep s = (r, s')" and "x \<in> set (users (db s'))"
  shows "(u_role x = ADMIN \<longrightarrow> (\<exists>y \<in> set (users (db s)). u_id y = u_id x \<and> u_role y = ADMIN)) \<and>
    (u_role u \<noteq> ADMIN \<and> u_role x = PROJECT_OWNER \<and> u_is_active x \<longrightarrow>
       (\<exists>y \<in> set (users (db s)). u_id y = u_id x \<and> u_role y = PROJECT_OWNER \<and> u_is_active y))"
proof -
  have "no_gain (db s) u (db s)" by (auto simp: no_gain_def)
  then have "no_gain (db s) u (db s')"
    using privileges.request_kept[of "db s" u cr e a ep] assms(1) unfolding db_inv_def by (metis snd_conv)
  then show ?thesis using assms(2) unfolding no_gain_def by blast
qed

text \<open>A user who asks for the approval of a waiting project owner is refused, and the owner stays inactive.\<close>

definition waiting_db :: database where
  "waiting_db = empty_database\<lparr>users := [sample_user 7 USER, (sample_user 8 PROJECT_OWNER)\<lparr>u_is_active := False\<rparr>]\<rparr>"

lemma no_privilege_gain_witness:
  "\<exists>x \<in> set (users (db (snd (account_request sample_crypto (sample_env agreeing)
       \<lparr>ae_email = Some, ae_repr = (\<lambda>_. []), ae_cwd = [], ae_pages = 3\<rparr> (sample_user 7 USER) (Ac_Approve 8)
       (sample_state waiting_db))))). u_id x = 8 \<and> u_role x = PROJECT_OWNER \<and> \<not> u_is_active x"
proof -
  let ?x = "(sample_user 8 PROJECT_OWNER)\<lparr>u_is_active := False\<rparr>"
  obtain r s' where run: "account_request sample_crypto (sample_env agreeing)
       \<lparr>ae_email = Some, ae_repr = (\<lambda>_. []), ae_cwd = [], ae_pages = 3\<rparr> (sample_user 7 USER) (Ac_Approve 8)
       (sample_state waiting_db) = (r, s')" by fastforce
  have s': "users (db s') = users waiting_db"
    using run by (auto simp: approve_project_owner_def require_admin_def prog_defs sample_user_def sample_state_def)
  then have x: "?x \<in> set (users (db s'))" by (simp add: waiting_db_def)
  have "u_is_active ?x \<longrightarrow> (\<exists>y \<in> set (users waiting_db). u_id y = 8 \<and> u_role y = PROJECT_OWNER \<and> u_is_active y)"
    using no_privilege_gain[OF run x] by (simp add: sample_user_def sample_state_def)
  then have "\<not> u_is_active ?x" by (simp add: waiting_db_def sample_user_def)
  then show ?thesis using x run by (intro bexI[of _ ?x]) (simp_all add: sample_user_def)
qed

end
