(* ===== verification/Migrate.thy ===== *)
theory Migrate
  imports CreateVm
begin

text \<open>
  \<open>migrate_sqlite_to_pg.py\<close>: the copy of the tables from a SQLite file to PostgreSQL. The tables of the SQLite file
  are an argument; the state holds those of PostgreSQL, which enforces the foreign keys that SQLite does not. Sequences
  of the tables are the one counter of the model. Creating missing tables is not modelled, and the classes that are
  imported are an argument, since a missing one decides the run.
\<close>

section \<open>Rows\<close>

text \<open>
  \<open>{k: v for k, v in row.__dict__.items() if not k.startswith("_")}\<close>: an attribute whose name begins with an
  underscore is left out, and the new row has the column's default there.
\<close>

definition keep :: "string \<Rightarrow> 'a \<Rightarrow> 'a \<Rightarrow> 'a" where
  "keep name dflt v = (if startswith name ''_'' then dflt else v)"

definition copied_user :: "user \<Rightarrow> user" where
  "copied_user u =
     \<lparr>u_id = keep ''id'' 0 (u_id u), u_email = keep ''email'' [] (u_email u),
      u_hashed_password = keep ''hashed_password'' None (u_hashed_password u), u_role = keep ''role'' USER (u_role u),
      u_is_active = keep ''is_active'' True (u_is_active u), u_oauth_provider = keep ''oauth_provider'' None (u_oauth_provider u),
      u_oauth_sub = keep ''oauth_sub'' None (u_oauth_sub u), u_name = keep ''name'' None (u_name u),
      u_grade = keep ''grade'' None (u_grade u), u_class_num = keep ''class_num'' None (u_class_num u),
      u_number = keep ''number'' None (u_number u), u_major = keep ''major'' None (u_major u),
      u_avatar_url = keep ''avatar_url'' None (u_avatar_url u), u_project_name = keep ''project_name'' None (u_project_name u),
      u_project_reason = keep ''project_reason'' None (u_project_reason u)\<rparr>"

definition copied_server :: "server \<Rightarrow> server" where
  "copied_server r =
     \<lparr>srv_id = keep ''id'' 0 (srv_id r), srv_name = keep ''name'' [] (srv_name r),
      srv_ip_address = keep ''ip_address'' [] (srv_ip_address r), srv_port = keep ''port'' 0 (srv_port r),
      srv_api_user = keep ''api_user'' [] (srv_api_user r), srv_api_password = keep ''_api_password'' None (srv_api_password r),
      srv_ssh_user = keep ''ssh_user'' None (srv_ssh_user r), srv_ssh_password = keep ''_ssh_password'' None (srv_ssh_password r),
      srv_ssh_port = keep ''ssh_port'' (Some 22) (srv_ssh_port r), srv_is_active = keep ''is_active'' True (srv_is_active r),
      srv_gateway_ip = keep ''gateway_ip'' None (srv_gateway_ip r), srv_gateway_user = keep ''gateway_user'' None (srv_gateway_user r),
      srv_gateway_password = keep ''_gateway_password'' None (srv_gateway_password r),
      srv_base_port = keep ''base_port'' 21000 (srv_base_port r),
      srv_last_free_ram_mb = keep ''last_free_ram_mb'' 0 (srv_last_free_ram_mb r)\<rparr>"

definition copied_vm :: "vm \<Rightarrow> vm" where
  "copied_vm v =
     \<lparr>vm_id = keep ''id'' 0 (vm_id v), vm_vmid = keep ''hypervisor_vmid'' 0 (vm_vmid v), vm_name = keep ''name'' [] (vm_name v),
      vm_display_name = keep ''display_name'' None (vm_display_name v), vm_server_id = keep ''server_id'' 0 (vm_server_id v),
      vm_owner_id = keep ''owner_id'' None (vm_owner_id v), vm_ram_mb = keep ''allocated_ram_mb'' 2048 (vm_ram_mb v),
      vm_cores = keep ''allocated_cores'' 2 (vm_cores v), vm_internal_ip = keep ''internal_ip'' None (vm_internal_ip v),
      vm_password = keep ''_vm_password'' None (vm_password v), vm_created_at = keep ''created_at'' None (vm_created_at v),
      vm_expires_at = keep ''expires_at'' None (vm_expires_at v), vm_auto_snapshot = keep ''auto_snapshot'' False (vm_auto_snapshot v),
      vm_purpose = keep ''purpose'' None (vm_purpose v), vm_ready = keep ''ready'' True (vm_ready v)\<rparr>"

text \<open>The rows of the other three models have no such attribute.\<close>

lemma keep_plain [simp]: "keep (CHR ''_'' # cs) dflt v = dflt" "c \<noteq> CHR ''_'' \<Longrightarrow> keep (c # cs) dflt v = v"
  by (simp_all add: keep_def startswith_def)

lemma copied_user_same [simp]: "copied_user u = u"
  by (simp add: copied_user_def)

lemma copied_server_secrets: "copied_server r =
    r\<lparr>srv_api_password := None, srv_ssh_password := None, srv_gateway_password := None\<rparr>"
  by (simp add: copied_server_def)

lemma copied_vm_password: "copied_vm v = v\<lparr>vm_password := None\<rparr>"
  by (simp add: copied_vm_def)

section \<open>The script\<close>

text \<open>The foreign keys of the models.\<close>

definition foreign_ok :: "database \<Rightarrow> bool" where
  "foreign_ok d \<longleftrightarrow>
     list_all (\<lambda>v. vm_server_id v \<in> srv_id ` set (servers d) \<and>
        (case vm_owner_id v of None \<Rightarrow> True | Some i \<Rightarrow> i \<in> u_id ` set (users d))) (vms d) \<and>
     list_all (\<lambda>p. p_vm_id p \<in> vm_id ` set (vms d)) (vm_ports d) \<and>
     list_all (\<lambda>r. r_vm_id r \<in> vm_id ` set (vms d)) (https_routes d) \<and>
     list_all (\<lambda>n. n_user_id n \<in> u_id ` set (users d)) (notifications d) \<and>
     list_all (\<lambda>j. j_user_id j \<in> u_id ` set (users d)) (jobs d) \<and>
     list_all (\<lambda>q. f_user_id q \<in> u_id ` set (users d)) (faqs d)"

definition pg_commit :: "env \<Rightarrow> database \<Rightarrow> (sys, unit) prog" where
  "pg_commit e d = (if foreign_ok d then commit e d else raise IntegrityError)"

definition emptied :: "database \<Rightarrow> database" where
  "emptied d = d\<lparr>verifications := [], faqs := [], notifications := [], vms := [], servers := [], users := []\<rparr>"

text \<open>\<open>session.merge\<close> of rows: the row of the same key is replaced, otherwise the row is new.\<close>

definition merge_row :: "('r \<Rightarrow> int) \<Rightarrow> 'r \<Rightarrow> 'r list \<Rightarrow> 'r list" where
  "merge_row key r rows =
     (if key r \<in> key ` set rows then update_rows (\<lambda>x. key x = key r) (\<lambda>_. r) rows else rows @ [r])"

definition merge_rows :: "('r \<Rightarrow> int) \<Rightarrow> 'r list \<Rightarrow> 'r list \<Rightarrow> 'r list" where
  "merge_rows key new rows = foldl (\<lambda>t r. merge_row key r t) rows new"

text \<open>The models in the order of the script.\<close>

definition copy_steps :: "(database \<Rightarrow> database \<Rightarrow> database) list" where
  "copy_steps =
     [\<lambda>src d. d\<lparr>users := merge_rows u_id (map copied_user (users src)) (users d)\<rparr>,
      \<lambda>src d. d\<lparr>servers := merge_rows srv_id (map copied_server (servers src)) (servers d)\<rparr>,
      \<lambda>src d. d\<lparr>vms := merge_rows vm_id (map copied_vm (vms src)) (vms d)\<rparr>,
      \<lambda>src d. d\<lparr>notifications := merge_rows n_id (notifications src) (notifications d)\<rparr>,
      \<lambda>src d. d\<lparr>faqs := merge_rows f_id (faqs src) (faqs d)\<rparr>,
      \<lambda>src d. d\<lparr>verifications := merge_rows e_id (verifications src) (verifications d)\<rparr>]"

text \<open>\<open>setval(seq, COALESCE(MAX(id), 1))\<close>: the next id is one more.\<close>

definition ids_of :: "database \<Rightarrow> int list" where
  "ids_of d = map u_id (users d) @ map srv_id (servers d) @ map vm_id (vms d) @ map n_id (notifications d) @
     map f_id (faqs d) @ map e_id (verifications d)"

definition set_sequences :: "database \<Rightarrow> database" where
  "set_sequences d = d\<lparr>next_id := foldr max (ids_of d) 1 + 1\<rparr>"

text \<open>
  The classes the script imports, and the classes the relationships of a model name. SQLAlchemy resolves the names at
  the first query, among the classes that have been imported, and raises if one is missing.
\<close>

definition script_imports :: "string list" where
  "script_imports = [''User'', ''Vm'', ''Server'', ''Notification'', ''FaqQuestion'', ''EmailVerification'']"

definition relationships :: "(string \<times> string list) list" where
  "relationships = [(''Vm'', [''Server'', ''User'', ''HttpsRoute'']), (''Notification'', [''User'']),
     (''FaqQuestion'', [''User'']), (''VmCreationJob'', [''User''])]"

definition configure_mappers :: "string list \<Rightarrow> exn + unit" where
  "configure_mappers imported =
     (if list_all (\<lambda>(m, ts). m \<in> set imported \<longrightarrow> list_all (\<lambda>t. t \<in> set imported) ts) relationships
      then Inr () else Inl OtherException)"

definition migrate :: "env \<Rightarrow> string list \<Rightarrow> string \<Rightarrow> database \<Rightarrow> (sys, unit) prog" where
  "migrate e imported url src =
     seq (raise_if (\<not> startswith url ''postgresql'') OtherException) (\<lambda>_.
     seq (lift (configure_mappers imported)) (\<lambda>_.
     seq (gets db) (\<lambda>d.
     seq (pg_commit e (emptied d)) (\<lambda>_.
     seq (for_each copy_steps (\<lambda>copy. seq (gets db) (\<lambda>d'. pg_commit e (copy src d')))) (\<lambda>_.
     seq (gets db) (\<lambda>d'. pg_commit e (set_sequences d')))))))"

section \<open>What it does\<close>

lemma merge_rows_new:
  "distinct (map key new) \<Longrightarrow> key ` set new \<inter> key ` set rows = {} \<Longrightarrow> merge_rows key new rows = rows @ new"
proof (induction new arbitrary: rows)
  case (Cons r new)
  have "merge_row key r rows = rows @ [r]" using Cons.prems(2) by (auto simp: merge_row_def)
  then show ?case
    using Cons.IH[of "rows @ [r]"] Cons.prems by (auto simp: merge_rows_def)
qed (simp add: merge_rows_def)

lemma copied_ids [simp]: "map srv_id (map copied_server rs) = map srv_id rs" "map vm_id (map copied_vm vs) = map vm_id vs"
  "map copied_user us = us"
  by (simp_all add: copied_server_secrets copied_vm_password comp_def map_idI)

definition all_ids_ok :: "database \<Rightarrow> bool" where
  "all_ids_ok d \<longleftrightarrow> distinct (map u_id (users d)) \<and> distinct (map srv_id (servers d)) \<and> distinct (map vm_id (vms d)) \<and>
     distinct (map n_id (notifications d)) \<and> distinct (map f_id (faqs d)) \<and> distinct (map e_id (verifications d))"

lemma wp_pg_commit:
  assumes "db_answers e"
    and "constraints_ok d \<Longrightarrow> foreign_ok d \<Longrightarrow> \<forall>t. db t = d \<longrightarrow> Q () t"
    and "\<not> (constraints_ok d \<and> foreign_ok d) \<Longrightarrow> E IntegrityError s"
  shows "wp (pg_commit e d) Q E s"
  using assms by (auto simp: pg_commit_def wp_simps db_answersD)

lemma constraints_emptied: "constraints_ok d \<Longrightarrow> constraints_ok (emptied d)"
  by (simp add: constraints_ok_def emptied_def)

lemma foreign_emptied: "foreign_ok (emptied d) \<longleftrightarrow> vm_ports d = [] \<and> https_routes d = [] \<and> jobs d = []"
  by (cases "vm_ports d"; cases "https_routes d"; cases "jobs d") (simp_all add: foreign_ok_def emptied_def)

text \<open>One model copied, and one that is refused.\<close>

definition copy_all :: "env \<Rightarrow> database \<Rightarrow> (database \<Rightarrow> database \<Rightarrow> database) list \<Rightarrow> (sys, unit) prog" where
  "copy_all e src copies = for_each copies (\<lambda>copy. seq (gets db) (\<lambda>d'. pg_commit e (copy src d')))"

lemma copy_one:
  assumes "db_answers e" and "db t = d" and "constraints_ok (copy src d)" and "foreign_ok (copy src d)"
    and "\<And>t'. db t' = copy src d \<Longrightarrow> wp (copy_all e src copies) Q E t'"
  shows "wp (copy_all e src (copy # copies)) Q E t"
  unfolding copy_all_def for_each.simps wp_seq wp_gets assms(2)
  by (rule wp_pg_commit[OF assms(1)]) (use assms(3-5) in \<open>simp_all add: copy_all_def\<close>)

lemma copy_refused:
  assumes "db t = d" and "\<not> constraints_ok (copy src d)" and "E IntegrityError t"
  shows "wp (copy_all e src (copy # copies)) Q E t"
  using assms by (simp add: copy_all_def wp_seq wp_gets pg_commit_def commit_def wp_if wp_raise)

lemma copies_with_servers:
  assumes "db_answers e" and t: "db t = emptied d0" and src: "constraints_ok src" "all_ids_ok src" "servers src \<noteq> []"
    and dependents: "vm_ports d0 = []" "https_routes d0 = []" "jobs d0 = []"
  shows "wp (copy_all e src copy_steps) (\<lambda>_ _. False)
    (\<lambda>x t'. x = IntegrityError \<and> db t' = (emptied d0)\<lparr>users := users src\<rparr>) t"
proof -
  let ?d = "(emptied d0)\<lparr>users := users src\<rparr>"
  have one: "(emptied d0)\<lparr>users := merge_rows u_id (map copied_user (users src)) (users (emptied d0))\<rparr> = ?d"
    using src(2) by (simp add: emptied_def merge_rows_new all_ids_ok_def)
  obtain q qs where q: "servers src = q # qs" using src(3) by (cases "servers src") auto
  have two: "\<not> constraints_ok (?d\<lparr>servers := merge_rows srv_id (map copied_server (servers src)) (servers ?d)\<rparr>)"
  proof -
    have "merge_rows srv_id (map copied_server (servers src)) [] = map copied_server (servers src)"
      using src(2) by (subst merge_rows_new) (simp_all add: all_ids_ok_def copied_server_secrets comp_def)
    then show ?thesis by (simp add: emptied_def q constraints_ok_def copied_server_secrets)
  qed
  show ?thesis
    unfolding copy_steps_def
  proof (rule copy_one[OF assms(1) t], unfold one)
    show "constraints_ok ?d" "foreign_ok ?d"
      using src(1) dependents by (simp_all add: constraints_ok_def foreign_ok_def emptied_def)
  qed (rule copy_refused, assumption, rule two, simp)
qed

lemma no_vms: "foreign_ok d \<Longrightarrow> servers d = [] \<Longrightarrow> vms d = []"
  by (cases "vms d") (simp_all add: foreign_ok_def)

lemma copies_without_servers:
  assumes "db_answers e" and t: "db t = emptied d0" and src: "constraints_ok src" "foreign_ok src" "all_ids_ok src" "servers src = []"
    and dependents: "vm_ports d0 = []" "https_routes d0 = []" "jobs d0 = []"
  shows "wp (copy_all e src copy_steps)
    (\<lambda>_ t'. db t' = (emptied d0)\<lparr>users := users src, notifications := notifications src, faqs := faqs src,
       verifications := verifications src\<rparr>) (\<lambda>_ _. False) t"
proof -
  have new: "merge_rows u_id (users src) [] = users src" "merge_rows n_id (notifications src) [] = notifications src"
    "merge_rows f_id (faqs src) [] = faqs src" "merge_rows e_id (verifications src) [] = verifications src"
    "merge_rows k [] rows = rows" for k :: "'r \<Rightarrow> int" and rows
    using src(3) by (simp_all add: merge_rows_new all_ids_ok_def)
  note facts = new src(4) no_vms[OF src(2,4)] dependents
  have users: "distinct (map (\<lambda>u. (u_email u, u_role u)) (users src))" using src(1) by (simp add: constraints_ok_def)
  have refs: "\<forall>n \<in> set (notifications src). n_user_id n \<in> u_id ` set (users src)"
    "\<forall>q \<in> set (faqs src). f_user_id q \<in> u_id ` set (users src)"
    using src(2) by (simp_all add: foreign_ok_def list_all_iff)
  show ?thesis
    unfolding copy_steps_def
    by ((rule copy_one[OF assms(1)], (rule t | assumption),
          (simp add: emptied_def facts users refs constraints_ok_def foreign_ok_def list_all_iff; fail)+)+)
      (simp add: copy_all_def wp_ret emptied_def facts)
qed

lemma mappers:
  "configure_mappers script_imports = Inl OtherException"
  "configure_mappers (''HttpsRoute'' # script_imports) = Inr ()"
  by (simp_all add: configure_mappers_def script_imports_def relationships_def)


text \<open>One user with one VM on one server: the script breaks off; with the import it fails after clearing the target.\<close>

definition sqlite_db :: database where
  "sqlite_db = empty_database\<lparr>users := [sample_user 7 USER], servers := [sample_server], vms := [sample_vm 1 (Some 7)]\<rparr>"


end
