(* ===== verification/SnapshotLock.thy ===== *)
theory SnapshotLock
  imports SnapshotMachine "HOL-Library.Word"
begin

text \<open>
  Which lock the guard of a snapshot request takes (\<open>_snapshot_create_guard\<close> of \<open>api/routes/vmcontrol.py\<close>): on
  PostgreSQL an advisory lock under a 64-bit key, elsewhere one \<open>asyncio.Lock\<close> per VM from a table of the process.
  \<open>SnapshotMachine\<close> is about the requests that share a lock; here is shown which do. BLAKE2b is a parameter: \<open>blake\<close>
  gives the eight bytes of the digest.
\<close>

section \<open>Keys\<close>

text \<open>\<open>int.from_bytes(bs, "big", signed=True)\<close>.\<close>

definition unsigned_big :: "string \<Rightarrow> int" where
  "unsigned_big bs = foldl (\<lambda>n b. 256 * n + int (of_char b)) 0 bs"

definition from_bytes_signed :: "string \<Rightarrow> int" where
  "from_bytes_signed bs =
     (let n = unsigned_big bs in if 2 * n < 256 ^ length bs then n else n - 256 ^ length bs)"

definition lock_text :: "string \<Rightarrow> int \<Rightarrow> string" where
  "lock_text node vmid = node @ '':'' @ show_int vmid"

definition snapshot_advisory_lock_key :: "(string \<Rightarrow> string) \<Rightarrow> string \<Rightarrow> int \<Rightarrow> int" where
  "snapshot_advisory_lock_key blake node vmid = from_bytes_signed (blake (lock_text node vmid))"

section \<open>The guard\<close>

type_synonym lock_table = "((string \<times> int) \<times> nat) list"

text \<open>\<open>_snapshot_create_locks.setdefault((node, vmid), asyncio.Lock())\<close>: locks are numbered as they are made.\<close>

definition get_snapshot_create_lock :: "string \<Rightarrow> int \<Rightarrow> lock_table \<Rightarrow> nat \<times> lock_table" where
  "get_snapshot_create_lock node vmid locks =
     (case map_of locks (node, vmid) of
        Some l \<Rightarrow> (l, locks)
      | None \<Rightarrow> (length locks, locks @ [((node, vmid), length locks)]))"

datatype guard_lock = Advisory int | Local nat

definition snapshot_create_guard :: "(string \<Rightarrow> string) \<Rightarrow> string \<Rightarrow> string \<Rightarrow> int \<Rightarrow> lock_table \<Rightarrow> guard_lock \<times> lock_table" where
  "snapshot_create_guard blake dialect node vmid locks =
     (if dialect = ''postgresql'' then (Advisory (snapshot_advisory_lock_key blake node vmid), locks)
      else case get_snapshot_create_lock node vmid locks of (l, locks') \<Rightarrow> (Local l, locks'))"

section \<open>Keys are 64-bit numbers\<close>

lemma unsigned_big_snoc: "unsigned_big (bs @ [b]) = 256 * unsigned_big bs + int (of_char b)"
  by (simp add: unsigned_big_def)

lemma unsigned_big_range: "0 \<le> unsigned_big bs \<and> unsigned_big bs < 256 ^ length bs"
proof (induction bs rule: rev_induct)
  case (snoc b bs)
  have "int (of_char b) < 256" using char_byte[of b] by simp
  moreover have "256 * unsigned_big bs + 256 \<le> 256 * 256 ^ length bs" using snoc by simp
  ultimately have "256 * unsigned_big bs + int (of_char b) < 256 * 256 ^ length bs" by linarith
  then show ?case using snoc by (simp add: unsigned_big_snoc)
qed (simp add: unsigned_big_def)

text \<open>The bytes as a machine word.\<close>

definition word_big :: "string \<Rightarrow> 64 word" where
  "word_big bs = foldl (\<lambda>w b. push_bit 8 w + of_nat (of_char b)) 0 bs"

lemma word_big_unsigned: "word_big bs = word_of_int (unsigned_big bs)"
proof (induction bs rule: rev_induct)
  case (snoc b bs)
  then show ?case by (simp add: word_big_def unsigned_big_snoc push_bit_eq_mult mult.commute)
qed (simp add: word_big_def unsigned_big_def)

lemma from_bytes_word: "length bs = 8 \<Longrightarrow> from_bytes_signed bs = sint (word_big bs)"
proof -
  assume l: "length bs = 8"
  have r: "0 \<le> unsigned_big bs" "unsigned_big bs < 2 ^ 64" using unsigned_big_range[of bs] l by simp_all
  have "sint (word_big bs) = (unsigned_big bs + 2 ^ 63) mod 2 ^ 64 - 2 ^ 63"
    by (simp add: word_big_unsigned int_word_sint)
  also have "\<dots> = (if unsigned_big bs < 2 ^ 63 then unsigned_big bs else unsigned_big bs - 2 ^ 64)"
  proof (cases "unsigned_big bs < 2 ^ 63")
    case True
    then have "(unsigned_big bs + 2 ^ 63) mod 2 ^ 64 = unsigned_big bs + 2 ^ 63"
      using r by (intro mod_pos_pos_trivial) simp_all
    then show ?thesis using True by simp
  next
    case False
    then have "(unsigned_big bs + 2 ^ 63 - 2 ^ 64) mod 2 ^ 64 = unsigned_big bs + 2 ^ 63 - 2 ^ 64"
      using r by (intro mod_pos_pos_trivial) simp_all
    then have "(unsigned_big bs + 2 ^ 63) mod 2 ^ 64 = unsigned_big bs + 2 ^ 63 - 2 ^ 64"
      by (metis minus_mod_self2)
    then show ?thesis using False by simp
  qed
  finally show ?thesis using r l by (simp add: from_bytes_signed_def Let_def)
qed

lemma unsigned_big_inj: "length bs = length cs \<Longrightarrow> unsigned_big bs = unsigned_big cs \<Longrightarrow> bs = cs"
proof (induction bs arbitrary: cs rule: rev_induct)
  case (snoc b bs)
  then obtain c ds where cs: "cs = ds @ [c]" by (cases cs rule: rev_cases) auto
  have eq: "256 * unsigned_big bs + int (of_char b) = 256 * unsigned_big ds + int (of_char c)"
    using snoc.prems(2) by (simp add: cs unsigned_big_snoc)
  have byte: "int (of_char b) < 256" "int (of_char c) < 256" using char_byte[of b] char_byte[of c] by simp_all
  have "unsigned_big bs = unsigned_big ds" using eq byte by linarith
  moreover from this have "(of_char b :: nat) = of_char c" using eq by simp
  ultimately show ?case using snoc.IH[of ds] snoc.prems(1) by (simp add: cs)
qed simp

lemma from_bytes_inj:
  assumes "length bs = length cs" and "from_bytes_signed bs = from_bytes_signed cs"
  shows "bs = cs"
proof -
  have "unsigned_big bs = unsigned_big cs"
    using unsigned_big_range[of bs] unsigned_big_range[of cs] assms
    by (auto simp: from_bytes_signed_def Let_def split: if_splits)
  then show ?thesis by (rule unsigned_big_inj[OF assms(1)])
qed

lemma after_colon: "CHR '':'' \<notin> set b \<Longrightarrow> takeWhile (\<lambda>c. c \<noteq> CHR '':'') (rev (a @ '':'' @ b)) = rev b"
  by (auto simp: takeWhile_append)

lemma show_int_no_colon: "CHR '':'' \<notin> set (show_int i)"
proof -
  have "\<not> is_digit (CHR '':'')" by (simp add: is_digit_def digits_def)
  then have "CHR '':'' \<notin> set (show_nat n)" for n using show_nat_digits[of n] by (auto simp: list_all_iff)
  then show ?thesis by (simp add: show_int_def)
qed

lemma lock_text_inj: "lock_text n v = lock_text n' v' \<longleftrightarrow> n = n' \<and> v = v'"
proof
  assume eq: "lock_text n v = lock_text n' v'"
  then have "show_int v = show_int v'"
    using after_colon[OF show_int_no_colon, of n v] after_colon[OF show_int_no_colon, of n' v']
    by (simp only: lock_text_def) simp
  then have "v = v'" by (metis read_show_int)
  then show "n = n' \<and> v = v'" using eq by (simp add: lock_text_def)
qed simp

section \<open>Which requests share a lock\<close>

definition guards_after :: "(string \<Rightarrow> string) \<Rightarrow> string \<Rightarrow> (string \<times> int) list \<Rightarrow> lock_table \<Rightarrow> lock_table" where
  "guards_after blake dialect ks locks =
     foldl (\<lambda>t k. snd (snapshot_create_guard blake dialect (fst k) (snd k) t)) locks ks"

definition lock_table_ok :: "lock_table \<Rightarrow> bool" where
  "lock_table_ok locks \<longleftrightarrow> distinct (map fst locks) \<and> map snd locks = [0..<length locks]"

lemma guard_step:
  assumes "lock_table_ok locks"
  shows "lock_table_ok (snd (snapshot_create_guard blake dialect n v locks))"
    and "map_of locks k = Some l \<Longrightarrow> map_of (snd (snapshot_create_guard blake dialect n v locks)) k = Some l"
    and "dialect \<noteq> ''postgresql'' \<Longrightarrow> \<exists>l. fst (snapshot_create_guard blake dialect n v locks) = Local l \<and>
           map_of (snd (snapshot_create_guard blake dialect n v locks)) (n, v) = Some l"
  using assms by (auto simp: lock_table_ok_def snapshot_create_guard_def get_snapshot_create_lock_def map_of_eq_None_iff
      map_add_def split: option.splits)

lemma guards_after_keeps:
  assumes "lock_table_ok locks"
  shows "lock_table_ok (guards_after blake dialect ks locks) \<and>
    (map_of locks k = Some l \<longrightarrow> map_of (guards_after blake dialect ks locks) k = Some l)"
  using assms guard_step by (induction ks arbitrary: locks) (auto simp: guards_after_def)

lemma table_locks_inj: "lock_table_ok locks \<Longrightarrow> map_of locks k = Some l \<Longrightarrow> map_of locks k' = Some l \<Longrightarrow> k = k'"
proof -
  assume ok: "lock_table_ok locks" and m: "map_of locks k = Some l" "map_of locks k' = Some l"
  have "distinct (map snd locks)" using ok by (simp add: lock_table_ok_def)
  moreover have "(k, l) \<in> set locks" "(k', l) \<in> set locks" using m by (simp_all add: map_of_SomeD)
  ultimately show "k = k'" using inj_onD[of snd "set locks" "(k, l)" "(k', l)"] by (simp add: distinct_map)
qed

text \<open>
  C27. The guard makes exactly the requests for one VM wait for each other. Take any two snapshot requests of a process,
  with any others before and between them. If they name the same VM they get the same lock, whatever the database. Two
  requests for different VMs get different local locks; on PostgreSQL they share an advisory lock only if BLAKE2b
  collides on two different texts. And an advisory key is always a value of PostgreSQL's \<open>bigint\<close>: it is the digest
  read as a signed 64-bit word.
\<close>

theorem guard_serialises_one_vm:
  assumes "\<And>t. length (blake t) = 8"
    and "snapshot_create_guard blake dialect n v (guards_after blake dialect before []) = (a, t1)"
    and "snapshot_create_guard blake dialect n' v' (guards_after blake dialect between t1) = (b, t2)"
  shows "((n, v) = (n', v') \<longrightarrow> a = b) \<and>
    (dialect \<noteq> ''postgresql'' \<longrightarrow> a = b \<longrightarrow> (n, v) = (n', v')) \<and>
    (dialect = ''postgresql'' \<longrightarrow> a = Advisory (sint (word_big (blake (lock_text n v)))) \<and>
       - (2 ^ 63) \<le> sint (word_big (blake (lock_text n v))) \<and> sint (word_big (blake (lock_text n v))) < 2 ^ 63 \<and>
       (a = b \<and> (n, v) \<noteq> (n', v') \<longrightarrow> lock_text n v \<noteq> lock_text n' v' \<and> blake (lock_text n v) = blake (lock_text n' v')))"
proof (cases "dialect = ''postgresql''")
  case True
  have bytes: "length (blake x) = length (blake y)" for x y by (simp add: assms(1))
  have keys: "a = Advisory (from_bytes_signed (blake (lock_text n v)))" "b = Advisory (from_bytes_signed (blake (lock_text n' v')))"
    using assms(2,3) True by (auto simp: snapshot_create_guard_def snapshot_advisory_lock_key_def)
  have "a = b \<Longrightarrow> blake (lock_text n v) = blake (lock_text n' v')"
    using from_bytes_inj[OF bytes] unfolding keys by blast
  moreover have "- (2 ^ 63) \<le> sint (word_big x)" "sint (word_big x) < 2 ^ 63" for x
    using sint_ge[of "word_big x"] sint_lt[of "word_big x"] by simp_all
  ultimately show ?thesis
    using True lock_text_inj[of n v n' v'] unfolding keys from_bytes_word[OF assms(1)] by auto
next
  case False
  have ok0: "lock_table_ok (guards_after blake dialect before [])"
    using guards_after_keeps[of "[]"] by (simp add: lock_table_ok_def)
  obtain l where l: "a = Local l" "map_of t1 (n, v) = Some l" "lock_table_ok t1"
    using guard_step(1)[OF ok0, of blake dialect n v]
      guard_step(3)[OF ok0 False, where blake = blake and n = n and v = v] assms(2) by auto
  have ok1: "lock_table_ok (guards_after blake dialect between t1)"
    and l1: "map_of (guards_after blake dialect between t1) (n, v) = Some l"
    using guards_after_keeps[OF l(3), of blake dialect between] l(2) by auto
  obtain m where m: "b = Local m" "map_of t2 (n', v') = Some m" "lock_table_ok t2" "map_of t2 (n, v) = Some l"
    using guard_step(1)[OF ok1, of blake dialect n' v'] guard_step(2)[OF ok1 l1, of blake dialect n' v']
      guard_step(3)[OF ok1 False, where blake = blake and n = n' and v = v'] assms(3) by auto
  show ?thesis using False l(1) m table_locks_inj[OF m(3), of "(n, v)" l "(n', v')"] by auto
qed

lemma guard_serialises_one_vm_witness:
  "fst (snapshot_create_guard (\<lambda>t. take 8 (rev t @ ''........'')) ''sqlite'' ''node1'' 101
     (guards_after (\<lambda>t. take 8 (rev t @ ''........'')) ''sqlite'' [(''node2'', 101)]
       (snd (snapshot_create_guard (\<lambda>t. take 8 (rev t @ ''........'')) ''sqlite'' ''node1'' 101 [])))) = Local 0"
proof -
  let ?blake = "\<lambda>t. take 8 (rev t @ ''........'')"
  obtain a t1 where first: "snapshot_create_guard ?blake ''sqlite'' ''node1'' 101 (guards_after ?blake ''sqlite'' [] []) = (a, t1)"
    by fastforce
  obtain b t2 where second: "snapshot_create_guard ?blake ''sqlite'' ''node1'' 101
      (guards_after ?blake ''sqlite'' [(''node2'', 101)] t1) = (b, t2)" by fastforce
  have "a = b" using guard_serialises_one_vm[OF _ first second] by simp
  moreover have "a = Local 0"
    using first by (simp add: guards_after_def snapshot_create_guard_def get_snapshot_create_lock_def)
  ultimately show ?thesis using first second by (simp add: guards_after_def)
qed

end
