(* ===== verification/Backend.thy ===== *)
theory Backend
  imports Isolation Accounts Inbox AutoSnapshots QueueMachine
begin

text \<open>
  The backend as one system: requests to the routers, turns of the creation worker and of the background tasks, the start
  and the end of the process, and crashes, in any order. A request or turn runs as a whole here, as it does when
  the event loop does not switch; the interleavings that matter inside them are the subject of \<open>QueueMachine\<close>,
  \<open>SnapshotMachine\<close>, \<open>VmAlloc\<close> and \<open>Oauth\<close>.
\<close>

section \<open>Steps\<close>

datatype inbox_endpoint =
    In_Read int
  | In_Read_All
  | In_Delete int
  | In_Ask string
  | In_Answer int string
  | In_Retract int

fun inbox_request :: "env \<Rightarrow> user \<Rightarrow> inbox_endpoint \<Rightarrow> (sys, unit) prog" where
  "inbox_request e u (In_Read i) = mark_as_read e u i"
| "inbox_request e u In_Read_All = mark_all_as_read e u"
| "inbox_request e u (In_Delete i) = delete_notification e u i"
| "inbox_request e u (In_Ask q) = quietly (create_faq_question e u q)"
| "inbox_request e u (In_Answer i txt) = quietly (answer_faq_question e u i txt)"
| "inbox_request e u (In_Retract i) = delete_faq_question e u i"

definition run_in :: "(sys, 'a) prog \<Rightarrow> proc \<Rightarrow> proc" where
  "run_in m p = p\<lparr>world := snd (m (world p))\<rparr>"

text \<open>The process dies: the FIFO, the worker and the cached connections are gone, the tables stay.\<close>

definition crashed :: "proc \<Rightarrow> proc" where
  "crashed p = p\<lparr>fifo := [], stop_event := False, alive := False, world := (world p)\<lparr>conn_cache := []\<rparr>\<rparr>"

text \<open>
  Every step may find an outside of its own: the environment \<open>e\<close> (what the services answer, and the configuration,
  which a restart may change) is free in each rule.
\<close>

inductive backend_step :: "crypto \<Rightarrow> proc \<Rightarrow> proc \<Rightarrow> bool" for cr where
  vm_call: "backend_step cr p (run_in (serve e node vmid u ep) p)"
| account_call: "backend_step cr p (run_in (account_request cr e a u ac) p)"
| inbox_call: "backend_step cr p (run_in (inbox_request e u ic) p)"
| creation_call: "backend_step cr p (snd (create_vm_endpoint e r u p))"
| worker: "alive p \<Longrightarrow> backend_step cr p (worker_turn e p)"
| expiry: "backend_step cr p (run_in (expire_vms_turn e n) p)"
| backup: "backend_step cr p (run_in (iptables_weekly_backup_turn e n) p)"
| nightly: "backend_step cr p (run_in (daily_snapshot_turn e n) p)"
| notify: "backend_step cr p (run_in (admin_expiry_notify_turn e n) p)"
| report: "backend_step cr p (run_in (discord_daily_turn e render n) p)"
| start_up: "backend_step cr p (snd (startup e p))"
| shut_down: "backend_step cr p (snd (shutdown joined p))"
| crash: "backend_step cr p (crashed p)"
| elapse: "0 \<le> t \<Longrightarrow> backend_step cr p (p\<lparr>world := (world p)\<lparr>clk := clk (world p) + t\<rparr>\<rparr>)"

inductive_cases backend_stepE: "backend_step cr p q"

text \<open>The invariant: well-formed tables, and a job that has not ended has no VM id.\<close>

definition system_ok :: "database \<Rightarrow> bool" where
  "system_ok d \<longleftrightarrow> tables_ok d \<and> (\<forall>j \<in> set (jobs d). pending j \<longrightarrow> j_vmid j = None)"

section \<open>Requests keep the invariant\<close>

lemma system_ok_frame: "system_ok d \<Longrightarrow> jobs d' = jobs d \<Longrightarrow> tables_ok d' \<Longrightarrow> system_ok d'"
  by (simp add: system_ok_def)

text \<open>A program that keeps the tables well formed and the jobs as they are.\<close>

lemma db_inv_system:
  assumes "db_inv tables_ok m" and "\<And>js. db_inv (\<lambda>d. ids_ok d \<and> jobs d = js) m"
  shows "db_inv system_ok m"
  unfolding db_inv_def
proof (intro allI impI)
  fix s :: sys assume ok: "system_ok (db s)"
  then have "tables_ok (db s)" "ids_ok (db s)" by (simp_all add: system_ok_def tables_ok_def)
  then show "system_ok (db (snd (m s)))"
    using assms(1) assms(2)[of "jobs (db s)"] system_ok_frame[OF ok] unfolding db_inv_def by blast
qed

interpretation jobs_kept: vm_row_invariant "\<lambda>d. ids_ok d \<and> jobs d = js" UNIV u for js u
  by unfold_locales
    (auto simp: set_vm_ids delete_rows_ids ids_ports_added ports_added dropped_ids,
      auto simp: set_vm_def delete_vm_rows_def drop_vm_def add_notification_def drop_port_def drop_route_def set_synced_def
        add_route_row_def split: option.splits)

lemma serve_system: "db_inv system_ok (serve e node vmid u ep)"
  by (rule db_inv_system[OF serve_tables jobs_kept.served])


lemma user_tables:
  "tables_ok d \<Longrightarrow> constraints_ok (add_user v d) \<Longrightarrow> tables_ok (add_user v d)"
  "tables_ok d \<Longrightarrow> tables_ok (drop_user i d)"
  "tables_ok d \<Longrightarrow> (\<And>x. x \<in> set (users d) \<Longrightarrow> u_id x = i \<Longrightarrow>
     u_id (f x) = i \<and> u_email (f x) = u_email x \<and> u_role (f x) = u_role x) \<Longrightarrow> tables_ok (set_user i f d)"
proof -
  assume ok: "tables_ok d"
  then have ids: "ids_ok d" by (simp add: tables_ok_def)
  show "tables_ok (add_user v d)" if "constraints_ok (add_user v d)"
    using ok that by (simp add: tables_ok_def) (auto simp: add_user_def ids_ok_def refs_ok_def)
  show "tables_ok (drop_user i d)"
    using ok by (auto simp: tables_ok_def drop_user_def constraints_ok_def ids_ok_def refs_ok_def map_update_rows
        set_update_rows intro: distinct_map_delete_rows)
  assume f: "\<And>x. x \<in> set (users d) \<Longrightarrow> u_id x = i \<Longrightarrow>
     u_id (f x) = i \<and> u_email (f x) = u_email x \<and> u_role (f x) = u_role x"
  have "map g (update_rows (\<lambda>x. u_id x = i) f (users d)) = map g (users d)"
    if "\<And>x. x \<in> set (users d) \<Longrightarrow> u_id x = i \<Longrightarrow> g (f x) = g x" for g :: "user \<Rightarrow> 'b"
    using that by (simp add: update_rows_def)
  from this[of u_id] this[of "\<lambda>x. (u_email x, u_role x)"] show "tables_ok (set_user i f d)"
    using ok f by (auto simp: tables_ok_def set_user_def constraints_ok_def ids_ok_def refs_ok_def set_update_rows)
qed

lemma code_tables:
  "tables_ok d \<Longrightarrow> tables_ok (clear_codes email role d)" "tables_ok d \<Longrightarrow> tables_ok (drop_code i d)"
  "tables_ok d \<Longrightarrow> tables_ok (set_code i g d)" "tables_ok d \<Longrightarrow> tables_ok (add_verification r d)"
  by (auto simp: tables_ok_def constraints_ok_def ids_ok_def refs_ok_def clear_codes_def drop_code_def set_code_def
      add_verification_def)

lemma account_jobs [simp]:
  "jobs (clear_codes email role d) = jobs d" "jobs (drop_code i d) = jobs d" "jobs (set_code i g d) = jobs d"
  "jobs (add_verification r d) = jobs d" "jobs (add_user v d) = jobs d" "jobs (set_user i f d) = jobs d"
  "jobs (drop_user i d) = jobs d"
  by (simp_all add: clear_codes_def drop_code_def set_code_def add_verification_def add_user_def set_user_def drop_user_def)

lemma system_tables: "system_ok d \<Longrightarrow> tables_ok d"
  by (simp add: system_ok_def)

lemma linked_same: "linked_user pf x = Inr v \<Longrightarrow> u_id v = u_id x \<and> u_email v = u_email x \<and> u_role v = u_role x"
  by (auto simp: linked_user_def andthen_Inr_iff Let_def split: if_splits)

lemma account_rows:
  assumes "system_ok d"
  shows "system_ok (clear_codes email role d)" "system_ok (drop_code i d)" "system_ok (set_code i g d)"
    "system_ok (add_verification r d)" "constraints_ok (add_user v d) \<Longrightarrow> system_ok (add_user v d)" "system_ok (drop_user i d)"
    "(\<And>x. x \<in> set (users d) \<Longrightarrow> u_id x = i \<Longrightarrow>
       u_id (f x) = i \<and> u_email (f x) = u_email x \<and> u_role (f x) = u_role x) \<Longrightarrow> system_ok (set_user i f d)"
  by (rule system_ok_frame[OF assms]; simp add: code_tables user_tables system_tables[OF assms])+

interpretation accounts_kept: account_invariant system_ok "\<lambda>_. True" cr u for cr u
proof
  fix d x pf v assume P: "system_ok d" and x: "x \<in> set (users d)" "linked_user pf x = Inr v"
  have "y = x" if "y \<in> set (users d)" "u_id y = u_id x" for y
    using that x(1) system_tables[OF P] by (auto simp: tables_ok_def ids_ok_def distinct_map dest: inj_onD)
  then show "system_ok (set_user (u_id x) (\<lambda>_. v) d)"
    using linked_same[OF x(2)] by (intro account_rows(7)[OF P]) auto
qed (simp_all add: account_rows set_password_def)

lemma account_system: "db_inv system_ok (account_request cr e a u ac)"
  by (rule accounts_kept.request_kept)


text \<open>Rows that neither the constraints nor the references mention.\<close>

lemma side_rows:
  assumes "system_ok d"
  shows "system_ok (d\<lparr>notifications := ns\<rparr>)" "system_ok (d\<lparr>faqs := fs\<rparr>)" "system_ok (add_faq q d)"
    "system_ok (add_notification i ty msg t d)" "system_ok (delete_vm_rows v t d)" "system_ok (set_answer i txt t d)"
proof -
  have ok: "tables_ok d" by (rule system_tables[OF assms])
  then have "tables_ok (d\<lparr>notifications := ns\<rparr>)" "tables_ok (d\<lparr>faqs := fs\<rparr>)" "tables_ok (add_faq q d)" for ns fs q
    by (auto simp: tables_ok_def constraints_ok_def ids_ok_def refs_ok_def add_faq_def)
  then show "system_ok (d\<lparr>notifications := ns\<rparr>)" "system_ok (d\<lparr>faqs := fs\<rparr>)" "system_ok (add_faq q d)"
    "system_ok (set_answer i txt t d)"
    by (simp_all add: system_ok_frame[OF assms] add_faq_def set_answer_def)
  show "system_ok (add_notification i ty msg t d)" "system_ok (delete_vm_rows v t d)"
    by (rule system_ok_frame[OF assms _ tables_notify[OF ok]] system_ok_frame[OF assms _ tables_delete_rows[OF ok]],
        simp add: add_notification_def delete_vm_rows_def drop_vm_def split: option.split)+
qed

lemma inbox_system: "db_inv system_ok (inbox_request e u ic)"
  by (cases ic; simp only: inbox_request.simps mark_as_read_def mark_all_as_read_def delete_notification_def
      create_faq_question_def answer_faq_question_def delete_faq_question_def quietly_def Let_def)
    (intro db_inv_read inv_intros side_rows | assumption)+


section \<open>The creation queue keeps the invariant\<close>

lemma create_system: "db_inv system_ok (create_vm e u r)"
  unfolding db_inv_def
proof (intro allI impI)
  fix s :: sys assume ok: "system_ok (db s)"
  obtain res s' where run: "create_vm e u r s = (res, s')" by fastforce
  have "tables_ok (db s')"
    using create_vm_tables_ok[of e u r] system_tables[OF ok] run unfolding db_inv_def by (metis snd_conv)
  then show "system_ok (db (snd (create_vm e u r s)))"
    using system_ok_frame[OF ok create_vm_frame(1)[OF run]] run by simp
qed

lemma system_jobs:
  "system_ok d \<Longrightarrow> tables_ok d' \<Longrightarrow> (\<And>j. j \<in> set (jobs d') \<Longrightarrow> pending j \<Longrightarrow> \<exists>k \<in> set (jobs d). pending k \<and> j_vmid j = j_vmid k) \<Longrightarrow>
     system_ok d'"
  unfolding system_ok_def by metis

lemma process_system: "db_inv system_ok (process_vm_creation_job e i)"
proof (rule process_keeps[OF _ _ create_system])
  fix i and f :: "vm_job \<Rightarrow> vm_job" and d
  assume ok: "system_ok d" and f: "\<And>j. j_id (f j) = j_id j" "\<And>j. \<not> pending (f j)"
  have "tables_ok (set_job i f d)"
    using system_tables[OF ok] f by (auto simp: tables_ok_def pending_def rewrite_mem split: if_splits)
  then show "system_ok (set_job i f d)"
    by (rule system_jobs[OF ok]) (use f(2) in \<open>auto simp: rewrite_mem split: if_splits\<close>)
next
  fix i t d assume ok: "system_ok d"
  have "tables_ok (claim_rows i t d)"
    using system_tables[OF ok] by (auto simp: tables_ok_def claimed_mem claim_row_def split: if_splits)
  then show "system_ok (claim_rows i t d)"
    by (rule system_jobs[OF ok])
      (force simp: claimed_mem claim_row_def claimable_def pending_def split: if_splits)
qed

text \<open>A program of the process keeps the invariant of its tables.\<close>

definition process_ok :: "(proc, 'a) prog \<Rightarrow> bool" where
  "process_ok m \<longleftrightarrow> (\<forall>p. system_ok (db (world p)) \<longrightarrow> system_ok (db (world (snd (m p)))))"

lemma process_ok_basic:
  "process_ok (ret x)" "process_ok (raise ex)" "process_ok (lift r)" "process_ok (gets g)" "process_ok (put i)"
  "process_ok next_job_id" "db_inv system_ok m \<Longrightarrow> process_ok (at_world m)"
  "(\<And>p. db (world (h p)) = db (world p)) \<Longrightarrow> process_ok (modify h)"
  by (auto simp: process_ok_def ret_def raise_def lift_def gets_def put_def modify_def next_job_id_def at_world_def db_inv_def
      split: prod.splits sum.splits dest: sym)

lemma process_ok_seq: "process_ok m \<Longrightarrow> (\<And>x. process_ok (k x)) \<Longrightarrow> process_ok (seq m k)"
  by (auto simp: process_ok_def seq_def split: prod.splits sum.splits)

lemma process_ok_catch: "process_ok m \<Longrightarrow> (\<And>x. process_ok (k x)) \<Longrightarrow> process_ok (catch m k)"
  by (auto simp: process_ok_def catch_def split: prod.splits sum.splits)

lemma process_ok_read:
  "(\<And>d. system_ok d \<Longrightarrow> process_ok (k d)) \<Longrightarrow> process_ok (seq (gets (\<lambda>p. db (world p))) k)"
  by (auto simp: process_ok_def seq_def gets_def)

lemma process_ok_each: "(\<And>x. process_ok (f x)) \<Longrightarrow> process_ok (for_each xs f)"
  by (induction xs) (auto intro: process_ok_basic process_ok_seq)


lemma enqueue_system: "process_ok (create_vm_endpoint e r u)"
proof -
  have row: "process_ok (at_world (commit e (d\<lparr>jobs := jobs d @ [new_job i u r' t]\<rparr>)))" if "system_ok d" for d i t r'
  proof (rule process_ok_basic(7), rule db_inv_commit)
    assume "constraints_ok (d\<lparr>jobs := jobs d @ [new_job i u r' t]\<rparr>)"
    then show "system_ok (d\<lparr>jobs := jobs d @ [new_job i u r' t]\<rparr>)"
      using that by (auto simp: system_ok_def tables_ok_def ids_ok_def refs_ok_def new_job_def)
  qed
  have "process_ok (enqueue_vm_creation e u r')" for r'
    unfolding enqueue_vm_creation_def Let_def
    by (intro process_ok_read row process_ok_seq process_ok_basic db_inv_basic | assumption)+
  then show ?thesis unfolding create_vm_endpoint_def by (auto intro: process_ok_basic split: sum.split)
qed

lemma requeued_system: "system_ok d \<Longrightarrow> system_ok (requeue_rows d)"
proof -
  assume ok: "system_ok d"
  have "map j_id (requeued (jobs d)) = map j_id (jobs d)"
    by (simp add: requeued_def map_update_rows requeue_row_def)
  then have "tables_ok (requeue_rows d)"
    using ok by (auto simp: system_ok_def tables_ok_def constraints_ok_def requeued_mem)
      (auto simp: requeue_rows_def ids_ok_def refs_ok_def requeue_row_def pending_def split: if_splits)
  then show ?thesis
    by (rule system_jobs[OF ok]) (auto simp: requeued_mem requeue_row_def pending_def split: if_splits)
qed

lemma started_system: "process_ok (start_vm_creation_worker e)"
proof -
  have "process_ok (recover_pending_jobs e)"
    unfolding recover_pending_jobs_def
    by (rule process_ok_read, intro process_ok_seq process_ok_each process_ok_basic)
      (auto intro: process_ok_basic db_inv_commit requeued_system)
  then show ?thesis
    unfolding start_vm_creation_worker_def
    by (intro process_ok_seq) (auto intro!: process_ok_basic process_ok_seq process_ok_catch)
qed

lemma stopped_system: "process_ok (stop_vm_creation_worker joined)"
  unfolding stop_vm_creation_worker_def by (intro process_ok_seq) (auto intro!: process_ok_basic process_ok_seq)

lemma worker_system: "system_ok (db (world p)) \<Longrightarrow> system_ok (db (world (worker_turn e p)))"
  using process_system[of e] by (auto simp: worker_turn_def db_inv_def split: list.split option.split)

section \<open>The configuration and the tasks keep the invariant\<close>

lemma sync_one_ids: "ids_ok d \<Longrightarrow> ids_ok (sync_one rs c d)"
  by (auto simp: sync_one_def ids_ok_def new_server_def map_update_rows set_update_rows split: option.split) metis

lemma sync_one_frame:
  "next_id d \<le> next_id (sync_one rs c d)" "jobs (sync_one rs c d) = jobs d" "vm_ports (sync_one rs c d) = vm_ports d"
  "https_routes (sync_one rs c d) = https_routes d"
  by (auto simp: sync_one_def split: option.split)

lemma sync_rows_frame:
  "ids_ok d \<Longrightarrow> ids_ok (foldl (\<lambda>w c. sync_one rs c w) d cs)"
  "next_id d \<le> next_id (foldl (\<lambda>w c. sync_one rs c w) d cs)" "jobs (foldl (\<lambda>w c. sync_one rs c w) d cs) = jobs d"
  "vm_ports (foldl (\<lambda>w c. sync_one rs c w) d cs) = vm_ports d"
  "https_routes (foldl (\<lambda>w c. sync_one rs c w) d cs) = https_routes d"
  by (induction cs arbitrary: d) (auto simp: sync_one_ids sync_one_frame intro: order_trans[OF sync_one_frame(1)])

lemma sync_system: "db_inv system_ok (sync_servers e)"
proof -
  have "system_ok (sync_rows cs d)" if ok: "system_ok d" and c: "constraints_ok (sync_rows cs d)" for cs d
  proof (rule system_ok_frame[OF ok])
    have "refs_ok (sync_rows cs d)"
      using system_tables[OF ok] sync_rows_frame(2)[of d "servers d" cs]
      by (auto simp: tables_ok_def refs_ok_def sync_rows_def sync_rows_frame intro: less_le_trans)
    then show "tables_ok (sync_rows cs d)"
      using system_tables[OF ok] c by (simp add: tables_ok_def sync_rows_def sync_rows_frame)
  qed (simp add: sync_rows_def sync_rows_frame)
  then show ?thesis
    unfolding sync_servers_def Let_def by (intro db_inv_cases db_inv_read db_inv_catch db_inv_commit db_inv_basic)
qed

lemma startup_system: "process_ok (startup e)" "process_ok (shutdown joined)"
  unfolding startup_def shutdown_def
  by (intro process_ok_seq process_ok_basic started_system stopped_system sync_system)+


lemma delete_system: "db_inv system_ok (delete_vm e v purge)"
proof -
  have tail: "db_inv system_ok (seq (gets db) (\<lambda>d. commit e (delete_vm_rows v t d)))" for t
    by (rule db_inv_read, rule db_inv_commit, rule side_rows)
  show ?thesis
    unfolding delete_vm_def by (intro inv_intros tail) (rule db_inv_keeps, intro keeps_intros)+
qed

lemma notify_each_system: "system_ok d \<Longrightarrow> system_ok (notify_each is ty msg t d)"
  unfolding notify_each_def by (induction "is" arbitrary: d) (auto intro: side_rows)

lemma warnings_system: "system_ok d \<Longrightarrow> system_ok (add_warnings ws t d)"
  unfolding add_warnings_def by (induction ws arbitrary: d) (auto intro: side_rows)

lemma turn_system:
  assumes "db_inv system_ok body" and "db_inv system_ok rest"
  shows "db_inv system_ok (task_turn e task body rest n)"
proof -
  have "db_inv system_ok (notify_admins_background_failure e task k)" for k
    unfolding notify_admins_background_failure_def
    by (intro db_inv_catch db_inv_read db_inv_seq db_inv_basic db_inv_commit notify_each_system)
  then show ?thesis unfolding task_turn_def by (intro inv_intros assms)
qed

lemma wait_system: "db_inv system_ok (wait_for_hour hours n)" "db_inv system_ok (wait_for_midnight n)"
  unfolding wait_for_hour_def wait_for_midnight_def by (intro inv_intros)+

lemma expire_system: "db_inv system_ok (expire_vms_turn e n)"
proof -
  have "db_inv system_ok (process_grace_vms e t)" for t
    unfolding process_grace_vms_def notify_grace_def stop_expired_def
    by (intro db_inv_read db_inv_for_each db_inv_seq db_inv_catch db_inv_cases db_inv_basic db_inv_commit side_rows
        db_inv_keeps[OF keeps_get_proxmox])
  moreover have "db_inv system_ok (delete_overdue e v)" for v
    unfolding delete_overdue_def
    by (intro db_inv_read db_inv_seq db_inv_catch db_inv_cases db_inv_basic db_inv_commit side_rows delete_system)
  moreover have "system_ok (clear_old t d)" if "system_ok d" for t d
    using that unfolding clear_old_def by (rule side_rows)
  ultimately have "db_inv system_ok (expire_pass e)"
    unfolding expire_pass_def
    by (intro db_inv_seq[OF db_inv_basic(6)] db_inv_seq db_inv_for_each db_inv_commit warnings_system db_inv_read | assumption)+
  then show ?thesis unfolding expire_vms_turn_def by (intro turn_system inv_intros)
qed

lemma task_system:
  "db_inv system_ok (iptables_weekly_backup_turn e n)" "db_inv system_ok (daily_snapshot_turn e n)"
  "db_inv system_ok (admin_expiry_notify_turn e n)" "db_inv system_ok (discord_daily_turn e render n)"
proof -
  have "db_inv system_ok (iptables_backup_pass e)"
    unfolding iptables_backup_pass_def backup_gateway_def backup_iptables_def
    by (rule db_inv_keeps) (intro keeps_intros)
  then show "db_inv system_ok (iptables_weekly_backup_turn e n)"
    unfolding iptables_weekly_backup_turn_def by (intro turn_system inv_intros)
  have "db_inv system_ok (snapshot_pass e)"
    unfolding snapshot_pass_def wait_snap_deletes_def by (rule db_inv_keeps) (intro keeps_intros)
  then show "db_inv system_ok (daily_snapshot_turn e n)"
    unfolding daily_snapshot_turn_def by (intro turn_system db_inv_seq wait_system inv_intros)
  have "db_inv system_ok (send_admin_expiry_notifications e t)" for t
    unfolding send_admin_expiry_notifications_def
    by (intro db_inv_read db_inv_cases db_inv_seq db_inv_basic db_inv_commit notify_each_system)
  then show "db_inv system_ok (admin_expiry_notify_turn e n)"
    unfolding admin_expiry_notify_turn_def by (intro turn_system db_inv_seq wait_system inv_intros)
  have "db_inv system_ok (collect_discord_daily_report e t)" "db_inv system_ok (send_discord_message e c)" for t c
    unfolding collect_discord_daily_report_def report_node_def send_discord_message_def
    by (rule db_inv_keeps, intro keeps_intros)+
  then show "db_inv system_ok (discord_daily_turn e render n)"
    unfolding discord_daily_turn_def by (intro turn_system db_inv_seq wait_system inv_intros)
qed


section \<open>The whole backend\<close>

lemma run_in_system: "db_inv system_ok m \<Longrightarrow> system_ok (db (world p)) \<Longrightarrow> system_ok (db (world (run_in m p)))"
  by (simp add: db_inv_def run_in_def)

lemma process_okD: "process_ok m \<Longrightarrow> system_ok (db (world p)) \<Longrightarrow> system_ok (db (world (snd (m p))))"
  by (simp add: process_ok_def)

interpretation backend: invariant_system "\<lambda>p. system_ok (db (world p))" "backend_step cr" "\<lambda>p. system_ok (db (world p))" for cr
proof
  fix p q assume ok: "system_ok (db (world p))" and "backend_step cr p q"
  from this(2) show "system_ok (db (world q))"
    by (rule backend_stepE) (simp_all add: ok crashed_def worker_system process_okD[OF _ ok] enqueue_system startup_system
        run_in_system[OF _ ok] serve_system account_system inbox_system expire_system task_system)
qed

text \<open>
  C28. The tables of the whole backend stay well formed. Start from tables that satisfy the invariant (the constraints
  hold, ids are unique and bounded, ports and routes refer to VMs that exist or have existed, and a job that waits or
  runs has no VM id), for instance the empty ones. Then it holds in every state the backend can reach through requests
  to any router by anybody, turns of the creation worker and of the background tasks, starts and ends of the process
  and crashes, in any order and however the services around the backend answer.
\<close>

theorem backend_keeps_tables:
  assumes "system_ok (db (world p))" and "(backend_step cr)\<^sup>*\<^sup>* p q"
  shows "system_ok (db (world q))"
  using assms by (rule backend.inv_reachable)

lemma backend_keeps_tables_witness:
  "system_ok (db (world (snd (startup create_env (crashed (worker_turn create_env sample_backlog))))))"
proof (rule backend_keeps_tables[where p = sample_backlog and cr = sample_crypto])
  show "system_ok (db (world sample_backlog))"
    using sample_backlog_ok unfolding system_ok_def
    by (rule conjI) (simp_all add: sample_backlog_def sample_proc_def sample_state_def sample_job_def new_job_def pending_def)
  have "alive sample_backlog" by (simp add: sample_backlog_def sample_proc_def)
  then show "(backend_step sample_crypto)\<^sup>*\<^sup>* sample_backlog (snd (startup create_env (crashed (worker_turn create_env sample_backlog))))"
    by (meson worker crash start_up rtranclp.rtrancl_refl rtranclp.rtrancl_into_rtrancl)
qed

end
