(* ===== verification/GatewayShell.thy ===== *)
theory GatewayShell
  imports PortRoutes
begin

text \<open>
  What of a request reaches the shell of the gateway. The source of a custom port is checked by Python's
  \<open>ipaddress\<close> (\<open>schemas/fw_schema.py\<close>, and again by \<open>_normalize_source_ip\<close>), and then written into the
  text of a command that the gateway's shell runs. \<open>ipaddress\<close> accepts any text as the scope of an IPv6 address.
\<close>

section \<open>What a source can hold\<close>

definition address_char :: "char \<Rightarrow> bool" where
  "address_char c \<longleftrightarrow> c \<in> set hex_digits \<or> c \<in> {CHR ''.'', CHR '':'', CHR ''/''}"

lemma address_digit: "list_all is_digit s \<Longrightarrow> list_all address_char s"
proof -
  have "set digits \<subseteq> set hex_digits" by (simp add: digits_def hex_digits_def)
  then show "list_all is_digit s \<Longrightarrow> list_all address_char s"
    unfolding list_all_iff address_char_def is_digit_def by blast
qed

lemma joined_chars:
  assumes "split_char x s = ps" and "address_char x" and "\<And>p. p \<in> set ps \<Longrightarrow> list_all address_char p"
  shows "list_all address_char s"
proof -
  have "set (join [x] qs) \<subseteq> insert x (\<Union>q \<in> set qs. set q)" for qs
    by (induction "[x]" qs rule: join.induct) auto
  from this[of ps] show ?thesis using assms join_split_char[of x s] by (auto simp: list_all_iff)
qed


lemma octets: "v4_address s \<noteq> None \<Longrightarrow> list_all address_char s"
  by (rule joined_chars[where x = "CHR ''.''", OF refl])
    (auto simp: v4_address_def v4_octet_def Let_def address_char_def list_all_iff[of v4_octet] address_digit split: if_splits)

lemma v4_network_chars: "v4_network s \<Longrightarrow> list_all address_char s"
proof (rule joined_chars[where x = "CHR ''/''", OF refl])
  fix p assume "v4_network s" and p: "p \<in> set (split_char (CHR ''/'') s)"
  then consider "v4_address p \<noteq> None" | "v4_mask p"
    by (auto simp: v4_network_def split: list.splits)
  then show "list_all address_char p"
    by cases (auto simp: v4_mask_def intro: octets address_digit split: option.splits)
qed (simp add: address_char_def)

lemma hextet_chars: "hextet p \<Longrightarrow> list_all address_char p"
  by (auto simp: hextet_def address_char_def list_all_iff)

lemma parts_hextets:
  assumes "v6_parts ps" and "p \<in> set ps"
  shows "p = [] \<or> hextet p"
proof (cases "inner_empty ps")
  case Nil
  then show ?thesis using assms by (auto simp: v6_parts_def list_all_iff)
next
  case (Cons k ks)
  then have ks: "ks = []" using assms(1) by (auto simp: v6_parts_def split: list.splits)
  let ?his = "take k ps" and ?los = "drop (Suc k) ps"
  have "k \<in> set (inner_empty ps)" using Cons by simp
  then have k: "1 \<le> k" "k < length ps - 1" "ps ! k = []" by (auto simp: inner_empty_def)
  then have "ps = ?his @ [] # ?los" using id_take_nth_drop[of k ps] by simp
  with assms(2) consider "p \<in> set ?his" | "p = []" | "p \<in> set ?los" by (metis Un_iff set_ConsD set_append)
  then show ?thesis
  proof cases
    case 1
    then have "p = hd ps \<or> p \<in> set (tl ?his)" using k by (cases ps) (auto simp: take_Cons')
    moreover have "list_all hextet (if hd ps = [] then tl ?his else ?his)"
      using assms(1) Cons ks by (simp add: v6_parts_def Let_def split del: if_split)
    ultimately show ?thesis using 1 by (auto simp: list_all_iff split: if_splits)
  next
    case 3
    then have los: "?los \<noteq> []" "last ?los = last ps" using k by auto
    then have "p = last ps \<or> p \<in> set (butlast ?los)" using 3 by (metis append_butlast_last_id in_set_butlastD set_append Un_iff empty_iff empty_set set_ConsD)
    moreover have "list_all hextet (if last ps = [] then butlast ?los else ?los)"
      using assms(1) Cons ks by (simp add: v6_parts_def Let_def split del: if_split)
    ultimately show ?thesis using 3 by (auto simp: list_all_iff split: if_splits)
  qed simp
qed

lemma numeric_chars:
  assumes "v6_numeric s"
  shows "list_all address_char s"
proof (rule joined_chars[where x = "CHR '':''", OF refl])
  let ?ps = "split_char (CHR '':'') s"
  fix p assume p: "p \<in> set ?ps"
  show "list_all address_char p"
  proof (cases "CHR ''.'' \<in> set (last ?ps)")
    case True
    with assms have l: "v4_address (last ?ps) \<noteq> None" "v6_parts (butlast ?ps @ [''0'', ''0''])"
      by (simp_all add: v6_numeric_def Let_def)
    have "p \<in> set (butlast ?ps) \<or> p = last ?ps" using p by (metis append_butlast_last_id empty_iff empty_set Un_iff set_append set_ConsD)
    then show ?thesis using parts_hextets[OF l(2), of p] octets[OF l(1)] hextet_chars by auto
  next
    case False
    with assms have "v6_parts ?ps" by (simp add: v6_numeric_def Let_def)
    from parts_hextets[OF this p] show ?thesis using hextet_chars by auto
  qed
qed (simp add: address_char_def)

text \<open>Without a percent sign, a source that is accepted holds nothing that a shell would read as more than a word.\<close>

lemma no_scope: "CHR ''%'' \<notin> set s \<Longrightarrow> split_once ''%'' s = None"
  by (induction s) auto

lemma unscoped_source:
  assumes "is_ip_network s" and "CHR ''%'' \<notin> set s"
  shows "list_all address_char s"
proof (cases "v4_network s")
  case False
  have un: "list_all address_char a" if "v6_address a" "CHR ''%'' \<notin> set a" for a
    using that numeric_chars no_scope[of a] by (auto simp: v6_address_def split: option.splits)
  have sub: "CHR ''%'' \<notin> set w" if "w \<in> set (split_char (CHR ''/'') s)" for w
    using split_char_set[OF that] assms(2) by auto
  show ?thesis
  proof (rule joined_chars[where x = "CHR ''/''", OF refl])
    fix p assume p: "p \<in> set (split_char (CHR ''/'') s)"
    then have "v6_address p \<or> list_all is_digit p"
      using assms(1) False by (auto simp: is_ip_network_def v6_network_def split: list.splits)
    then show "list_all address_char p" using un sub[OF p] address_digit by blast
  qed (simp add: address_char_def)
qed (rule v4_network_chars)


section \<open>A source that is a command\<close>

lemma scoped_source:
  assumes "cmd \<noteq> []" and "CHR ''%'' \<notin> set cmd" and "CHR ''/'' \<notin> set cmd"
  shows "is_ip_network (''::1%'' @ cmd)"
proof -
  have "split_char (CHR ''/'') (''::1%'' @ cmd) = [''::1%'' @ cmd]" using assms(3) by (intro split_char_none) auto
  moreover have "split_once ''%'' (''::1'' @ ''%'' @ cmd) = Some (''::1'', cmd)" by (rule split_once_append) auto
  moreover have "v6_numeric ''::1''" by code_simp
  ultimately show ?thesis using assms(1,2) by (simp add: is_ip_network_def v6_network_def v6_address_def)
qed

lemma calls_grow: "logs A m \<Longrightarrow> m s = (r, s') \<Longrightarrow> set (calls s) \<subseteq> set (calls s')"
  by (auto dest!: logsD)

text \<open>The first command of a list is run as an inspection before anything else; no success without it.\<close>

lemma inspected:
  assumes "split_once '' || '' c = Some (chk, add)" and "inspect_rules e h (c # cs) s = (Inr (Some p), s')"
  shows "SshExec h chk \<in> set (calls s')"
proof -
  let ?look = "catch (seq (exec_status e h chk) (\<lambda>st. ret (Some st))) (\<lambda>_. ret None)"
  from assms have "seq ?look (\<lambda>r. case r of None \<Rightarrow> ret None | Some st \<Rightarrow>
       if st = 0 then inspect_rules e h cs else if st \<noteq> 1 then ret None
       else seq (inspect_rules e h cs) (\<lambda>rest. ret (map_option (Cons (chk, add, replace_once ''-C '' ''-D '' chk)) rest))) s
     = (Inr (Some p), s')" (is "seq _ ?k s = _") by simp
  then obtain r t where look: "?look s = (Inr r, t)" and rest: "?k r t = (Inr (Some p), s')"
    unfolding seq_Inr_iff by blast
  have "SshExec h chk \<in> set (calls t)"
    using look by (auto simp: exec_status_def catch_def seq_def ext_def lift_def ret_def split: sum.splits prod.splits)
  moreover have "logs gateway_calls (?k r)" by (intro logs_intros)
  then have "set (calls t) \<subseteq> set (calls s')" by (rule calls_grow) (rule rest)
  ultimately show ?thesis by blast
qed

lemma first_check_sent:
  assumes c: "split_once '' || '' c = Some (chk, add)" and n: "length rbs = Suc (length cs)"
    and run: "with_gateway e h user (c # cs) (Some rbs) s = (Inr True, s')"
  shows "SshExec h chk \<in> set (calls s')"
proof -
  from run obtain t1 j where "run_iptables_commands e h (c # cs) (Some rbs) t1 = (Inr True, j)"
    and grow1: "set (calls j) \<subseteq> set (calls s')"
  proof -
    let ?tail = "\<lambda>success. seq (if success then backup_iptables e h else ret ()) (\<lambda>_. ret success)"
    let ?run = "run_iptables_commands e h (c # cs) (Some rbs)"
    from run have "seq (ext e (SshConnect h user)) (\<lambda>_. seq ?run ?tail) s = (Inr True, s')"
      by (auto simp: with_gateway_def catch_def ret_def split: prod.splits sum.splits)
    then obtain t1 where "seq ?run ?tail t1 = (Inr True, s')" unfolding seq_Inr_iff[of "ext e (SshConnect h user)"] by blast
    then obtain b j where r: "?run t1 = (Inr b, j)" and l: "?tail b j = (Inr True, s')"
      unfolding seq_Inr_iff[of ?run] by blast
    have "logs gateway_calls (?tail b)"
      unfolding backup_iptables_def by (intro logs_intros) (auto simp: gateway_calls_def)
    then have "set (calls j) \<subseteq> set (calls s')" by (rule calls_grow) (rule l)
    moreover have b using l by (auto simp: seq_Inr_iff ret_def)
    ultimately show ?thesis using r that by auto
  qed
  then have "seq (inspect_rules e h (c # cs)) (\<lambda>p. case p of None \<Rightarrow> ret False | Some ps \<Rightarrow>
      seq (add_rules e h ps []) (\<lambda>(success, attempted).
      seq (roll_back e h (if success then [] else attempted)) (\<lambda>_. ret success))) t1 = (Inr True, j)" (is "seq _ ?k t1 = _")
    using n by (cases rbs) (simp_all add: run_iptables_commands_def)
  then obtain p t where p: "inspect_rules e h (c # cs) t1 = (Inr p, t)" and k: "?k p t = (Inr True, j)"
    unfolding seq_Inr_iff by blast
  then obtain ps where "p = Some ps" by (cases p) (auto simp: ret_def)
  with p have "SshExec h chk \<in> set (calls t)" using inspected[OF c] by blast
  moreover have "logs gateway_calls (?k p)" unfolding roll_back_def by (intro logs_intros)
  then have "set (calls t) \<subseteq> set (calls j)" by (rule calls_grow) (rule k)
  ultimately show ?thesis using grow1 by blast
qed


lemma custom_rule_sent:
  assumes "manage_custom_iptables e srv vm_ip internal external proto ''ADD'' (Some src) s = (Inr True, s')"
    and "src \<notin> {'''', ''0.0.0.0/0'', ''0.0.0.0''}" and bar: "CHR ''|'' \<notin> set src"
  shows "\<exists>h rest. SshExec h (''sudo iptables -t nat -C PREROUTING -s '' @ src @ rest) \<in> set (calls s')"
proof -
  let ?src = "''-s '' @ src @ '' ''" and ?gw = "GATEWAY_PUBLIC_IP (conf e)"
  let ?rule = "''PREROUTING '' @ dnat_args ?src proto ?gw external vm_ip internal"
  let ?chk = "check_cmd (iptables_base (Some ''nat'')) ?rule" and ?add = "add_cmd (iptables_base (Some ''nat'')) ?rule"
  have known: "proto \<in> VALID_PROTOCOLS" "validate_ip vm_ip = Inr vm_ip" "validate_ip ?gw = Inr ?gw"
    using assms(1) validate_ip_chars by (auto simp: manage_custom_iptables_def seq_Inr_iff)
  obtain h user t c2 r1 r2 where run: "with_gateway e h user [?chk @ '' || '' @ ?add, c2] (Some [r1, r2]) t = (Inr True, s')"
    using assms(1,2)
    by (auto simp: manage_custom_iptables_def seq_Inr_iff normalize_source_ip_def port_commands_def
        iptables_command_def andthen_Inr_iff Let_def ret_def split: option.splits prod.splits if_splits)
  have "CHR ''|'' \<notin> set proto" using known(1) by (auto simp: VALID_PROTOCOLS_def)
  moreover have "CHR ''|'' \<notin> set vm_ip" "CHR ''|'' \<notin> set ?gw" "CHR ''|'' \<notin> set (show_int i)" for i
    using shell_safe_ip[OF known(2)] shell_safe_ip[OF known(3)] shell_safe_show_int[of i] unfolding shell_safe_def by blast+
  ultimately have "CHR ''|'' \<notin> set ?chk"
    using bar by (simp add: check_cmd_def iptables_base_def dnat_args_def)
  then have "split_once '' || '' (?chk @ '' || '' @ ?add) = Some (?chk, ?add)" by (rule split_once_bars)
  from first_check_sent[OF this _ run] have "SshExec h ?chk \<in> set (calls s')" by simp
  moreover obtain rest where "?chk = ''sudo iptables -t nat -C PREROUTING -s '' @ src @ rest"
    by (auto simp: check_cmd_def iptables_base_def dnat_args_def)
  ultimately show ?thesis by auto
qed


text \<open>
  C4. A user can run commands on the gateway. A custom port may name as its source the address \<open>::1\<close> with any
  scope that holds no percent sign, slash or bar; both validators accept it. When such a request succeeds on a VM that
  has an address, the gateway's shell was given a command in which the text stands verbatim, so that a scope
  like \<open>;reboot;\<close> ends the command \<open>iptables\<close> and begins one of the user's own. (A source without a percent
  sign is harmless: \<open>unscoped_source\<close>.)
\<close>

theorem source_reaches_shell:
  assumes "pc_source body = Some (''::1%'' @ cmd)" and "cmd \<noteq> []"
    and "CHR ''%'' \<notin> set cmd" and "CHR ''/'' \<notin> set cmd" and "CHR ''|'' \<notin> set cmd"
    and "find_owned_vm vmid u (Some node) (db s) = Some v" and "opt_truthy (vm_internal_ip v)"
    and "add_custom_port e node vmid body u s = (Inr row, s')"
  shows "validate_source (pc_source body) = Inr (pc_source body) \<and> normalize_source_ip (pc_source body) = Inr (pc_source body) \<and>
     (\<exists>h rest. SshExec h (''sudo iptables -t nat -C PREROUTING -s ::1%'' @ cmd @ rest) \<in> set (calls s'))"
proof -
  let ?src = "''::1%'' @ cmd"
  have ok: "is_ip_network ?src" by (rule scoped_source[OF assms(2-4)])
  then have valid: "validate_source (pc_source body) = Inr (pc_source body)" "normalize_source_ip (pc_source body) = Inr (pc_source body)"
    by (simp_all add: assms(1) validate_source_def normalize_source_ip_def)
  from assms(8) obtain b where b: "vm_port_create body = Inr b"
    by (auto simp: add_custom_port_def seq_Inr_iff)
  with valid(1) have src: "pc_source b = Some ?src"
    by (auto simp: vm_port_create_def andthen_Inr_iff assms(1) split: if_splits)
  from assms(6-8) b obtain external i t where "forward_port e v b external i t = (Inr (), s')"
    by (auto simp: add_custom_port_def seq_Inr_iff get_vm_Inr_iff ret_def)
  then obtain srv t1 where "manage_custom_iptables e srv (opt_str (vm_internal_ip v)) (pc_internal_port b) external (pc_protocol b)
      ''ADD'' (Some ?src) t1 = (Inr True, s')"
    by (auto simp: forward_port_def unbook_port_def seq_Inr_iff catch_def src raise_def ret_def split: prod.splits sum.splits if_splits)
  from custom_rule_sent[OF this] assms(5) have "\<exists>h rest. SshExec h (''sudo iptables -t nat -C PREROUTING -s '' @ ?src @ rest) \<in> set (calls s')"
    by simp
  then show ?thesis using valid by simp
qed


text \<open>A gateway on which no rule is installed and every addition works.\<close>

definition open_gateway :: "call list \<Rightarrow> call \<Rightarrow> exn + json" where
  "open_gateway hist c = (case c of
       SshExec h cmd \<Rightarrow> Inr (JInt (if py_contains cmd ''-C '' then 1 else 0))
     | SshRead h cmd \<Rightarrow> Inr (JStr [])
     | _ \<Rightarrow> Inr JNull)"

definition shell_db :: database where
  "shell_db = empty_database\<lparr>servers := [sample_server],
     vms := [(sample_vm 1 (Some 7))\<lparr>vm_internal_ip := Some ''10.0.0.100''\<rparr>], next_id := 5\<rparr>"

definition evil_port :: port_create where
  "evil_port = sample_port\<lparr>pc_source := Some ''::1%;reboot;''\<rparr>"

lemma source_reaches_shell_witness:
  "\<exists>h rest. SshExec h (''sudo iptables -t nat -C PREROUTING -s ::1%;reboot;'' @ rest) \<in>
     set (calls (snd (add_custom_port (sample_env open_gateway) ''node1'' 101 evil_port (sample_user 7 USER) (sample_state shell_db))))"
proof -
  let ?run = "add_custom_port (sample_env open_gateway) ''node1'' 101 evil_port (sample_user 7 USER) (sample_state shell_db)"
  have "(case fst ?run of Inl _ \<Rightarrow> False | Inr _ \<Rightarrow> True)" by code_simp
  then obtain row s' where run: "?run = (Inr row, s')" by (cases ?run) (auto split: sum.splits)
  have v: "find_owned_vm 101 (sample_user 7 USER) (Some ''node1'') (db (sample_state shell_db)) =
      Some ((sample_vm 1 (Some 7))\<lparr>vm_internal_ip := Some ''10.0.0.100''\<rparr>)" by code_simp
  have "\<exists>h rest. SshExec h (''sudo iptables -t nat -C PREROUTING -s ::1%'' @ '';reboot;'' @ rest) \<in> set (calls s')"
    using source_reaches_shell[OF _ _ _ _ _ v _ run, of "'';reboot;''"] by (simp add: evil_port_def opt_truthy_def)
  then show ?thesis by (simp add: run)
qed

end
